theory Spec2Isabelle
  imports Main "HOL-Library.Char_ord" "HOL-Library.List_Lexorder" "HOL-Library.Multiset"
begin

section \<open>Storage models (internal/storage/models.go)\<close>

text \<open>
  Go's \<^verbatim>\<open>type State string\<close>: a state is any string, the eleven constants are the
  canonical names. Instants (\<^verbatim>\<open>time.Time\<close>, SQLite's \<^verbatim>\<open>CURRENT_TIMESTAMP\<close>) are
  integers counting seconds.
\<close>

type_synonym State = string

definition ReadyForPlan :: State where "ReadyForPlan = ''ready_for_plan''"
definition Planning :: State where "Planning = ''planning''"
definition ReadyForImplementation :: State where
  "ReadyForImplementation = ''ready_for_implementation''"
definition Implementing :: State where "Implementing = ''implementing''"
definition ReadyForCodeReview :: State where "ReadyForCodeReview = ''ready_for_code_review''"
definition Reviewing :: State where "Reviewing = ''reviewing''"
definition ReadyForCommit :: State where "ReadyForCommit = ''ready_for_commit''"
definition NeedsFixes :: State where "NeedsFixes = ''needs_fixes''"
definition Committing :: State where "Committing = ''committing''"
definition Fixing :: State where "Fixing = ''fixing''"
definition Done :: State where "Done = ''DONE''"

definition StateAliases :: "(string \<times> State) list" where
  "StateAliases =
     [(''ready_for_implmentation'', ReadyForImplementation),
      (''ready_for_code_revie'', ReadyForCodeReview),
      (''need_fixes'', NeedsFixes),
      (''commiting'', Committing)]"

definition NormalizeState :: "string \<Rightarrow> State" where
  "NormalizeState input =
     (case map_of StateAliases input of Some alias \<Rightarrow> alias | None \<Rightarrow> input)"

text \<open>
  \<^verbatim>\<open>Task.Dependencies\<close> is a \<^verbatim>\<open>json.RawMessage\<close> that every reader decodes with
  \<^verbatim>\<open>if len(raw) > 0 { json.Unmarshal(raw, &dependencies) }\<close> into a \<^verbatim>\<open>[]string\<close>.
  The field holds the outcome of that decoding: \<open>None\<close> when \<^verbatim>\<open>json.Unmarshal\<close> returns
  an error, \<open>Some ids\<close> otherwise (\<open>Some []\<close> for an empty text, \<^verbatim>\<open>[]\<close> and
  \<^verbatim>\<open>null\<close>). The other JSON columns of a task are never decoded by the code below and
  stay text.

  A \<^verbatim>\<open>json.RawMessage\<close> that is \<^verbatim>\<open>nil\<close> is written as SQL \<^verbatim>\<open>NULL\<close>, and a row with
  \<^verbatim>\<open>NULL\<close> in such a column cannot be read back: \<^verbatim>\<open>Scan\<close> refuses to store
  \<^verbatim>\<open>NULL\<close> into a \<^verbatim>\<open>json.RawMessage\<close>. For artifacts (\<^verbatim>\<open>meta\<close>) and audit entries
  (\<^verbatim>\<open>commands\<close>, \<^verbatim>\<open>follow_ups\<close>) the column is an option, \<open>None\<close> for \<^verbatim>\<open>NULL\<close>, and
  the reads below fail on it. The rows of the tasks table are taken to be readable: their
  \<^verbatim>\<open>tags\<close>, \<^verbatim>\<open>dependencies\<close> and \<^verbatim>\<open>blocked_by\<close> are not \<^verbatim>\<open>NULL\<close>.
\<close>

text \<open>
  A JSON value as \<^verbatim>\<open>encoding/json\<close> decodes it into \<^verbatim>\<open>interface{}\<close>: a string, a
  number (a \<^verbatim>\<open>float64\<close>, kept by its integer part, which is all the code reads), or
  anything else, kept by its text.
\<close>

datatype JSON = JString string | JNumber int | JOther string

record Task =
  task_ID :: string
  task_Title :: string
  task_Description :: string
  task_State :: State
  task_Priority :: int
  task_Owner :: string
  task_Tags :: string
  task_Dependencies :: "string list option"
  task_BlockedBy :: string
  task_CreatedAt :: int
  task_UpdatedAt :: int

record Requirement =
  req_ID :: string
  req_Key :: string
  req_Title :: string
  req_Text :: string
  req_Type :: string
  req_CreatedAt :: int
  req_UpdatedAt :: int

record Artifact =
  art_ID :: string
  art_TaskID :: string
  art_Name :: string
  art_Version :: int
  art_Content :: string
  art_Meta :: "JSON option"
  art_CreatedAt :: int

record AuditLog =
  log_ID :: string
  log_TaskID :: string
  log_CycleID :: string
  log_PrevState :: string
  log_NextState :: string
  log_Actor :: string
  log_SelectionReason :: string
  log_InputsSummary :: string
  log_OutputsSummary :: string
  log_Commands :: "string option"
  log_Result :: string
  log_Note :: string
  log_FollowUps :: "string option"
  log_CreatedAt :: int

record TaskFilters =
  flt_State :: "State option"
  flt_Priority :: "int option"
  flt_Owner :: "string option"

record CycleResult =
  cr_Success :: bool
  cr_TaskID :: string
  cr_PrevState :: State
  cr_NextState :: State
  cr_ArtifactsCreated :: "string list"
  cr_Duration :: int

section \<open>Errors\<close>

text \<open>
  Go errors are values built by \<^verbatim>\<open>fmt.Errorf\<close>; each distinct failure of the code is a
  constructor carrying the data its message formats, and \<open>Wrap\<close> is \<^verbatim>\<open>%w\<close>.
\<close>

datatype error =
    ErrNoRows
  | ScanNull string
  | ConstraintFailed string
  | InvalidSourceState State
  | InvalidTransition State State "State list"
  | InvalidState State
  | DependenciesUnparsable
  | DependencyNotFound string
  | DependencyNotComplete string string State
  | HandoverNotFound string State State
  | HandoverEmpty string
  | NoSelectableTasks
  | NoUnblockedTasks
  | UnknownAlgorithm string
  | IndexOutOfRange
  | NoAgentConfigured State
  | ExternalFailure string
  | ContextDone
  | Wrap string error

section \<open>The Store (internal/storage/sqlite.go and the schema)\<close>

text \<open>
  The SQLite database is a record of its tables, each a list of rows in insertion order.
  A query that fails only because the database itself fails (I/O, locking) is not modelled;
  \<^verbatim>\<open>sql.ErrNoRows\<close>, the refusal to scan \<^verbatim>\<open>NULL\<close> and the schema's constraints are.
\<close>

record Store =
  tasks :: "Task list"
  requirements :: "Requirement list"
  artifacts :: "Artifact list"
  audit_logs :: "AuditLog list"

definition GetTask :: "Store \<Rightarrow> string \<Rightarrow> Task option" where
  "GetTask s ident = find (\<lambda>t. task_ID t = ident) (tasks s)"

text \<open>
  \<^verbatim>\<open>UPDATE tasks SET state = ?, updated_at = CURRENT_TIMESTAMP WHERE id = ?\<close>: the
  \<^verbatim>\<open>note\<close> argument is accepted and appears in no statement. An id that matches no row
  updates nothing and is no error.
\<close>

definition UpdateTaskState :: "Store \<Rightarrow> int \<Rightarrow> string \<Rightarrow> State \<Rightarrow> string \<Rightarrow> Store" where
  "UpdateTaskState s now ident state note =
     s\<lparr>tasks := map (\<lambda>t. if task_ID t = ident
                           then t\<lparr>task_State := state, task_UpdatedAt := now\<rparr> else t)
                    (tasks s)\<rparr>"

text \<open>
  \<^verbatim>\<open>ORDER BY priority DESC, updated_at ASC\<close>; rows equal on both keys stay in table
  order (SQL leaves their order open).
\<close>

definition ListTasks :: "Store \<Rightarrow> TaskFilters \<Rightarrow> Task list" where
  "ListTasks s filters =
     sort_key (\<lambda>t. - task_Priority t)
       (sort_key task_UpdatedAt
          (filter (\<lambda>t. (case flt_State filters of None \<Rightarrow> True | Some st \<Rightarrow> task_State t = st)
                      \<and> (case flt_Priority filters of None \<Rightarrow> True | Some p \<Rightarrow> task_Priority t = p)
                      \<and> (case flt_Owner filters of None \<Rightarrow> True | Some ow \<Rightarrow> task_Owner t = ow))
                  (tasks s)))"

definition no_filters :: TaskFilters where
  "no_filters = \<lparr>flt_State = None, flt_Priority = None, flt_Owner = None\<rparr>"

definition artifact_rows :: "Store \<Rightarrow> string \<Rightarrow> string \<Rightarrow> Artifact list" where
  "artifact_rows s taskID name =
     filter (\<lambda>a. art_TaskID a = taskID \<and> art_Name a = name) (artifacts s)"

text \<open>\<^verbatim>\<open>COALESCE(MAX(version), 0)\<close> over the rows of one task and name.\<close>

definition max_version :: "Artifact list \<Rightarrow> int" where
  "max_version rows = (case rows of [] \<Rightarrow> 0 | r # rs \<Rightarrow> fold (\<lambda>a m. max (art_Version a) m) rs (art_Version r))"

text \<open>
  \<^verbatim>\<open>UpsertArtifact\<close> fills in id (a fresh UUID when empty), creation time and version,
  then inserts. The insert is refused by the schema when the id is taken (primary key),
  when the task does not exist (foreign key, enabled by \<^verbatim>\<open>PRAGMA foreign_keys = ON\<close>) or
  when the triple (task, name, version) is taken. The function returns the Store and either
  the error or the artifact as the caller then sees it through its pointer.
\<close>

definition UpsertArtifact :: "Store \<Rightarrow> int \<Rightarrow> string \<Rightarrow> Artifact \<Rightarrow> Store \<times> (error + Artifact)" where
  "UpsertArtifact s now uuid artifact =
     (let a1 = artifact\<lparr>art_ID := (if art_ID artifact = [] then uuid else art_ID artifact),
                        art_CreatedAt := now\<rparr>;
          maxVersion = max_version (artifact_rows s (art_TaskID a1) (art_Name a1));
          a2 = a1\<lparr>art_Version := maxVersion + 1\<rparr>
      in if list_ex (\<lambda>a. art_ID a = art_ID a2) (artifacts s)
         then (s, Inl (ConstraintFailed ''artifacts.id''))
         else if GetTask s (art_TaskID a2) = None
         then (s, Inl (ConstraintFailed ''artifacts.task_id''))
         else if list_ex (\<lambda>a. art_Version a = art_Version a2)
                   (artifact_rows s (art_TaskID a2) (art_Name a2))
         then (s, Inl (ConstraintFailed ''artifacts.task_id, artifacts.name, artifacts.version''))
         else (s\<lparr>artifacts := artifacts s @ [a2]\<rparr>, Inr a2))"

text \<open>\<^verbatim>\<open>ORDER BY version DESC LIMIT 1\<close>: the row of highest version.\<close>

definition latest_row :: "Artifact list \<Rightarrow> Artifact option" where
  "latest_row rows =
     (case rows of [] \<Rightarrow> None
      | r # rs \<Rightarrow> Some (fold (\<lambda>a best. if art_Version best < art_Version a then a else best) rs r))"

text \<open>
  \<^verbatim>\<open>Scan\<close> of one artifact row: it fails when \<^verbatim>\<open>meta\<close> is \<^verbatim>\<open>NULL\<close>. A query that
  scans several rows returns the error of the first row that fails, and no rows.
\<close>

definition scan_artifact :: "Artifact \<Rightarrow> error + Artifact" where
  "scan_artifact a = (if art_Meta a = None then Inl (ScanNull ''meta'') else Inr a)"

fun scan_all :: "('a \<Rightarrow> error + 'a) \<Rightarrow> 'a list \<Rightarrow> error + 'a list" where
  "scan_all scan [] = Inr []"
| "scan_all scan (row # rows) =
     (case scan row of
        Inl err \<Rightarrow> Inl err
      | Inr x \<Rightarrow> (case scan_all scan rows of Inl err \<Rightarrow> Inl err | Inr xs \<Rightarrow> Inr (x # xs)))"

definition GetArtifact :: "Store \<Rightarrow> string \<Rightarrow> string \<Rightarrow> int \<Rightarrow> error + Artifact" where
  "GetArtifact s taskID name version =
     (case (if version = 0 then latest_row (artifact_rows s taskID name)
            else find (\<lambda>a. art_Version a = version) (artifact_rows s taskID name)) of
        None \<Rightarrow> Inl ErrNoRows
      | Some a \<Rightarrow> scan_artifact a)"

text \<open>\<^verbatim>\<open>ORDER BY name, version DESC\<close>.\<close>

definition ListArtifacts :: "Store \<Rightarrow> string \<Rightarrow> error + Artifact list" where
  "ListArtifacts s taskID =
     scan_all scan_artifact
       (sort_key art_Name
          (sort_key (\<lambda>a. - art_Version a) (filter (\<lambda>a. art_TaskID a = taskID) (artifacts s))))"

definition ListRequirements :: "Store \<Rightarrow> string \<Rightarrow> Requirement list" where
  "ListRequirements s reqType =
     sort_key req_Key
       (filter (\<lambda>r. reqType = [] \<or> req_Type r = reqType) (requirements s))"

definition CreateAuditLog :: "Store \<Rightarrow> int \<Rightarrow> string \<Rightarrow> AuditLog \<Rightarrow> Store \<times> error option" where
  "CreateAuditLog s now uuid entry =
     (let l = entry\<lparr>log_ID := (if log_ID entry = [] then uuid else log_ID entry),
                     log_CreatedAt := now\<rparr>
      in if list_ex (\<lambda>x. log_ID x = log_ID l) (audit_logs s)
         then (s, Some (ConstraintFailed ''audit_logs.id''))
         else if GetTask s (log_TaskID l) = None
         then (s, Some (ConstraintFailed ''audit_logs.task_id''))
         else (s\<lparr>audit_logs := audit_logs s @ [l]\<rparr>, None))"

text \<open>
  \<^verbatim>\<open>SELECT ... FROM audit_logs WHERE task_id = ? ORDER BY created_at DESC\<close>; entries of
  equal \<^verbatim>\<open>created_at\<close> stay in table order. \<^verbatim>\<open>Scan\<close> of a row fails when its
  \<^verbatim>\<open>commands\<close> or its \<^verbatim>\<open>follow_ups\<close> is \<^verbatim>\<open>NULL\<close>.
\<close>

definition scan_audit :: "AuditLog \<Rightarrow> error + AuditLog" where
  "scan_audit l =
     (if log_Commands l = None then Inl (ScanNull ''commands'')
      else if log_FollowUps l = None then Inl (ScanNull ''follow_ups'')
      else Inr l)"

definition GetAuditLogs :: "Store \<Rightarrow> string \<Rightarrow> error + AuditLog list" where
  "GetAuditLogs s taskID =
     scan_all scan_audit
       (sort_key (\<lambda>l. - log_CreatedAt l) (filter (\<lambda>l. log_TaskID l = taskID) (audit_logs s)))"

section \<open>The audit logger (package audit)\<close>

definition LogCycle :: "Store \<Rightarrow> int \<Rightarrow> string \<Rightarrow> AuditLog \<Rightarrow> Store \<times> error option" where
  "LogCycle s now uuid entry = CreateAuditLog s now uuid entry"

definition GetTaskHistory :: "Store \<Rightarrow> string \<Rightarrow> error + AuditLog list" where
  "GetTaskHistory s taskID = GetAuditLogs s taskID"

section \<open>The state machine (internal/statemachine/states.go)\<close>

definition ValidTransitions :: "(State \<times> State list) list" where
  "ValidTransitions =
     [(ReadyForPlan, [Planning]),
      (Planning, [ReadyForImplementation, NeedsFixes]),
      (ReadyForImplementation, [Implementing]),
      (Implementing, [ReadyForCodeReview, NeedsFixes]),
      (ReadyForCodeReview, [Reviewing]),
      (Reviewing, [ReadyForCommit, NeedsFixes]),
      (ReadyForCommit, [Committing]),
      (Committing, [Done, NeedsFixes]),
      (NeedsFixes, [Fixing]),
      (Fixing, [ReadyForCodeReview, NeedsFixes]),
      (Done, [])]"

definition ValidateTransition :: "State \<Rightarrow> State \<Rightarrow> error option" where
  "ValidateTransition from to =
     (let from' = NormalizeState from; to' = NormalizeState to
      in case map_of ValidTransitions from' of
           None \<Rightarrow> Some (InvalidSourceState from')
         | Some allowedStates \<Rightarrow>
             if list_ex (\<lambda>allowedState. to' = allowedState) allowedStates then None
             else Some (InvalidTransition from' to' allowedStates))"

definition GetAllowedTransitions :: "State \<Rightarrow> error + State list" where
  "GetAllowedTransitions from =
     (let from' = NormalizeState from
      in case map_of ValidTransitions from' of
           None \<Rightarrow> Inl (InvalidState from')
         | Some allowedStates \<Rightarrow> Inr allowedStates)"

definition IsTerminalState :: "State \<Rightarrow> bool" where
  "IsTerminalState state =
     (case map_of ValidTransitions (NormalizeState state) of
        None \<Rightarrow> False
      | Some allowedStates \<Rightarrow> length allowedStates = 0)"

text \<open>The keys of the map, in the order of the table (Go ranges over them in an open order).\<close>

definition GetAllStates :: "State list" where
  "GetAllStates = map fst ValidTransitions"

section \<open>The transition validator (package statemachine)\<close>

definition workStates :: "State list" where
  "workStates = [Planning, Implementing, Reviewing, Committing]"

fun check_dependencies :: "Store \<Rightarrow> string list \<Rightarrow> error option" where
  "check_dependencies s [] = None"
| "check_dependencies s (depID # rest) =
     (case GetTask s depID of
        None \<Rightarrow> Some (Wrap ''dependency task not found'' (DependencyNotFound depID))
      | Some depTask \<Rightarrow>
          if task_State depTask \<noteq> Done
          then Some (DependencyNotComplete depID (task_Title depTask) (task_State depTask))
          else check_dependencies s rest)"

definition validateDependencies :: "Store \<Rightarrow> Task \<Rightarrow> State \<Rightarrow> error option" where
  "validateDependencies s task newState =
     (if \<not> list_ex (\<lambda>state. newState = state) workStates then None
      else case task_Dependencies task of
             None \<Rightarrow> Some (Wrap ''failed to parse dependencies'' DependenciesUnparsable)
           | Some dependencies \<Rightarrow> check_dependencies s dependencies)"

text \<open>The key is \<^verbatim>\<open>fmt.Sprintf("%s->%s", from, to)\<close>, looked up in the literal map.\<close>

definition requiredHandovers :: "(string \<times> string list) list" where
  "requiredHandovers =
     [(''planning->ready_for_implementation'', [''implementation_plan'']),
      (''implementing->ready_for_code_review'', [''change_summary'']),
      (''reviewing->ready_for_commit'', [''review_findings'']),
      (''reviewing->needs_fixes'', [''review_findings'']),
      (''fixing->ready_for_code_review'', [''fix_plan'']),
      (''committing->DONE'', [''commit_summary''])]"

definition getRequiredHandovers :: "State \<Rightarrow> State \<Rightarrow> string list" where
  "getRequiredHandovers from to =
     (case map_of requiredHandovers (from @ ''->'' @ to) of
        Some handovers \<Rightarrow> handovers
      | None \<Rightarrow> [])"

fun check_handovers :: "Store \<Rightarrow> Task \<Rightarrow> State \<Rightarrow> string list \<Rightarrow> error option" where
  "check_handovers s task newState [] = None"
| "check_handovers s task newState (handover # rest) =
     (case GetArtifact s (task_ID task) handover 0 of
        Inl err \<Rightarrow> Some (HandoverNotFound handover (task_State task) newState)
      | Inr artifact \<Rightarrow>
          if art_Content artifact = [] then Some (HandoverEmpty handover)
          else check_handovers s task newState rest)"

definition validateRequiredHandovers :: "Store \<Rightarrow> Task \<Rightarrow> State \<Rightarrow> error option" where
  "validateRequiredHandovers s task newState =
     check_handovers s task newState (getRequiredHandovers (task_State task) newState)"

text \<open>
  \<^verbatim>\<open>ValidateAndTransition\<close> returns the Store after the call and the error, \<open>None\<close>
  for \<^verbatim>\<open>nil\<close>.
\<close>

definition ValidateAndTransition ::
  "Store \<Rightarrow> int \<Rightarrow> string \<Rightarrow> State \<Rightarrow> string \<Rightarrow> Store \<times> error option" where
  "ValidateAndTransition s now taskID newState note =
     (case GetTask s taskID of
        None \<Rightarrow> (s, Some (Wrap ''failed to get task'' ErrNoRows))
      | Some task \<Rightarrow>
          (case ValidateTransition (task_State task) newState of
             Some err \<Rightarrow> (s, Some (Wrap ''transition validation failed'' err))
           | None \<Rightarrow>
               (case validateDependencies s task newState of
                  Some err \<Rightarrow> (s, Some (Wrap ''dependency validation failed'' err))
                | None \<Rightarrow>
                    (case validateRequiredHandovers s task newState of
                       Some err \<Rightarrow> (s, Some (Wrap ''handover validation failed'' err))
                     | None \<Rightarrow> (UpdateTaskState s now taskID newState note, None)))))"

section \<open>Formatting integers (\<^verbatim>\<open>%d\<close>)\<close>

function string_of_nat :: "nat \<Rightarrow> string" where
  "string_of_nat n =
     (if n < 10 then [''0123456789'' ! n]
      else string_of_nat (n div 10) @ [''0123456789'' ! (n mod 10)])"
  by pat_completeness auto
termination
  by (relation "measure (\<lambda>n. n)") auto

declare string_of_nat.simps [simp del]

definition string_of_int :: "int \<Rightarrow> string" where
  "string_of_int i = (if i < 0 then CHR ''-'' # string_of_nat (nat (- i)) else string_of_nat (nat i))"

text \<open>Go's conversion \<^verbatim>\<open>int(x / d)\<close> of a quotient: truncation toward zero.\<close>

definition trunc_div :: "int \<Rightarrow> int \<Rightarrow> int" where
  "trunc_div a d = (if a < 0 then - ((- a) div d) else a div d)"

section \<open>The selector (internal/statemachine/selection.go)\<close>

record SelectionConfig =
  sc_Algorithm :: string
  sc_DependencyStrict :: bool
  sc_PreferLeafTasks :: bool
  sc_TieBreaker :: string

record SelectionResult =
  sel_Task :: Task
  sel_Reason :: string

record taskCandidate =
  c_Task :: Task
  c_Blocked :: bool
  c_BlockReason :: string
  c_IsLeaf :: bool
  c_Priority :: int

fun scan_dependencies :: "Store \<Rightarrow> string list \<Rightarrow> bool \<times> string" where
  "scan_dependencies s [] = (False, [])"
| "scan_dependencies s (depID # rest) =
     (case GetTask s depID of
        None \<Rightarrow> (True, ''dependency '' @ depID @ '' not found'')
      | Some depTask \<Rightarrow>
          if task_State depTask \<noteq> Done
          then (True, ''dependency '' @ depID @ '' ('' @ task_Title depTask @ '') not complete'')
          else scan_dependencies s rest)"

definition isBlockedByDependencies :: "SelectionConfig \<Rightarrow> Store \<Rightarrow> Task \<Rightarrow> bool \<times> string" where
  "isBlockedByDependencies cfg s task =
     (if \<not> sc_DependencyStrict cfg then (False, [])
      else case task_Dependencies task of
             None \<Rightarrow> (True, ''invalid dependencies JSON'')
           | Some dependencies \<Rightarrow> scan_dependencies s dependencies)"

definition hasUnfinishedDependents :: "Store \<Rightarrow> Task \<Rightarrow> bool" where
  "hasUnfinishedDependents s task =
     list_ex (\<lambda>otherTask.
                \<not> (task_ID otherTask = task_ID task \<or> task_State otherTask = Done)
                \<and> (case task_Dependencies otherTask of
                      None \<Rightarrow> False
                    | Some dependencies \<Rightarrow> list_ex (\<lambda>depID. depID = task_ID task) dependencies))
             (ListTasks s no_filters)"

text \<open>The \<^verbatim>\<open>less\<close> closure that \<^verbatim>\<open>sortCandidates\<close> hands to \<^verbatim>\<open>sort.Slice\<close>.\<close>

definition candidate_less :: "SelectionConfig \<Rightarrow> taskCandidate \<Rightarrow> taskCandidate \<Rightarrow> bool" where
  "candidate_less cfg a b =
     (if c_Priority a \<noteq> c_Priority b then c_Priority a > c_Priority b
      else if sc_PreferLeafTasks cfg \<and> c_IsLeaf a \<noteq> c_IsLeaf b then c_IsLeaf a
      else if sc_TieBreaker cfg = ''oldest_updated''
           then task_UpdatedAt (c_Task a) < task_UpdatedAt (c_Task b)
      else if sc_TieBreaker cfg = ''newest_created''
           then task_CreatedAt (c_Task a) > task_CreatedAt (c_Task b)
      else if sc_TieBreaker cfg = ''alphabetical''
           then task_Title (c_Task a) < task_Title (c_Task b)
      else task_UpdatedAt (c_Task a) < task_UpdatedAt (c_Task b))"

text \<open>
  \<^verbatim>\<open>sort.Slice\<close> belongs to Go's standard library, not to this repository: the functions
  that sort take it as the parameter \<open>sortSlice\<close>. \<open>insertionSort\<close> is what
  \<^verbatim>\<open>sort.Slice\<close> runs on a slice of at most twelve elements
  (\<^verbatim>\<open>insertionSortLessFunc\<close>: each element moves left while it is less than its left
  neighbour); it instantiates the parameter where a concrete run is evaluated. The prefix
  already sorted is kept reversed, nearest neighbour first.
\<close>

type_synonym 'a sorter = "('a \<Rightarrow> 'a \<Rightarrow> bool) \<Rightarrow> 'a list \<Rightarrow> 'a list"

fun move_left :: "('a \<Rightarrow> 'a \<Rightarrow> bool) \<Rightarrow> 'a \<Rightarrow> 'a list \<Rightarrow> 'a list" where
  "move_left lt x [] = [x]"
| "move_left lt x (y # ys) = (if lt x y then y # move_left lt x ys else x # y # ys)"

definition insertionSort :: "'a sorter" where
  "insertionSort lt xs = rev (fold (move_left lt) xs [])"

definition sortCandidates ::
  "taskCandidate sorter \<Rightarrow> SelectionConfig \<Rightarrow> taskCandidate list \<Rightarrow> taskCandidate list" where
  "sortCandidates sortSlice cfg candidates = sortSlice (candidate_less cfg) candidates"

definition join_criteria :: "string list \<Rightarrow> string" where
  "join_criteria criteria =
     (case criteria of [] \<Rightarrow> []
      | c # cs \<Rightarrow> '': '' @ c @ concat (map (\<lambda>criterion. '', '' @ criterion) cs))"

definition buildSelectionReason ::
  "SelectionConfig \<Rightarrow> int \<Rightarrow> taskCandidate \<Rightarrow> nat \<Rightarrow> nat \<Rightarrow> string" where
  "buildSelectionReason cfg now selected totalTasks availableTasks =
     (let priority = (if c_Priority selected > 5
                        then [''high priority ('' @ string_of_int (c_Priority selected) @ '')'']
                      else if c_Priority selected = 5
                        then [''normal priority ('' @ string_of_int (c_Priority selected) @ '')'']
                      else [''low priority ('' @ string_of_int (c_Priority selected) @ '')'']);
          leaf = (if sc_PreferLeafTasks cfg \<and> c_IsLeaf selected
                  then [''leaf task (no dependents)''] else []);
          depCount = (case task_Dependencies (c_Task selected) of
                        None \<Rightarrow> 0 | Some deps \<Rightarrow> length deps);
          deps = (if depCount > 0 then [string_of_nat depCount @ '' dependencies satisfied'']
                  else [''no dependencies'']);
          age = now - task_UpdatedAt (c_Task selected);
          tie = (if sc_TieBreaker cfg = ''oldest_updated''
                 then (if age > 86400
                       then [''oldest update ('' @ string_of_int (trunc_div age 86400) @ ''d ago)'']
                       else [''oldest update ('' @ string_of_int (trunc_div age 3600) @ ''h ago)''])
                 else [])
      in ''Selected from '' @ string_of_nat totalTasks @ '' total tasks (''
           @ string_of_nat availableTasks @ '' available)''
           @ join_criteria (priority @ leaf @ deps @ tie))"

definition make_candidate :: "SelectionConfig \<Rightarrow> Store \<Rightarrow> Task \<Rightarrow> taskCandidate" where
  "make_candidate cfg s task =
     (let (blocked, reason) = isBlockedByDependencies cfg s task
      in \<lparr>c_Task = task, c_Blocked = blocked, c_BlockReason = reason,
          c_IsLeaf = \<not> hasUnfinishedDependents s task, c_Priority = task_Priority task\<rparr>)"

definition selectByPriorityAndDependency ::
  "taskCandidate sorter \<Rightarrow> SelectionConfig \<Rightarrow> int \<Rightarrow> Store \<Rightarrow> Task list
     \<Rightarrow> error + SelectionResult" where
  "selectByPriorityAndDependency sortSlice cfg now s tasks' =
     (let candidates = map (make_candidate cfg s) tasks';
          availableCandidates = filter (\<lambda>candidate. \<not> c_Blocked candidate) candidates
      in if length availableCandidates = 0 then Inl NoUnblockedTasks
         else case sortCandidates sortSlice cfg availableCandidates of
                [] \<Rightarrow> Inl IndexOutOfRange
              | selected # _ \<Rightarrow>
                  Inr \<lparr>sel_Task = c_Task selected,
                       sel_Reason = buildSelectionReason cfg now selected
                                      (length candidates) (length availableCandidates)\<rparr>)"

definition getSelectableTasks :: "Store \<Rightarrow> Task list" where
  "getSelectableTasks s = filter (\<lambda>task. \<not> IsTerminalState (task_State task)) (ListTasks s no_filters)"

definition SelectNext ::
  "taskCandidate sorter \<Rightarrow> SelectionConfig \<Rightarrow> int \<Rightarrow> Store \<Rightarrow> error + SelectionResult" where
  "SelectNext sortSlice cfg now s =
     (let tasks' = getSelectableTasks s
      in if length tasks' = 0 then Inl NoSelectableTasks
         else if sc_Algorithm cfg = ''priority_dependency''
         then selectByPriorityAndDependency sortSlice cfg now s tasks'
         else Inl (UnknownAlgorithm (sc_Algorithm cfg)))"

section \<open>The completion handshake (internal/cycle/handshake.go)\<close>

record Response =
  rs_Success :: bool
  rs_Content :: string

record CompletionConfig =
  cc_MaxRetries :: int
  cc_RetryDelaySeconds :: int
  cc_RequireExplicitStateUpdate :: bool
  cc_FollowUpTemplate :: string

record HandshakeResult =
  hr_Success :: bool
  hr_FinalState :: State
  hr_ArtifactsCreated :: "string list"
  hr_FollowUps :: "string list"
  hr_Note :: string

text \<open>
  The enforcer runs in one thread after the LLM has terminated: between two of its reads
  nothing else writes the Store, so every \<^verbatim>\<open>GetTask\<close> of one call reads the same Store.
  The \<^verbatim>\<open>select\<close> between the retry delay and \<^verbatim>\<open>ctx.Done()\<close> is decided by the
  environment: \<open>cancelled retry\<close> says that the context was done first at that retry.
\<close>

datatype loop_end = Returned "error + HandshakeResult" | Exhausted HandshakeResult

function retry_loop ::
  "Store \<Rightarrow> CompletionConfig \<Rightarrow> (int \<Rightarrow> bool) \<Rightarrow> string \<Rightarrow> State \<Rightarrow> int \<Rightarrow> HandshakeResult
     \<Rightarrow> loop_end" where
  "retry_loop s cfg cancelled taskID initialState retry result =
     (if retry < cc_MaxRetries cfg then
        (if retry > 0 \<and> cancelled retry then Returned (Inl ContextDone)
         else case GetTask s taskID of
                None \<Rightarrow> Returned (Inl (Wrap ''failed to get task during handshake'' ErrNoRows))
              | Some task \<Rightarrow>
                  if task_State task \<noteq> initialState
                  then Returned (Inr (result\<lparr>hr_Success := True,
                                             hr_FinalState := task_State task,
                                             hr_Note := ''Task state updated after follow-up ''
                                                          @ string_of_int (retry + 1)\<rparr>))
                  else retry_loop s cfg cancelled taskID initialState (retry + 1)
                         (result\<lparr>hr_FollowUps := hr_FollowUps result @ [cc_FollowUpTemplate cfg]\<rparr>))
      else Exhausted result)"
  by pat_completeness auto
termination
  by (relation "measure (\<lambda>(s, cfg, cancelled, taskID, initialState, retry, result).
                           nat (cc_MaxRetries cfg - retry))") auto

declare retry_loop.simps [simp del]

definition enforceHandshake ::
  "Store \<Rightarrow> CompletionConfig \<Rightarrow> (int \<Rightarrow> bool) \<Rightarrow> int \<Rightarrow> string \<Rightarrow> State \<Rightarrow> Response
     \<Rightarrow> Store \<times> (error + HandshakeResult)" where
  "enforceHandshake s cfg cancelled now taskID initialState llmResponse =
     (case retry_loop s cfg cancelled taskID initialState 0
             \<lparr>hr_Success = False, hr_FinalState = initialState, hr_ArtifactsCreated = [],
              hr_FollowUps = [], hr_Note = []\<rparr> of
        Returned r \<Rightarrow> (s, r)
      | Exhausted result \<Rightarrow>
          if cc_RequireExplicitStateUpdate cfg
          then (let note = ''Completion handshake failed after ''
                             @ string_of_int (cc_MaxRetries cfg)
                             @ '' retries. Agent did not update task state.''
                in (UpdateTaskState s now taskID NeedsFixes note,
                    Inr (result\<lparr>hr_FinalState := NeedsFixes, hr_Note := note\<rparr>)))
          else (s, Inr result))"

definition Enforce ::
  "Store \<Rightarrow> CompletionConfig \<Rightarrow> (int \<Rightarrow> bool) \<Rightarrow> int \<Rightarrow> string \<Rightarrow> Response
     \<Rightarrow> Store \<times> (error + HandshakeResult)" where
  "Enforce s cfg cancelled now taskID llmResponse =
     (case GetTask s taskID of
        None \<Rightarrow> (s, Inl (Wrap ''failed to get task'' ErrNoRows))
      | Some task \<Rightarrow>
          (let initialState = task_State task
           in case GetTask s taskID of
                None \<Rightarrow> (s, Inl (Wrap ''failed to get updated task'' ErrNoRows))
              | Some updatedTask \<Rightarrow>
                  if task_State updatedTask \<noteq> initialState
                  then (s, Inr \<lparr>hr_Success = True,
                                hr_FinalState = task_State updatedTask,
                                hr_ArtifactsCreated =
                                  (case ListArtifacts s taskID of
                                     Inl err \<Rightarrow> []
                                   | Inr artifacts' \<Rightarrow>
                                       map art_Name
                                         (filter (\<lambda>artifact. now - art_CreatedAt artifact < 30)
                                                 artifacts')),
                                hr_FollowUps = [],
                                hr_Note = ''Task state successfully updated''\<rparr>)
                  else enforceHandshake s cfg cancelled now taskID initialState llmResponse))"

section \<open>JSON-RPC types (package mcp)\<close>

record JSONRPCRequest =
  rq_JSONRPC :: string
  rq_Method :: string
  rq_Params :: "(string \<times> JSON) list option"
  rq_ID :: string

datatype ErrData =
    NoData
  | ErrorText error
  | TaskRef string
  | ArtifactRef string string int
  | PathRef string

record JSONRPCError =
  je_Code :: int
  je_Message :: string
  je_Data :: ErrData

datatype Payload =
    NextTask Task "Artifact list" string
  | TaskWithArtifacts Task "Artifact list"
  | StateUpdated string State
  | NoteAppended string
  | TaskList "Task list" nat
  | ArtifactUpserted string string string int
  | ArtifactPayload Artifact
  | ArtifactList "Artifact list" nat
  | RequirementList "Requirement list" nat
  | PlanContent string string int int
  | Initialized
  | Pong

record JSONRPCResponse =
  rp_JSONRPC :: string
  rp_Result :: "Payload option"
  rp_Error :: "JSONRPCError option"
  rp_ID :: string

definition ParseError :: int where "ParseError = - 32700"
definition InvalidRequest :: int where "InvalidRequest = - 32600"
definition MethodNotFound :: int where "MethodNotFound = - 32601"
definition InvalidParams :: int where "InvalidParams = - 32602"
definition InternalError :: int where "InternalError = - 32603"

definition ResourceNotFound :: int where "ResourceNotFound = - 32002"
definition ToolNotFound :: int where "ToolNotFound = - 32001"

definition NewJSONRPCResponse :: "string \<Rightarrow> Payload \<Rightarrow> JSONRPCResponse" where
  "NewJSONRPCResponse ident result =
     \<lparr>rp_JSONRPC = ''2.0'', rp_Result = Some result, rp_Error = None, rp_ID = ident\<rparr>"

definition NewJSONRPCError :: "string \<Rightarrow> int \<Rightarrow> string \<Rightarrow> ErrData \<Rightarrow> JSONRPCResponse" where
  "NewJSONRPCError ident code message data' =
     \<lparr>rp_JSONRPC = ''2.0'', rp_Result = None,
      rp_Error = Some \<lparr>je_Code = code, je_Message = message, je_Data = data'\<rparr>,
      rp_ID = ident\<rparr>"

text \<open>The parameter getters return \<open>None\<close> where the Go functions return an error.\<close>

definition GetParams :: "JSONRPCRequest \<Rightarrow> (string \<times> JSON) list option" where
  "GetParams r = rq_Params r"

definition GetStringParam :: "JSONRPCRequest \<Rightarrow> string \<Rightarrow> string option" where
  "GetStringParam r name =
     (case rq_Params r of
        None \<Rightarrow> None
      | Some params \<Rightarrow>
          (case map_of params name of
             Some (JString str) \<Rightarrow> Some str
           | _ \<Rightarrow> None))"

definition GetIntParam :: "JSONRPCRequest \<Rightarrow> string \<Rightarrow> int option" where
  "GetIntParam r name =
     (case rq_Params r of
        None \<Rightarrow> None
      | Some params \<Rightarrow>
          (case map_of params name of
             Some (JNumber v) \<Rightarrow> Some v
           | _ \<Rightarrow> None))"

definition GetOptionalStringParam :: "JSONRPCRequest \<Rightarrow> string \<Rightarrow> string \<times> bool" where
  "GetOptionalStringParam r name =
     (case rq_Params r of
        None \<Rightarrow> ([], False)
      | Some params \<Rightarrow>
          (case map_of params name of
             Some (JString str) \<Rightarrow> (str, True)
           | _ \<Rightarrow> ([], False)))"

section \<open>Method handlers (internal/mcp/handlers.go)\<close>

text \<open>Every handler returns the Store after the call and the response.\<close>

definition TaskHandler_GetNext ::
  "taskCandidate sorter \<Rightarrow> SelectionConfig \<Rightarrow> int \<Rightarrow> Store \<Rightarrow> JSONRPCRequest
     \<Rightarrow> Store \<times> JSONRPCResponse" where
  "TaskHandler_GetNext sortSlice cfg now s req =
     (case SelectNext sortSlice cfg now s of
        Inl err \<Rightarrow>
          (s, NewJSONRPCError (rq_ID req) InternalError ''Failed to select next task'' (ErrorText err))
      | Inr result \<Rightarrow>
          (case ListArtifacts s (task_ID (sel_Task result)) of
             Inl err \<Rightarrow>
               (s, NewJSONRPCError (rq_ID req) InternalError ''Failed to get task artifacts''
                     (ErrorText err))
           | Inr artifacts' \<Rightarrow>
               (s, NewJSONRPCResponse (rq_ID req)
                     (NextTask (sel_Task result) artifacts' (sel_Reason result)))))"

definition TaskHandler_Get :: "Store \<Rightarrow> JSONRPCRequest \<Rightarrow> Store \<times> JSONRPCResponse" where
  "TaskHandler_Get s req =
     (case GetStringParam req ''task_id'' of
        None \<Rightarrow> (s, NewJSONRPCError (rq_ID req) InvalidParams ''Missing task_id parameter'' NoData)
      | Some taskID \<Rightarrow>
          (case GetTask s taskID of
             None \<Rightarrow>
               (s, NewJSONRPCError (rq_ID req) ResourceNotFound ''Task not found'' (TaskRef taskID))
           | Some task \<Rightarrow>
               (case ListArtifacts s (task_ID task) of
                  Inl err \<Rightarrow>
                    (s, NewJSONRPCError (rq_ID req) InternalError ''Failed to get task artifacts''
                          (ErrorText err))
                | Inr artifacts' \<Rightarrow>
                    (s, NewJSONRPCResponse (rq_ID req) (TaskWithArtifacts task artifacts')))))"

definition TaskHandler_UpdateState ::
  "Store \<Rightarrow> int \<Rightarrow> JSONRPCRequest \<Rightarrow> Store \<times> JSONRPCResponse" where
  "TaskHandler_UpdateState s now req =
     (case GetStringParam req ''task_id'' of
        None \<Rightarrow> (s, NewJSONRPCError (rq_ID req) InvalidParams ''Missing task_id parameter'' NoData)
      | Some taskID \<Rightarrow>
          (case GetStringParam req ''state'' of
             None \<Rightarrow> (s, NewJSONRPCError (rq_ID req) InvalidParams ''Missing state parameter'' NoData)
           | Some stateStr \<Rightarrow>
               (let note = fst (GetOptionalStringParam req ''note'');
                    newState = NormalizeState stateStr
                in case ValidateAndTransition s now taskID newState note of
                     (s', Some err) \<Rightarrow>
                       (s', NewJSONRPCError (rq_ID req) InvalidParams ''State transition failed''
                              (ErrorText err))
                   | (s', None) \<Rightarrow>
                       (s', NewJSONRPCResponse (rq_ID req) (StateUpdated taskID newState)))))"

definition TaskHandler_AppendNote ::
  "Store \<Rightarrow> int \<Rightarrow> JSONRPCRequest \<Rightarrow> Store \<times> JSONRPCResponse" where
  "TaskHandler_AppendNote s now req =
     (case GetStringParam req ''task_id'' of
        None \<Rightarrow> (s, NewJSONRPCError (rq_ID req) InvalidParams ''Missing task_id parameter'' NoData)
      | Some taskID \<Rightarrow>
          (case GetStringParam req ''note'' of
             None \<Rightarrow> (s, NewJSONRPCError (rq_ID req) InvalidParams ''Missing note parameter'' NoData)
           | Some note \<Rightarrow>
               (case GetTask s taskID of
                  None \<Rightarrow>
                    (s, NewJSONRPCError (rq_ID req) ResourceNotFound ''Task not found''
                          (TaskRef taskID))
                | Some task \<Rightarrow>
                    (UpdateTaskState s now taskID (task_State task) note,
                     NewJSONRPCResponse (rq_ID req) (NoteAppended taskID)))))"

definition TaskHandler_List :: "Store \<Rightarrow> JSONRPCRequest \<Rightarrow> Store \<times> JSONRPCResponse" where
  "TaskHandler_List s req =
     (case GetParams req of
        None \<Rightarrow> (s, NewJSONRPCError (rq_ID req) InvalidParams ''Invalid parameters'' NoData)
      | Some params \<Rightarrow>
          (let filters =
                 \<lparr>flt_State = (case map_of params ''state'' of
                                 Some (JString stateStr) \<Rightarrow> Some (NormalizeState stateStr)
                               | _ \<Rightarrow> None),
                  flt_Priority = (case map_of params ''priority'' of
                                    Some (JNumber priority) \<Rightarrow> Some priority
                                  | _ \<Rightarrow> None),
                  flt_Owner = (case map_of params ''owner'' of
                                 Some (JString owner) \<Rightarrow> Some owner
                               | _ \<Rightarrow> None)\<rparr>;
               tasks' = ListTasks s filters
           in (s, NewJSONRPCResponse (rq_ID req) (TaskList tasks' (length tasks')))))"

definition ArtifactHandler_Upsert ::
  "Store \<Rightarrow> int \<Rightarrow> string \<Rightarrow> JSONRPCRequest \<Rightarrow> Store \<times> JSONRPCResponse" where
  "ArtifactHandler_Upsert s now uuid req =
     (case GetStringParam req ''task_id'' of
        None \<Rightarrow> (s, NewJSONRPCError (rq_ID req) InvalidParams ''Missing task_id parameter'' NoData)
      | Some taskID \<Rightarrow>
          (case GetStringParam req ''name'' of
             None \<Rightarrow> (s, NewJSONRPCError (rq_ID req) InvalidParams ''Missing name parameter'' NoData)
           | Some name \<Rightarrow>
               (case GetStringParam req ''content'' of
                  None \<Rightarrow>
                    (s, NewJSONRPCError (rq_ID req) InvalidParams ''Missing content parameter'' NoData)
                | Some content \<Rightarrow>
                    (let meta = (case GetParams req of
                                   None \<Rightarrow> None
                                 | Some params \<Rightarrow> map_of params ''meta'');
                         artifact = \<lparr>art_ID = [], art_TaskID = taskID, art_Name = name,
                                     art_Version = 0, art_Content = content, art_Meta = meta,
                                     art_CreatedAt = 0\<rparr>
                     in case UpsertArtifact s now uuid artifact of
                          (s', Inl err) \<Rightarrow>
                            (s', NewJSONRPCError (rq_ID req) InternalError
                                   ''Failed to upsert artifact'' (ErrorText err))
                        | (s', Inr a) \<Rightarrow>
                            (s', NewJSONRPCResponse (rq_ID req)
                                   (ArtifactUpserted (art_ID a) (art_TaskID a) (art_Name a)
                                      (art_Version a)))))))"

definition ArtifactHandler_Get :: "Store \<Rightarrow> JSONRPCRequest \<Rightarrow> Store \<times> JSONRPCResponse" where
  "ArtifactHandler_Get s req =
     (case GetStringParam req ''task_id'' of
        None \<Rightarrow> (s, NewJSONRPCError (rq_ID req) InvalidParams ''Missing task_id parameter'' NoData)
      | Some taskID \<Rightarrow>
          (case GetStringParam req ''name'' of
             None \<Rightarrow> (s, NewJSONRPCError (rq_ID req) InvalidParams ''Missing name parameter'' NoData)
           | Some name \<Rightarrow>
               (let version = (case GetIntParam req ''version'' of Some v \<Rightarrow> v | None \<Rightarrow> 0)
                in case GetArtifact s taskID name version of
                     Inl err \<Rightarrow>
                       (s, NewJSONRPCError (rq_ID req) ResourceNotFound ''Artifact not found''
                             (ArtifactRef taskID name version))
                   | Inr artifact \<Rightarrow>
                       (s, NewJSONRPCResponse (rq_ID req) (ArtifactPayload artifact)))))"

definition ArtifactHandler_List :: "Store \<Rightarrow> JSONRPCRequest \<Rightarrow> Store \<times> JSONRPCResponse" where
  "ArtifactHandler_List s req =
     (case GetStringParam req ''task_id'' of
        None \<Rightarrow> (s, NewJSONRPCError (rq_ID req) InvalidParams ''Missing task_id parameter'' NoData)
      | Some taskID \<Rightarrow>
          (case ListArtifacts s taskID of
             Inl err \<Rightarrow>
               (s, NewJSONRPCError (rq_ID req) InternalError ''Failed to list artifacts''
                     (ErrorText err))
           | Inr artifacts' \<Rightarrow>
               (s, NewJSONRPCResponse (rq_ID req) (ArtifactList artifacts' (length artifacts')))))"

definition RequirementHandler_List :: "Store \<Rightarrow> JSONRPCRequest \<Rightarrow> Store \<times> JSONRPCResponse" where
  "RequirementHandler_List s req =
     (case GetParams req of
        None \<Rightarrow> (s, NewJSONRPCError (rq_ID req) InvalidParams ''Invalid parameters'' NoData)
      | Some params \<Rightarrow>
          (let reqType = (case map_of params ''type'' of Some (JString t) \<Rightarrow> t | _ \<Rightarrow> []);
               requirements' = ListRequirements s reqType
           in (s, NewJSONRPCResponse (rq_ID req)
                    (RequirementList requirements' (length requirements')))))"

text \<open>
  \<^verbatim>\<open>PlanHandler.Read\<close> reads the plan file from disk; what the file system answers to
  \<^verbatim>\<open>os.Stat\<close>, \<^verbatim>\<open>os.Open\<close>, \<^verbatim>\<open>io.ReadAll\<close> and \<^verbatim>\<open>file.Stat\<close> is the argument.
\<close>

datatype PlanFile =
    PlanMissing
  | PlanOpenFails string
  | PlanReadFails string
  | PlanStatFails string
  | PlanReadable string int int

definition PlanHandler_Read ::
  "string \<Rightarrow> PlanFile \<Rightarrow> Store \<Rightarrow> JSONRPCRequest \<Rightarrow> Store \<times> JSONRPCResponse" where
  "PlanHandler_Read planFile disk s req =
     (case disk of
        PlanMissing \<Rightarrow>
          (s, NewJSONRPCError (rq_ID req) ResourceNotFound ''Plan file not found'' (PathRef planFile))
      | PlanOpenFails e \<Rightarrow>
          (s, NewJSONRPCError (rq_ID req) InternalError ''Failed to open plan file''
                (ErrorText (ExternalFailure e)))
      | PlanReadFails e \<Rightarrow>
          (s, NewJSONRPCError (rq_ID req) InternalError ''Failed to read plan file''
                (ErrorText (ExternalFailure e)))
      | PlanStatFails e \<Rightarrow>
          (s, NewJSONRPCError (rq_ID req) InternalError ''Failed to get plan file info''
                (ErrorText (ExternalFailure e)))
      | PlanReadable content size' modTime \<Rightarrow>
          (s, NewJSONRPCResponse (rq_ID req) (PlanContent content planFile size' modTime)))"

section \<open>The server's dispatch (internal/mcp/server.go)\<close>

definition handleInitialize :: "Store \<Rightarrow> JSONRPCRequest \<Rightarrow> Store \<times> JSONRPCResponse" where
  "handleInitialize s req =
     (case GetParams req of
        None \<Rightarrow> (s, NewJSONRPCError (rq_ID req) InvalidParams ''Invalid initialize parameters'' NoData)
      | Some params \<Rightarrow> (s, NewJSONRPCResponse (rq_ID req) Initialized))"

definition handlePing :: "Store \<Rightarrow> JSONRPCRequest \<Rightarrow> Store \<times> JSONRPCResponse" where
  "handlePing s req = (s, NewJSONRPCResponse (rq_ID req) Pong)"

text \<open>
  What a call of the surface takes from outside the Store: the sorter and the selection
  configuration of the server's selector, the plan file's path, and per call the clock,
  the UUID drawn if one is needed, and the state of the plan file on disk.
\<close>

record Surface =
  sf_sortSlice :: "taskCandidate sorter"
  sf_Selection :: SelectionConfig
  sf_PlanFile :: string

record Served =
  sv_now :: int
  sv_uuid :: string
  sv_disk :: PlanFile
  sv_request :: JSONRPCRequest

definition handleRequest :: "Surface \<Rightarrow> Store \<Rightarrow> Served \<Rightarrow> Store \<times> JSONRPCResponse" where
  "handleRequest srv s call =
     (let req = sv_request call; m = rq_Method req in
      if m = ''baton.tasks.get_next''
        then TaskHandler_GetNext (sf_sortSlice srv) (sf_Selection srv) (sv_now call) s req
      else if m = ''baton.tasks.get'' then TaskHandler_Get s req
      else if m = ''baton.tasks.update_state'' then TaskHandler_UpdateState s (sv_now call) req
      else if m = ''baton.tasks.append_note'' then TaskHandler_AppendNote s (sv_now call) req
      else if m = ''baton.tasks.list'' then TaskHandler_List s req
      else if m = ''baton.artifacts.upsert''
        then ArtifactHandler_Upsert s (sv_now call) (sv_uuid call) req
      else if m = ''baton.artifacts.get'' then ArtifactHandler_Get s req
      else if m = ''baton.artifacts.list'' then ArtifactHandler_List s req
      else if m = ''baton.requirements.list'' then RequirementHandler_List s req
      else if m = ''baton.plan.read'' then PlanHandler_Read (sf_PlanFile srv) (sv_disk call) s req
      else if m = ''initialize'' then handleInitialize s req
      else if m = ''ping'' then handlePing s req
      else (s, NewJSONRPCError (rq_ID req) MethodNotFound (''Method not found: '' @ m) NoData))"

text \<open>The Store after the surface has served a sequence of requests, one after the other.\<close>

fun serve :: "Surface \<Rightarrow> Store \<Rightarrow> Served list \<Rightarrow> Store" where
  "serve srv s [] = s"
| "serve srv s (call # calls) = serve srv (fst (handleRequest srv s call)) calls"

section \<open>The cycle engine (package cycle)\<close>

record Agent =
  ag_Name :: string
  ag_Role :: string
  ag_AllowedStates :: "string list"

text \<open>
  The fields of the configuration that the engine and its parts read. \<^verbatim>\<open>Agents\<close> is a Go
  map, ranged over in an order Go leaves open: the list is in the order of that iteration.
\<close>

record Config =
  cfg_PlanFile :: string
  cfg_Agents :: "(string \<times> Agent) list"
  cfg_Selection :: SelectionConfig
  cfg_Completion :: CompletionConfig
  cfg_CycleTimeboxSeconds :: int

text \<open>
  What one cycle takes from outside the Store. \<^verbatim>\<open>Server.Start\<close> and
  \<^verbatim>\<open>llmClient.Execute\<close> are external (network, subprocess): \<open>env_mcpStart\<close> and
  \<open>env_llm\<close> are what they return, and \<open>env_served\<close> is the sequence of requests that
  the surface's \<^verbatim>\<open>handleRequest\<close> serves from the call of \<^verbatim>\<open>Start\<close>, which runs
  the serving loop, until \<^verbatim>\<open>Execute\<close> has returned; it is the only way the LLM reaches
  the Store, and the engine reads the Store again only afterwards. The other fields are the
  UUIDs drawn and the clock readings.
\<close>

record CycleEnv =
  env_cycleID :: string
  env_selectTime :: int
  env_mcpStart :: "error option"
  env_served :: "Served list"
  env_llm :: "error + Response"
  env_cancelled :: "int \<Rightarrow> bool"
  env_handshakeTime :: int
  env_auditID :: string
  env_auditTime :: int
  env_duration :: int

definition getAgentForTask :: "Config \<Rightarrow> Task \<Rightarrow> error + Agent" where
  "getAgentForTask cfg task =
     (case find (\<lambda>(agentID, agent).
                   list_ex (\<lambda>allowedState. allowedState = task_State task) (ag_AllowedStates agent))
                (cfg_Agents cfg) of
        Some (agentID, agent) \<Rightarrow> Inr agent
      | None \<Rightarrow> Inl (NoAgentConfigured (task_State task)))"

definition buildInputsSummary :: "Task \<Rightarrow> string" where
  "buildInputsSummary task =
     ''Task: '' @ task_Title task @ '' (State: '' @ task_State task @ '', Priority: ''
       @ string_of_int (task_Priority task) @ '')''"

definition buildOutputsSummary :: "string list \<Rightarrow> string" where
  "buildOutputsSummary artifactsCreated =
     (case artifactsCreated of
        [] \<Rightarrow> ''No artifacts created''
      | a # as \<Rightarrow> ''Artifacts created: ['' @ a @ concat (map (\<lambda>x. '' '' @ x) as) @ '']'')"

definition surface_of :: "taskCandidate sorter \<Rightarrow> Config \<Rightarrow> Surface" where
  "surface_of sortSlice cfg =
     \<lparr>sf_sortSlice = sortSlice, sf_Selection = cfg_Selection cfg, sf_PlanFile = cfg_PlanFile cfg\<rparr>"

text \<open>
  \<^verbatim>\<open>ExecuteCycle\<close> returns the Store after the call and either the error or the
  \<^verbatim>\<open>CycleResult\<close>. \<^verbatim>\<open>buildPrompt\<close> only formats the text handed to the LLM and never
  fails; it has no part in the result.
\<close>

definition ExecuteCycle ::
  "taskCandidate sorter \<Rightarrow> Config \<Rightarrow> CycleEnv \<Rightarrow> bool \<Rightarrow> Store \<Rightarrow> Store \<times> (error + CycleResult)" where
  "ExecuteCycle sortSlice cfg env dryRun s =
     (case SelectNext sortSlice (cfg_Selection cfg) (env_selectTime env) s of
        Inl err \<Rightarrow> (s, Inl (Wrap ''task selection failed'' err))
      | Inr selectionResult \<Rightarrow>
     (let task = sel_Task selectionResult;
          s1 = (if dryRun then s else serve (surface_of sortSlice cfg) s (env_served env)) in
      case (if dryRun then None else env_mcpStart env) of
        Some err \<Rightarrow> (s1, Inl (Wrap ''failed to start MCP server'' err))
      | None \<Rightarrow>
     (case getAgentForTask cfg task of
        Inl err \<Rightarrow> (s1, Inl (Wrap ''failed to get agent for task'' err))
      | Inr agent \<Rightarrow>
     (case (if dryRun
            then Inr \<lparr>rs_Success = True, rs_Content = ''[DRY RUN] Simulated agent response''\<rparr>
            else env_llm env) of
        Inl err \<Rightarrow> (s1, Inl (Wrap ''LLM execution failed'' err))
      | Inr llmResponse \<Rightarrow>
     (case (if dryRun
            then (s1, Inr (case GetAllowedTransitions (task_State task) of
                             Inr (allowedState # _) \<Rightarrow> (allowedState, [])
                           | _ \<Rightarrow> (task_State task, [])))
            else (case Enforce s1 (cfg_Completion cfg) (env_cancelled env)
                         (env_handshakeTime env) (task_ID task) llmResponse of
                    (s2, Inl err) \<Rightarrow> (s2, Inl err)
                  | (s2, Inr handshakeResult) \<Rightarrow>
                      (s2, Inr (hr_FinalState handshakeResult,
                                hr_ArtifactsCreated handshakeResult)))) of
        (s2, Inl err) \<Rightarrow> (s2, Inl (Wrap ''completion handshake failed'' err))
      | (s2, Inr (nextState, artifactsCreated)) \<Rightarrow>
     (let auditEntry =
            \<lparr>log_ID = [], log_TaskID = task_ID task, log_CycleID = env_cycleID env,
             log_PrevState = task_State task, log_NextState = nextState,
             log_Actor = ag_Name agent, log_SelectionReason = sel_Reason selectionResult,
             log_InputsSummary = buildInputsSummary task,
             log_OutputsSummary = buildOutputsSummary artifactsCreated,
             log_Commands = None, log_Result = ''success'',
             log_Note = ''LLM Response: '' @ take 200 (rs_Content llmResponse),
             log_FollowUps = None, log_CreatedAt = 0\<rparr>;
          result = \<lparr>cr_Success = True, cr_TaskID = task_ID task, cr_PrevState = task_State task,
                    cr_NextState = nextState, cr_ArtifactsCreated = artifactsCreated,
                    cr_Duration = env_duration env\<rparr>
      in if dryRun then (s2, Inr result)
         else case LogCycle s2 (env_auditTime env) (env_auditID env) auditEntry of
                (s3, Some err) \<Rightarrow> (s3, Inl (Wrap ''failed to log audit entry'' err))
              | (s3, None) \<Rightarrow> (s3, Inr result)))))))"

section \<open>Concrete stores, configurations and requests\<close>

text \<open>The inputs at which the theorems below are evaluated.\<close>

definition empty_store :: Store where
  "empty_store = \<lparr>tasks = [], requirements = [], artifacts = [], audit_logs = []\<rparr>"

definition task_T1 :: Task where
  "task_T1 =
     \<lparr>task_ID = ''T1'', task_Title = ''Auth'', task_Description = [],
      task_State = ReadyForPlan, task_Priority = 7, task_Owner = [], task_Tags = [],
      task_Dependencies = Some [], task_BlockedBy = [], task_CreatedAt = 10,
      task_UpdatedAt = 10\<rparr>"

definition store_T1 :: Store where
  "store_T1 = empty_store\<lparr>tasks := [task_T1]\<rparr>"

definition rpc :: "string \<Rightarrow> (string \<times> JSON) list \<Rightarrow> JSONRPCRequest" where
  "rpc method params =
     \<lparr>rq_JSONRPC = ''2.0'', rq_Method = method, rq_Params = Some params, rq_ID = ''1''\<rparr>"

definition call_at :: "int \<Rightarrow> JSONRPCRequest \<Rightarrow> Served" where
  "call_at now req = \<lparr>sv_now = now, sv_uuid = ''u1'', sv_disk = PlanMissing, sv_request = req\<rparr>"

definition surface0 :: Surface where
  "surface0 =
     \<lparr>sf_sortSlice = insertionSort,
      sf_Selection = \<lparr>sc_Algorithm = ''priority_dependency'', sc_DependencyStrict = True,
                       sc_PreferLeafTasks = True, sc_TieBreaker = ''oldest_updated''\<rparr>,
      sf_PlanFile = ''./plan.md''\<rparr>"

text \<open>
  The error code of a response; the codes the surface answers with; and the methods that
  are asked for one resource by name.
\<close>

definition error_code :: "JSONRPCResponse \<Rightarrow> int option" where
  "error_code r = map_option je_Code (rp_Error r)"

definition surface_codes :: "int list" where
  "surface_codes = [MethodNotFound, InvalidParams, InternalError, ResourceNotFound]"

definition not_found_methods :: "string list" where
  "not_found_methods =
     [''baton.tasks.get'', ''baton.tasks.append_note'', ''baton.artifacts.get'',
      ''baton.plan.read'']"

text \<open>Audit entries that can be read back: their JSON columns are not \<^verbatim>\<open>NULL\<close>.\<close>

definition log_at :: "string \<Rightarrow> int \<Rightarrow> AuditLog" where
  "log_at ident t =
     \<lparr>log_ID = ident, log_TaskID = ''T1'', log_CycleID = ''c'', log_PrevState = [],
      log_NextState = [], log_Actor = [], log_SelectionReason = [], log_InputsSummary = [],
      log_OutputsSummary = [], log_Commands = Some ''[]'', log_Result = ''success'',
      log_Note = [], log_FollowUps = Some ''[]'', log_CreatedAt = t\<rparr>"

definition store_two_logs :: Store where
  "store_two_logs = store_T1\<lparr>audit_logs := [log_at ''L1'' 100, log_at ''L2'' 200]\<rparr>"

definition lenient :: SelectionConfig where
  "lenient =
     \<lparr>sc_Algorithm = ''priority_dependency'', sc_DependencyStrict = False,
      sc_PreferLeafTasks = True, sc_TieBreaker = ''oldest_updated''\<rparr>"

definition strict :: SelectionConfig where
  "strict = lenient\<lparr>sc_DependencyStrict := True\<rparr>"

definition task_dangling :: Task where
  "task_dangling = task_T1\<lparr>task_ID := ''T3'', task_Dependencies := Some [''T9'']\<rparr>"

definition store_dangling :: Store where
  "store_dangling = empty_store\<lparr>tasks := [task_dangling]\<rparr>"

text \<open>
  A dependency id is unmet in a Store when it resolves to no task there, or to a task
  whose state is not \<^verbatim>\<open>DONE\<close>.
\<close>

definition unmet :: "Store \<Rightarrow> string \<Rightarrow> bool" where
  "unmet s depID =
     (case GetTask s depID of None \<Rightarrow> True | Some depTask \<Rightarrow> task_State depTask \<noteq> Done)"

text \<open>
  The versions of every (task, name) are contiguous from 1: in the order of insertion they
  read 1, 2, ..., k.
\<close>

definition versions_contiguous :: "Store \<Rightarrow> bool" where
  "versions_contiguous s =
     (\<forall>t n. map art_Version (filter (\<lambda>a. art_TaskID a = t \<and> art_Name a = n) (artifacts s))
              = map int [1 ..< Suc (length (filter (\<lambda>a. art_TaskID a = t \<and> art_Name a = n)
                                              (artifacts s)))])"

text \<open>
  An \<^verbatim>\<open>artifacts.upsert\<close> request without the optional \<^verbatim>\<open>meta\<close> parameter, and the
  Store it leaves.
\<close>

definition upsert_v1 :: JSONRPCRequest where
  "upsert_v1 =
     rpc ''baton.artifacts.upsert''
       [(''task_id'', JString ''T1''), (''name'', JString ''change_summary''),
        (''content'', JString ''v1'')]"

definition store_v1 :: Store where
  "store_v1 =
     store_T1\<lparr>artifacts :=
       [\<lparr>art_ID = ''u1'', art_TaskID = ''T1'', art_Name = ''change_summary'', art_Version = 1,
         art_Content = ''v1'', art_Meta = None, art_CreatedAt = 20\<rparr>]\<rparr>"

text \<open>
  The handover table of section 4.1 of the specification, row for row: from, to, required
  artifact. \<open>required_by_table\<close> reads it for one transition. An artifact name has a
  nonempty latest version for a task when one of the rows stored under the task and the
  name has content that is not empty and no row stored under them has a higher version.
\<close>

definition spec_handover_table :: "(State \<times> State \<times> string) list" where
  "spec_handover_table =
     [(Planning, ReadyForImplementation, ''implementation_plan''),
      (Implementing, ReadyForCodeReview, ''change_summary''),
      (Reviewing, ReadyForCommit, ''review_findings''),
      (Reviewing, NeedsFixes, ''review_findings''),
      (Fixing, ReadyForCodeReview, ''fix_plan''),
      (Committing, Done, ''commit_summary'')]"

definition required_by_table :: "State \<Rightarrow> State \<Rightarrow> string list" where
  "required_by_table from to =
     map (\<lambda>(f, t, n). n) (filter (\<lambda>(f, t, n). f = from \<and> t = to) spec_handover_table)"

definition nonempty_latest :: "Store \<Rightarrow> string \<Rightarrow> string \<Rightarrow> bool" where
  "nonempty_latest s taskID name =
     (\<exists>a\<in>set (artifacts s).
        art_TaskID a = taskID \<and> art_Name a = name \<and> art_Content a \<noteq> []
        \<and> (\<forall>b\<in>set (artifacts s).
              art_TaskID b = taskID \<and> art_Name b = name \<longrightarrow> art_Version b \<le> art_Version a))"

text \<open>
  The artifacts of a task can be read back when none has \<^verbatim>\<open>NULL\<close> for its
  \<^verbatim>\<open>meta\<close>; the schema's \<^verbatim>\<open>UNIQUE(task_id, name, version)\<close> says that rows equal on
  the three columns are one row.
\<close>

definition artifacts_readable :: "Store \<Rightarrow> string \<Rightarrow> bool" where
  "artifacts_readable s taskID =
     (\<forall>a\<in>set (artifacts s). art_TaskID a = taskID \<longrightarrow> art_Meta a \<noteq> None)"

definition versions_unique :: "Store \<Rightarrow> bool" where
  "versions_unique s =
     (\<forall>a\<in>set (artifacts s). \<forall>b\<in>set (artifacts s).
        art_TaskID a = art_TaskID b \<and> art_Name a = art_Name b \<and> art_Version a = art_Version b
        \<longrightarrow> a = b)"

text \<open>The legal transitions of the state machine, as pairs.\<close>

definition legal_pairs :: "(State \<times> State) list" where
  "legal_pairs = concat (map (\<lambda>(f, ts). map (Pair f) ts) ValidTransitions)"

text \<open>
  A task in \<^verbatim>\<open>planning\<close>: with no artifact; with version 1 of its implementation plan;
  with a version 2 of empty content added; and with a plan whose \<^verbatim>\<open>meta\<close> is
  \<^verbatim>\<open>NULL\<close>.
\<close>

definition task_planning :: Task where
  "task_planning = task_T1\<lparr>task_State := Planning\<rparr>"

definition store_planning :: Store where
  "store_planning = empty_store\<lparr>tasks := [task_planning]\<rparr>"

definition plan_v1 :: Artifact where
  "plan_v1 =
     \<lparr>art_ID = ''a1'', art_TaskID = ''T1'', art_Name = ''implementation_plan'', art_Version = 1,
      art_Content = ''1. add the login form'', art_Meta = Some (JOther ''{}''),
      art_CreatedAt = 12\<rparr>"

definition store_planned :: Store where
  "store_planned = store_planning\<lparr>artifacts := [plan_v1]\<rparr>"

definition store_replanned :: Store where
  "store_replanned =
     store_planning\<lparr>artifacts :=
       [plan_v1, plan_v1\<lparr>art_ID := ''a2'', art_Version := 2, art_Content := []\<rparr>]\<rparr>"

definition store_plan_without_meta :: Store where
  "store_plan_without_meta = store_planning\<lparr>artifacts := [plan_v1\<lparr>art_Meta := None\<rparr>]\<rparr>"

text \<open>
  The tie-breaker step of \<open>candidate_less\<close> by itself; the candidates that the selector
  sorts (those of the selectable tasks that are not blocked); and a configuration whose
  \<^verbatim>\<open>tie_breaker\<close> is none of the three known values, with candidates tied on priority
  and leaf status and a Store whose tasks are listed in another order than the selector
  ranks them.
\<close>

definition tie_less :: "SelectionConfig \<Rightarrow> taskCandidate \<Rightarrow> taskCandidate \<Rightarrow> bool" where
  "tie_less cfg a b =
     (if sc_TieBreaker cfg = ''oldest_updated''
           then task_UpdatedAt (c_Task a) < task_UpdatedAt (c_Task b)
      else if sc_TieBreaker cfg = ''newest_created''
           then task_CreatedAt (c_Task a) > task_CreatedAt (c_Task b)
      else if sc_TieBreaker cfg = ''alphabetical''
           then task_Title (c_Task a) < task_Title (c_Task b)
      else task_UpdatedAt (c_Task a) < task_UpdatedAt (c_Task b))"

definition available_candidates :: "SelectionConfig \<Rightarrow> Store \<Rightarrow> taskCandidate list" where
  "available_candidates cfg s =
     filter (\<lambda>candidate. \<not> c_Blocked candidate)
       (map (make_candidate cfg s) (getSelectableTasks s))"

definition cfg_unknown :: SelectionConfig where
  "cfg_unknown = strict\<lparr>sc_TieBreaker := ''random''\<rparr>"

definition task_A :: Task where
  "task_A = task_T1\<lparr>task_ID := ''A'', task_Title := ''zeta'', task_Priority := 5,
                     task_CreatedAt := 1, task_UpdatedAt := 10\<rparr>"

definition task_B :: Task where
  "task_B = task_T1\<lparr>task_ID := ''B'', task_Title := ''alpha'', task_Priority := 5,
                     task_CreatedAt := 2, task_UpdatedAt := 20\<rparr>"

definition candidate_of :: "Task \<Rightarrow> taskCandidate" where
  "candidate_of task =
     \<lparr>c_Task = task, c_Blocked = False, c_BlockReason = [], c_IsLeaf = True,
      c_Priority = task_Priority task\<rparr>"

definition task_P :: Task where
  "task_P = task_T1\<lparr>task_ID := ''P'', task_Title := ''parent'', task_Priority := 5,
                     task_CreatedAt := 1, task_UpdatedAt := 5\<rparr>"

definition task_Q :: Task where
  "task_Q = task_T1\<lparr>task_ID := ''Q'', task_Title := ''child'', task_Priority := 5,
                     task_Dependencies := Some [''P''], task_CreatedAt := 3,
                     task_UpdatedAt := 30\<rparr>"

definition store_PAQ :: Store where
  "store_PAQ = empty_store\<lparr>tasks := [task_Q, task_A, task_P]\<rparr>"

text \<open>The default configuration (\<^verbatim>\<open>getDefaultConfig\<close>) and a cycle in which the agent makes no call.\<close>

definition follow_up_template :: string where
  "follow_up_template =
     ''Are you finished? The state is not updated. Please either update the task state or provide a structured outcome with reason and next state.''"

definition default_config :: Config where
  "default_config =
     \<lparr>cfg_PlanFile = ''./plan.md'',
      cfg_Agents =
        [(''architect'', \<lparr>ag_Name = ''System Architect'',
                          ag_Role = ''Plans and designs system architecture'',
                          ag_AllowedStates = [''ready_for_plan'', ''planning'']\<rparr>),
         (''developer'', \<lparr>ag_Name = ''Developer'',
                          ag_Role = ''Implements code and fixes issues'',
                          ag_AllowedStates = [''ready_for_implementation'', ''implementing'',
                                              ''fixing'']\<rparr>),
         (''reviewer'', \<lparr>ag_Name = ''Code Reviewer'',
                         ag_Role = ''Reviews code and provides feedback'',
                         ag_AllowedStates = [''reviewing'']\<rparr>)],
      cfg_Selection = strict,
      cfg_Completion = \<lparr>cc_MaxRetries = 2, cc_RetryDelaySeconds = 5,
                         cc_RequireExplicitStateUpdate = True,
                         cc_FollowUpTemplate = follow_up_template\<rparr>,
      cfg_CycleTimeboxSeconds = 0\<rparr>"

definition env_idle :: CycleEnv where
  "env_idle =
     \<lparr>env_cycleID = ''cycle-1'', env_selectTime = 30, env_mcpStart = None, env_served = [],
      env_llm = Inr \<lparr>rs_Success = True, rs_Content = ''done''\<rparr>,
      env_cancelled = (\<lambda>retry. False), env_handshakeTime = 40, env_auditID = ''audit-1'',
      env_auditTime = 41, env_duration = 11\<rparr>"

text \<open>Requests of the agent, and a cycle in which the agent declares \<^verbatim>\<open>planning\<close>.\<close>

definition note_request :: "string \<Rightarrow> string \<Rightarrow> JSONRPCRequest" where
  "note_request taskID note =
     rpc ''baton.tasks.append_note'' [(''task_id'', JString taskID), (''note'', JString note)]"

definition update_request :: "string \<Rightarrow> string \<Rightarrow> JSONRPCRequest" where
  "update_request taskID state =
     rpc ''baton.tasks.update_state'' [(''task_id'', JString taskID), (''state'', JString state)]"

definition env_update :: CycleEnv where
  "env_update = env_idle\<lparr>env_served := [call_at 35 (update_request ''T1'' ''planning'')]\<rparr>"

definition handshake_note :: string where
  "handshake_note = ''Completion handshake failed after 2 retries. Agent did not update task state.''"

text \<open>Stores, agent, result and audit entry of the cycles evaluated below.\<close>

definition store_after_update :: Store where
  "store_after_update = store_T1\<lparr>tasks := [task_T1\<lparr>task_State := Planning, task_UpdatedAt := 35\<rparr>]\<rparr>"

definition store_dropped :: "int \<Rightarrow> Store" where
  "store_dropped t = store_T1\<lparr>tasks := [task_T1\<lparr>task_State := NeedsFixes, task_UpdatedAt := t\<rparr>]\<rparr>"

definition architect :: Agent where
  "architect = \<lparr>ag_Name = ''System Architect'',
                  ag_Role = ''Plans and designs system architecture'',
                  ag_AllowedStates = [''ready_for_plan'', ''planning'']\<rparr>"

definition result_dropped :: CycleResult where
  "result_dropped = \<lparr>cr_Success = True, cr_TaskID = ''T1'', cr_PrevState = ReadyForPlan,
                       cr_NextState = NeedsFixes, cr_ArtifactsCreated = [], cr_Duration = 11\<rparr>"

definition audit_dropped :: "string \<Rightarrow> AuditLog" where
  "audit_dropped reason =
     \<lparr>log_ID = ''audit-1'', log_TaskID = ''T1'', log_CycleID = ''cycle-1'',
      log_PrevState = ReadyForPlan, log_NextState = NeedsFixes,
      log_Actor = ''System Architect'', log_SelectionReason = reason,
      log_InputsSummary = buildInputsSummary task_T1,
      log_OutputsSummary = ''No artifacts created'',
      log_Commands = None, log_Result = ''success'', log_Note = ''LLM Response: done'',
      log_FollowUps = None, log_CreatedAt = 41\<rparr>"

text \<open>
  A transition is legal when \<^verbatim>\<open>ValidateTransition\<close> accepts it. \<open>stored_state\<close> is the
  state a Store holds for a task id. A Store \<open>s'\<close> has moved legally from \<open>s\<close> when
  every task of \<open>s'\<close> is a task of \<open>s\<close> whose state was reached by zero or more legal
  transitions.
\<close>

definition legal :: "State \<Rightarrow> State \<Rightarrow> bool" where
  "legal from to \<longleftrightarrow> ValidateTransition from to = None"

definition stored_state :: "Store \<Rightarrow> string \<Rightarrow> State option" where
  "stored_state s ident = map_option task_State (GetTask s ident)"

definition moved_legally :: "Store \<Rightarrow> Store \<Rightarrow> bool" where
  "moved_legally s s' \<longleftrightarrow>
     (\<forall>ident t'. GetTask s' ident = Some t' \<longrightarrow>
        (\<exists>t. GetTask s ident = Some t \<and> rtranclp legal (task_State t) (task_State t')))"

text \<open>
  The default configuration with \<^verbatim>\<open>require_explicit_state_update\<close> unset, a cycle in
  which the agent declares \<^verbatim>\<open>planning\<close> and then \<^verbatim>\<open>needs_fixes\<close>, and the result of
  a cycle that ends in \<^verbatim>\<open>planning\<close>.
\<close>

definition config_lax :: Config where
  "config_lax =
     default_config\<lparr>cfg_Completion :=
       (cfg_Completion default_config)\<lparr>cc_RequireExplicitStateUpdate := False\<rparr>\<rparr>"

definition env_two_updates :: CycleEnv where
  "env_two_updates =
     env_idle\<lparr>env_served := [call_at 35 (update_request ''T1'' ''planning''),
                              call_at 36 (update_request ''T1'' ''needs_fixes'')]\<rparr>"

definition result_planning :: CycleResult where
  "result_planning = \<lparr>cr_Success = True, cr_TaskID = ''T1'', cr_PrevState = ReadyForPlan,
                        cr_NextState = Planning, cr_ArtifactsCreated = [], cr_Duration = 11\<rparr>"

section \<open>Names of the states\<close>

lemmas state_names = ReadyForPlan_def Planning_def ReadyForImplementation_def
  Implementing_def ReadyForCodeReview_def Reviewing_def ReadyForCommit_def NeedsFixes_def
  Committing_def Fixing_def Done_def

section \<open>Error codes of the method surface\<close>

text \<open>
  Claim C9, as the specification states it: every error response of the method surface
  that reports a requested resource as not found carries code -32001, and -32002 is the
  code of forbidden responses. It fails on the code: \<^verbatim>\<open>tasks.get\<close> on a task id that the
  empty Store does not hold answers with code -32002.
\<close>

theorem not_found_code_counterexample:
  "map_option je_Code
     (rp_Error (snd (handleRequest surface0 empty_store
        (call_at 20 (rpc ''baton.tasks.get'' [(''task_id'', JString ''T1'')])))))
     = Some (- 32002)
   \<and> (- 32002 :: int) \<noteq> - 32001"
  by (simp add: handleRequest_def call_at_def rpc_def TaskHandler_Get_def empty_store_def
      GetStringParam_def GetTask_def NewJSONRPCError_def ResourceNotFound_def)

lemma error_codes_of_dispatch:
  assumes "rp_Error (snd (handleRequest srv s call)) = Some e"
  shows "je_Code e \<in> set surface_codes"
    and "je_Code e = ResourceNotFound \<Longrightarrow> rq_Method (sv_request call) \<in> set not_found_methods"
  using assms
  by (auto simp: handleRequest_def Let_def TaskHandler_GetNext_def TaskHandler_Get_def
      TaskHandler_UpdateState_def TaskHandler_AppendNote_def TaskHandler_List_def
      ArtifactHandler_Upsert_def ArtifactHandler_Get_def ArtifactHandler_List_def
      RequirementHandler_List_def PlanHandler_Read_def handleInitialize_def handlePing_def
      NewJSONRPCError_def NewJSONRPCResponse_def surface_codes_def not_found_methods_def
      ResourceNotFound_def InvalidParams_def InternalError_def MethodNotFound_def
      split: if_splits option.splits sum.splits prod.splits PlanFile.splits)

lemma GetTask_absent:
  "\<forall>x\<in>set (tasks s). task_ID x \<noteq> t \<Longrightarrow> GetTask s t = None"
  by (simp add: GetTask_def find_None_iff)

lemma GetArtifact_absent:
  assumes "\<forall>a\<in>set (artifacts s). \<not> (art_TaskID a = t \<and> art_Name a = n)"
  shows "GetArtifact s t n v = Inl ErrNoRows"
proof -
  from assms have "artifact_rows s t n = []"
    by (auto simp: artifact_rows_def filter_empty_conv)
  then show ?thesis by (simp add: GetArtifact_def latest_row_def)
qed

lemma missing_task_get:
  assumes "rq_Method (sv_request call) = ''baton.tasks.get''"
    and "GetStringParam (sv_request call) ''task_id'' = Some t"
    and "\<forall>x\<in>set (tasks s). task_ID x \<noteq> t"
  shows "error_code (snd (handleRequest srv s call)) = Some ResourceNotFound"
  using assms(1,2) GetTask_absent [OF assms(3)]
  by (simp add: handleRequest_def TaskHandler_Get_def error_code_def NewJSONRPCError_def)

lemma missing_task_append_note:
  assumes "rq_Method (sv_request call) = ''baton.tasks.append_note''"
    and "GetStringParam (sv_request call) ''task_id'' = Some t"
    and "GetStringParam (sv_request call) ''note'' = Some msg"
    and "\<forall>x\<in>set (tasks s). task_ID x \<noteq> t"
  shows "error_code (snd (handleRequest srv s call)) = Some ResourceNotFound"
  using assms(1,2,3) GetTask_absent [OF assms(4)]
  by (simp add: handleRequest_def TaskHandler_AppendNote_def error_code_def NewJSONRPCError_def)

lemma missing_artifact_get:
  assumes "rq_Method (sv_request call) = ''baton.artifacts.get''"
    and "GetStringParam (sv_request call) ''task_id'' = Some t"
    and "GetStringParam (sv_request call) ''name'' = Some n"
    and "\<forall>a\<in>set (artifacts s). \<not> (art_TaskID a = t \<and> art_Name a = n)"
  shows "error_code (snd (handleRequest srv s call)) = Some ResourceNotFound"
  using assms(1,2,3) GetArtifact_absent [OF assms(4)]
  by (simp add: handleRequest_def ArtifactHandler_Get_def Let_def error_code_def
      NewJSONRPCError_def)

lemma GetArtifact_absent_version:
  assumes "v \<noteq> 0"
    and "\<forall>a\<in>set (artifacts s). \<not> (art_TaskID a = t \<and> art_Name a = n \<and> art_Version a = v)"
  shows "GetArtifact s t n v = Inl ErrNoRows"
proof -
  from assms(2) have "find (\<lambda>a. art_Version a = v) (artifact_rows s t n) = None"
    by (auto simp: find_None_iff artifact_rows_def)
  with assms(1) show ?thesis by (simp add: GetArtifact_def)
qed

lemma missing_artifact_version_get:
  assumes "rq_Method (sv_request call) = ''baton.artifacts.get''"
    and "GetStringParam (sv_request call) ''task_id'' = Some t"
    and "GetStringParam (sv_request call) ''name'' = Some n"
    and "GetIntParam (sv_request call) ''version'' = Some v"
    and "v \<noteq> 0"
    and "\<forall>a\<in>set (artifacts s). \<not> (art_TaskID a = t \<and> art_Name a = n \<and> art_Version a = v)"
  shows "error_code (snd (handleRequest srv s call)) = Some ResourceNotFound"
  using assms(1,2,3,4) GetArtifact_absent_version [OF assms(5,6)]
  by (simp add: handleRequest_def ArtifactHandler_Get_def Let_def error_code_def
      NewJSONRPCError_def)

lemma missing_plan_read:
  assumes "rq_Method (sv_request call) = ''baton.plan.read''"
    and "sv_disk call = PlanMissing"
  shows "error_code (snd (handleRequest srv s call)) = Some ResourceNotFound"
  using assms
  by (simp add: handleRequest_def PlanHandler_Read_def error_code_def NewJSONRPCError_def)

text \<open>
  Not every missing resource is reported with that code: \<^verbatim>\<open>tasks.update_state\<close> on a
  task id that the Store does not hold answers with code -32602 (\<^verbatim>\<open>InvalidParams\<close>), the
  error of the failed read as its data.
\<close>

lemma update_state_missing_task:
  "rp_Error (snd (handleRequest surface0 store_T1
     (call_at 20 (rpc ''baton.tasks.update_state''
        [(''task_id'', JString ''T9''), (''state'', JString ''planning'')]))))
   = Some \<lparr>je_Code = - 32602, je_Message = ''State transition failed'',
            je_Data = ErrorText (Wrap ''failed to get task'' ErrNoRows)\<rparr>"
  by (simp add: handleRequest_def call_at_def rpc_def TaskHandler_UpdateState_def
      GetStringParam_def GetOptionalStringParam_def NormalizeState_def StateAliases_def
      ValidateAndTransition_def GetTask_def store_T1_def empty_store_def task_T1_def
      NewJSONRPCError_def InvalidParams_def)

text \<open>
  Claim C9, amended: the error responses of the method surface to a parsed request carry
  one of the codes -32601, -32602, -32603 and -32002, so none carries -32001, which is
  \<^verbatim>\<open>ToolNotFound\<close>, and there is no code for forbidden responses. Code -32002
  (\<^verbatim>\<open>ResourceNotFound\<close>) is carried only by responses of \<^verbatim>\<open>tasks.get\<close>,
  \<^verbatim>\<open>tasks.append_note\<close>, \<^verbatim>\<open>artifacts.get\<close> and \<^verbatim>\<open>plan.read\<close>, and it is the code
  with which \<^verbatim>\<open>tasks.get\<close> and \<^verbatim>\<open>tasks.append_note\<close> answer a task id that names no
  task, \<^verbatim>\<open>artifacts.get\<close> answers a task id and name of which no artifact is stored,
  or none of the version asked for, and \<^verbatim>\<open>plan.read\<close> answers a plan file that does
  not exist. What \<^verbatim>\<open>tasks.update_state\<close>
  answers for a missing task is not part of the claim.
\<close>

theorem not_found_code:
  "(\<forall>e. rp_Error (snd (handleRequest srv s call)) = Some e \<longrightarrow>
          je_Code e \<in> set surface_codes \<and> je_Code e \<noteq> ToolNotFound
          \<and> (je_Code e = ResourceNotFound \<longrightarrow>
               rq_Method (sv_request call) \<in> set not_found_methods))
   \<and> (rq_Method (sv_request call) = ''baton.tasks.get''
        \<and> GetStringParam (sv_request call) ''task_id'' = Some t
        \<and> (\<forall>x\<in>set (tasks s). task_ID x \<noteq> t)
      \<longrightarrow> error_code (snd (handleRequest srv s call)) = Some ResourceNotFound)
   \<and> (rq_Method (sv_request call) = ''baton.tasks.append_note''
        \<and> GetStringParam (sv_request call) ''task_id'' = Some t
        \<and> GetStringParam (sv_request call) ''note'' = Some msg
        \<and> (\<forall>x\<in>set (tasks s). task_ID x \<noteq> t)
      \<longrightarrow> error_code (snd (handleRequest srv s call)) = Some ResourceNotFound)
   \<and> (rq_Method (sv_request call) = ''baton.artifacts.get''
        \<and> GetStringParam (sv_request call) ''task_id'' = Some t
        \<and> GetStringParam (sv_request call) ''name'' = Some n
        \<and> (\<forall>a\<in>set (artifacts s). \<not> (art_TaskID a = t \<and> art_Name a = n))
      \<longrightarrow> error_code (snd (handleRequest srv s call)) = Some ResourceNotFound)
   \<and> (rq_Method (sv_request call) = ''baton.artifacts.get''
        \<and> GetStringParam (sv_request call) ''task_id'' = Some t
        \<and> GetStringParam (sv_request call) ''name'' = Some n
        \<and> GetIntParam (sv_request call) ''version'' = Some v \<and> v \<noteq> 0
        \<and> (\<forall>a\<in>set (artifacts s).
               \<not> (art_TaskID a = t \<and> art_Name a = n \<and> art_Version a = v))
      \<longrightarrow> error_code (snd (handleRequest srv s call)) = Some ResourceNotFound)
   \<and> (rq_Method (sv_request call) = ''baton.plan.read'' \<and> sv_disk call = PlanMissing
      \<longrightarrow> error_code (snd (handleRequest srv s call)) = Some ResourceNotFound)
   \<and> ResourceNotFound = - 32002 \<and> ToolNotFound = - 32001"
proof -
  have codes: "\<forall>e. rp_Error (snd (handleRequest srv s call)) = Some e \<longrightarrow>
          je_Code e \<in> set surface_codes \<and> je_Code e \<noteq> ToolNotFound
          \<and> (je_Code e = ResourceNotFound \<longrightarrow>
               rq_Method (sv_request call) \<in> set not_found_methods)"
  proof (intro allI impI conjI)
    fix e assume e: "rp_Error (snd (handleRequest srv s call)) = Some e"
    show "je_Code e \<in> set surface_codes" by (rule error_codes_of_dispatch(1) [OF e])
    then show "je_Code e \<noteq> ToolNotFound"
      by (auto simp: surface_codes_def ToolNotFound_def MethodNotFound_def InvalidParams_def
          InternalError_def ResourceNotFound_def)
    assume "je_Code e = ResourceNotFound"
    then show "rq_Method (sv_request call) \<in> set not_found_methods"
      by (rule error_codes_of_dispatch(2) [OF e])
  qed
  show ?thesis
    using codes missing_task_get [of call t s srv] missing_task_append_note [of call t msg s srv]
      missing_artifact_get [of call t n s srv] missing_plan_read [of call srv s]
      missing_artifact_version_get [of call t n v s srv]
    by (simp add: ResourceNotFound_def ToolNotFound_def)
qed

theorem not_found_code_witness:
  "rp_Error (snd (handleRequest surface0 store_T1
      (call_at 20 (rpc ''baton.tasks.get'' [(''task_id'', JString ''T9'')]))))
     = Some \<lparr>je_Code = - 32002, je_Message = ''Task not found'', je_Data = TaskRef ''T9''\<rparr>
   \<and> map task_ID (tasks store_T1) = [''T1'']
   \<and> artifacts store_T1 = []
   \<and> error_code (snd (handleRequest surface0 store_T1
        (call_at 20 (rpc ''baton.tasks.get'' [(''task_id'', JString ''T9'')]))))
      = Some (- 32002)
   \<and> error_code (snd (handleRequest surface0 store_T1
        (call_at 20 (rpc ''baton.tasks.append_note''
           [(''task_id'', JString ''T9''), (''note'', JString ''hello'')]))))
      = Some (- 32002)
   \<and> error_code (snd (handleRequest surface0 store_T1
        (call_at 20 (rpc ''baton.artifacts.get''
           [(''task_id'', JString ''T1''), (''name'', JString ''fix_plan'')]))))
      = Some (- 32002)
   \<and> map art_Version (artifacts store_planned) = [1]
   \<and> error_code (snd (handleRequest surface0 store_planned
        (call_at 20 (rpc ''baton.artifacts.get''
           [(''task_id'', JString ''T1''), (''name'', JString ''implementation_plan''),
            (''version'', JNumber 5)]))))
      = Some (- 32002)
   \<and> error_code (snd (handleRequest surface0 store_T1
        (call_at 20 (rpc ''baton.plan.read'' []))))
      = Some (- 32002)
   \<and> - 32002 \<in> set surface_codes
   \<and> ''baton.tasks.get'' \<in> set not_found_methods"
proof -
  let ?get = "call_at 20 (rpc ''baton.tasks.get'' [(''task_id'', JString ''T9'')])"
  let ?append = "call_at 20 (rpc ''baton.tasks.append_note''
           [(''task_id'', JString ''T9''), (''note'', JString ''hello'')])"
  let ?artifact = "call_at 20 (rpc ''baton.artifacts.get''
           [(''task_id'', JString ''T1''), (''name'', JString ''fix_plan'')])"
  let ?plan = "call_at 20 (rpc ''baton.plan.read'' [])"
  let ?version = "call_at 20 (rpc ''baton.artifacts.get''
           [(''task_id'', JString ''T1''), (''name'', JString ''implementation_plan''),
            (''version'', JNumber 5)])"
  have h: "rp_Error (snd (handleRequest surface0 store_T1 ?get))
     = Some \<lparr>je_Code = - 32002, je_Message = ''Task not found'', je_Data = TaskRef ''T9''\<rparr>"
    by (simp add: handleRequest_def call_at_def rpc_def TaskHandler_Get_def store_T1_def
        empty_store_def task_T1_def GetStringParam_def GetTask_def NewJSONRPCError_def
        ResourceNotFound_def)
  have absent: "\<forall>x\<in>set (tasks store_T1). task_ID x \<noteq> ''T9''"
    by (simp add: store_T1_def empty_store_def task_T1_def)
  have none: "\<forall>a\<in>set (artifacts store_T1). \<not> (art_TaskID a = ''T1'' \<and> art_Name a = ''fix_plan'')"
    by (simp add: store_T1_def empty_store_def)
  have params:
    "rq_Method (sv_request ?get) = ''baton.tasks.get''"
    "GetStringParam (sv_request ?get) ''task_id'' = Some ''T9''"
    "rq_Method (sv_request ?append) = ''baton.tasks.append_note''"
    "GetStringParam (sv_request ?append) ''task_id'' = Some ''T9''"
    "GetStringParam (sv_request ?append) ''note'' = Some ''hello''"
    "rq_Method (sv_request ?artifact) = ''baton.artifacts.get''"
    "GetStringParam (sv_request ?artifact) ''task_id'' = Some ''T1''"
    "GetStringParam (sv_request ?artifact) ''name'' = Some ''fix_plan''"
    "rq_Method (sv_request ?plan) = ''baton.plan.read''"
    "sv_disk ?plan = PlanMissing"
    by (simp_all add: call_at_def rpc_def GetStringParam_def)
  note get = not_found_code [of surface0 store_T1 ?get "''T9''" "''hello''" "''fix_plan''" 5]
  note append = not_found_code [of surface0 store_T1 ?append "''T9''" "''hello''" "''fix_plan''" 5]
  note artifact = not_found_code [of surface0 store_T1 ?artifact "''T1''" "''hello''" "''fix_plan''" 5]
  note plan = not_found_code [of surface0 store_T1 ?plan "''T9''" "''hello''" "''fix_plan''" 5]
  have 1: "error_code (snd (handleRequest surface0 store_T1 ?get)) = Some (- 32002)"
    using get params(1,2) absent by (simp add: ResourceNotFound_def ToolNotFound_def del: set_simps)
  have 2: "error_code (snd (handleRequest surface0 store_T1 ?append)) = Some (- 32002)"
    using append params(3,4,5) absent by (simp add: ResourceNotFound_def ToolNotFound_def del: set_simps)
  have 3: "error_code (snd (handleRequest surface0 store_T1 ?artifact)) = Some (- 32002)"
    using artifact params(6,7,8) none by (simp add: ResourceNotFound_def ToolNotFound_def del: set_simps)
  have 4: "error_code (snd (handleRequest surface0 store_T1 ?plan)) = Some (- 32002)"
    using plan params(9,10) by (simp add: ResourceNotFound_def ToolNotFound_def del: set_simps)
  have vparams:
    "rq_Method (sv_request ?version) = ''baton.artifacts.get''"
    "GetStringParam (sv_request ?version) ''task_id'' = Some ''T1''"
    "GetStringParam (sv_request ?version) ''name'' = Some ''implementation_plan''"
    "GetIntParam (sv_request ?version) ''version'' = Some 5"
    by (simp_all add: call_at_def rpc_def GetStringParam_def GetIntParam_def)
  have other: "\<forall>a\<in>set (artifacts store_planned).
      \<not> (art_TaskID a = ''T1'' \<and> art_Name a = ''implementation_plan'' \<and> art_Version a = 5)"
    by (simp add: store_planned_def store_planning_def empty_store_def plan_v1_def)
  have 6: "error_code (snd (handleRequest surface0 store_planned ?version)) = Some (- 32002)"
    using not_found_code [of surface0 store_planned ?version "''T1''" "''hello''"
        "''implementation_plan''" 5] vparams other
    by (simp add: ResourceNotFound_def ToolNotFound_def del: set_simps)
  have 5: "- 32002 \<in> set surface_codes \<and> ''baton.tasks.get'' \<in> set not_found_methods"
    using get h params(1) by (simp add: ResourceNotFound_def ToolNotFound_def del: set_simps)
  have stored: "map task_ID (tasks store_T1) = [''T1'']" "artifacts store_T1 = []"
    "map art_Version (artifacts store_planned) = [1]"
    by (simp_all add: store_T1_def empty_store_def task_T1_def store_planned_def
        store_planning_def plan_v1_def)
  from h stored 1 2 3 4 5 6 show ?thesis by simp
qed

section \<open>Order of a task's audit history\<close>

text \<open>
  Claim C7, as the specification states it: \<^verbatim>\<open>history(task_id)\<close> returns the task's
  audit entries by \<^verbatim>\<open>created_at\<close> ascending. It fails on the code: for a task with an
  entry written at 100 and one written at 200, the entry of 200 comes first.
\<close>

theorem history_order_counterexample:
  "map_sum id (map log_CreatedAt) (GetTaskHistory store_two_logs ''T1'') = Inr [200, 100]
   \<and> \<not> sorted [200, 100 :: int]"
  by (simp add: GetTaskHistory_def GetAuditLogs_def store_two_logs_def log_at_def
      scan_audit_def)

lemma scan_all_rows:
  assumes "\<And>row x. scan row = Inr x \<Longrightarrow> x = row"
  shows "scan_all scan rows = Inr xs \<Longrightarrow> xs = rows"
proof (induction rows arbitrary: xs)
  case Nil
  then show ?case by simp
next
  case (Cons row rows)
  then show ?case using assms [of row] by (auto split: sum.splits)
qed

lemma scan_audit_row: "scan_audit row = Inr x \<Longrightarrow> x = row"
  by (simp add: scan_audit_def split: if_splits)

lemma GetAuditLogs_rows:
  assumes "GetAuditLogs s taskID = Inr logs"
  shows "logs = sort_key (\<lambda>l. - log_CreatedAt l)
                  (filter (\<lambda>l. log_TaskID l = taskID) (audit_logs s))"
  using assms scan_all_rows [of scan_audit, OF scan_audit_row]
  by (simp add: GetAuditLogs_def)

text \<open>
  The entry that the cycle engine writes has \<^verbatim>\<open>NULL\<close> in \<^verbatim>\<open>commands\<close> and
  \<^verbatim>\<open>follow_ups\<close>; with one such entry among a task's entries the query returns an error
  and no entry.
\<close>

lemma history_of_null_columns:
  "GetTaskHistory
     (store_two_logs\<lparr>audit_logs :=
        audit_logs store_two_logs @ [(log_at ''L3'' 300)\<lparr>log_Commands := None\<rparr>]\<rparr>) ''T1''
   = Inl (ScanNull ''commands'')"
  by (simp add: GetTaskHistory_def GetAuditLogs_def store_two_logs_def log_at_def
      scan_audit_def)

text \<open>
  Claim C7, amended: when \<^verbatim>\<open>history(task_id)\<close> returns entries, they are the audit
  entries of that task, each as often as the table holds it and no others, ordered by
  \<^verbatim>\<open>created_at\<close> descending (latest first).
\<close>

theorem history_order:
  assumes "GetTaskHistory s taskID = Inr logs"
  shows "sorted (rev (map log_CreatedAt logs))
         \<and> mset logs = mset (filter (\<lambda>l. log_TaskID l = taskID) (audit_logs s))"
proof -
  from assms have logs: "logs = sort_key (\<lambda>l. - log_CreatedAt l)
                  (filter (\<lambda>l. log_TaskID l = taskID) (audit_logs s))"
    unfolding GetTaskHistory_def by (rule GetAuditLogs_rows)
  have "sorted (map (\<lambda>l. - log_CreatedAt l) logs)"
    unfolding logs by simp
  then have "sorted (rev (map log_CreatedAt logs))"
    by (simp add: sorted_wrt_rev sorted_wrt_map rev_map [symmetric])
  then show ?thesis by (simp add: logs)
qed

theorem history_order_witness:
  "GetTaskHistory store_two_logs ''T1'' = Inr [log_at ''L2'' 200, log_at ''L1'' 100]
   \<and> sorted (rev (map log_CreatedAt [log_at ''L2'' 200, log_at ''L1'' 100]))
   \<and> mset [log_at ''L2'' 200, log_at ''L1'' 100]
       = mset (filter (\<lambda>l. log_TaskID l = ''T1'') (audit_logs store_two_logs))"
proof -
  have h: "GetTaskHistory store_two_logs ''T1'' = Inr [log_at ''L2'' 200, log_at ''L1'' 100]"
    by (simp add: GetTaskHistory_def GetAuditLogs_def store_two_logs_def log_at_def
        scan_audit_def)
  from history_order [OF h] h show ?thesis by simp
qed

section \<open>Blocked candidates of the selector\<close>

text \<open>
  Claim C6, as the specification states it: a candidate is blocked if one of its dependency
  ids resolves to no task, under every configuration. It fails on the code: with
  \<^verbatim>\<open>dependency_strict\<close> off, a task whose only dependency \<^verbatim>\<open>T9\<close> does not exist is not
  blocked.
\<close>

theorem blocked_counterexample:
  "GetTask store_dangling ''T9'' = None
   \<and> task_Dependencies task_dangling = Some [''T9'']
   \<and> \<not> c_Blocked (make_candidate lenient store_dangling task_dangling)"
  by (simp add: GetTask_def store_dangling_def task_dangling_def task_T1_def empty_store_def
      make_candidate_def isBlockedByDependencies_def lenient_def)

lemma scan_dependencies_iff: "fst (scan_dependencies s ds) \<longleftrightarrow> list_ex (unmet s) ds"
  by (induction ds) (auto simp: unmet_def split: option.splits)

text \<open>
  Claim C6, amended: a candidate is classified as blocked exactly when
  \<^verbatim>\<open>dependency_strict\<close> is set and its dependencies cannot be decoded or one of its
  dependency ids resolves to no task or to a task not in \<^verbatim>\<open>DONE\<close>. With
  \<^verbatim>\<open>dependency_strict\<close> off no candidate is blocked, and a candidate with an empty
  dependency set is never blocked.
\<close>

theorem blocked_iff:
  "(c_Blocked (make_candidate cfg s task) \<longleftrightarrow>
      sc_DependencyStrict cfg \<and>
      (case task_Dependencies task of None \<Rightarrow> True | Some ds \<Rightarrow> list_ex (unmet s) ds))
   \<and> (\<not> sc_DependencyStrict cfg \<longrightarrow> \<not> c_Blocked (make_candidate cfg s task))
   \<and> (task_Dependencies task = Some [] \<longrightarrow> \<not> c_Blocked (make_candidate cfg s task))"
  by (auto simp: make_candidate_def isBlockedByDependencies_def scan_dependencies_iff [symmetric]
      split: prod.splits option.splits if_splits)

theorem blocked_iff_witness:
  "c_Blocked (make_candidate strict store_dangling task_dangling)
   \<and> \<not> c_Blocked (make_candidate lenient store_dangling task_dangling)
   \<and> \<not> c_Blocked (make_candidate strict store_T1 task_T1)"
  using blocked_iff [of strict store_dangling task_dangling]
    blocked_iff [of lenient store_dangling task_dangling]
    blocked_iff [of strict store_T1 task_T1]
  by (simp add: strict_def lenient_def task_dangling_def task_T1_def unmet_def GetTask_def
      store_dangling_def empty_store_def)

section \<open>Artifact versions\<close>

lemma fold_max_lower: "m \<le> fold (\<lambda>a m. max (art_Version a) m) rs m"
  by (induction rs arbitrary: m) (auto intro: order_trans [OF max.cobounded2])

lemma fold_max_upper:
  "r \<in> set rs \<Longrightarrow> art_Version r \<le> fold (\<lambda>a m. max (art_Version a) m) rs m"
proof (induction rs arbitrary: m)
  case Nil
  then show ?case by simp
next
  case (Cons x xs)
  show ?case
  proof (cases "r = x")
    case True
    have "art_Version x \<le> max (art_Version x) m" by simp
    also have "\<dots> \<le> fold (\<lambda>a m. max (art_Version a) m) xs (max (art_Version x) m)"
      by (rule fold_max_lower)
    finally show ?thesis using True by simp
  next
    case False
    with Cons show ?thesis by simp
  qed
qed

lemma max_version_upper: "r \<in> set rows \<Longrightarrow> art_Version r \<le> max_version rows"
  by (cases rows) (auto simp: max_version_def fold_max_lower fold_max_upper)

lemma fold_max_mem:
  "fold (\<lambda>a m. max (art_Version a) m) rs m \<in> insert m (art_Version ` set rs)"
  by (induction rs arbitrary: m) (auto simp: max_def)

lemma max_version_mem: "rows \<noteq> [] \<Longrightarrow> max_version rows \<in> art_Version ` set rows"
  using fold_max_mem by (cases rows) (auto simp: max_version_def)

lemma contiguous_versions_set:
  assumes "map art_Version rows = map int [1 ..< Suc (length rows)]"
  shows "art_Version ` set rows = int ` {1 ..< Suc (length rows)}"
proof -
  have "set (map art_Version rows) = set (map int [1 ..< Suc (length rows)])"
    using assms by (rule arg_cong)
  then show ?thesis by (simp only: set_map set_upt)
qed

lemma max_version_contiguous:
  assumes "map art_Version rows = map int [1 ..< Suc (length rows)]"
  shows "max_version rows = int (length rows)"
proof (cases "rows = []")
  case True
  then show ?thesis by (simp add: max_version_def)
next
  case False
  note vs = contiguous_versions_set [OF assms]
  from max_version_mem [OF False] vs have "max_version rows \<le> int (length rows)" by auto
  moreover have "int (length rows) \<in> art_Version ` set rows"
    using False unfolding vs by (auto simp: Suc_le_eq)
  then have "int (length rows) \<le> max_version rows"
    using max_version_upper by auto
  ultimately show ?thesis by simp
qed

lemma fold_best_mem:
  "fold (\<lambda>a best. if art_Version best < art_Version a then a else best) rs r \<in> set (r # rs)"
  by (induction rs arbitrary: r) (auto split: if_splits)

lemma latest_row_snoc:
  assumes "\<forall>r\<in>set rows. art_Version r < art_Version a"
  shows "latest_row (rows @ [a]) = Some a"
proof (cases rows)
  case Nil
  then show ?thesis by (simp add: latest_row_def)
next
  case (Cons r rs)
  define best where
    "best = fold (\<lambda>a best. if art_Version best < art_Version a then a else best) rs r"
  have "best \<in> set rows"
    unfolding best_def using fold_best_mem [of rs r] Cons by simp
  with assms have "art_Version best < art_Version a" by blast
  then show ?thesis using Cons by (simp add: latest_row_def best_def [symmetric])
qed

lemma artifact_rows_snoc:
  "artifact_rows (s\<lparr>artifacts := artifacts s @ [a]\<rparr>) t n
     = artifact_rows s t n @ (if art_TaskID a = t \<and> art_Name a = n then [a] else [])"
  by (simp add: artifact_rows_def)

lemma GetTask_artifacts_update [simp]: "GetTask (s\<lparr>artifacts := xs\<rparr>) t = GetTask s t"
  by (simp add: GetTask_def)

lemma find_snoc:
  "find P (xs @ [a])
     = (case find P xs of Some x \<Rightarrow> Some x | None \<Rightarrow> if P a then Some a else None)"
  by (induction xs) auto

lemma scan_artifact_readable: "art_Meta a \<noteq> None \<Longrightarrow> scan_artifact a = Inr a"
  by (simp add: scan_artifact_def)

lemma versions_contiguous_rows:
  "versions_contiguous s \<longleftrightarrow>
     (\<forall>t n. map art_Version (artifact_rows s t n)
              = map int [1 ..< Suc (length (artifact_rows s t n))])"
  by (simp add: versions_contiguous_def artifact_rows_def)

lemma upsert_inserts:
  assumes ex: "GetTask s t \<noteq> None"
    and fresh: "\<not> list_ex (\<lambda>a. art_ID a = uuid) (artifacts s)"
    and a0: "art_ID a0 = [] \<and> art_TaskID a0 = t \<and> art_Name a0 = n"
  shows "UpsertArtifact s now uuid a0 =
           (s\<lparr>artifacts := artifacts s @
              [a0\<lparr>art_ID := uuid, art_CreatedAt := now,
                  art_Version := max_version (artifact_rows s t n) + 1\<rparr>]\<rparr>,
            Inr (a0\<lparr>art_ID := uuid, art_CreatedAt := now,
                     art_Version := max_version (artifact_rows s t n) + 1\<rparr>))"
proof -
  have "\<not> list_ex (\<lambda>r. art_Version r = max_version (artifact_rows s t n) + 1)
            (artifact_rows s t n)"
    using max_version_upper [of _ "artifact_rows s t n"] by (fastforce simp: list_ex_iff)
  then show ?thesis
    using ex fresh a0 by (simp add: UpsertArtifact_def Let_def)
qed

text \<open>
  What holds of \<^verbatim>\<open>UpsertArtifact\<close> and \<^verbatim>\<open>GetArtifact\<close> when the artifact is given a
  \<^verbatim>\<open>meta\<close>: for a task \<open>t\<close> of the Store and a fresh UUID the insert succeeds with
  one plus the maximum existing version of (t,n), 1 when there is none; the read of version
  0 and the read of that version return the row, with content \<open>c\<close>; other explicit
  versions are read as before; and versions that were contiguous from 1 still are.
\<close>

lemma upsert_with_meta_then_get:
  assumes ex: "GetTask s t \<noteq> None"
    and fresh: "\<not> list_ex (\<lambda>a. art_ID a = uuid) (artifacts s)"
    and a0: "art_ID a0 = [] \<and> art_TaskID a0 = t \<and> art_Name a0 = n \<and> art_Content a0 = c"
    and meta: "art_Meta a0 \<noteq> None"
  shows "\<exists>s' a. UpsertArtifact s now uuid a0 = (s', Inr a)
           \<and> art_Version a
               = max_version (filter (\<lambda>x. art_TaskID x = t \<and> art_Name x = n) (artifacts s)) + 1
           \<and> (\<forall>x\<in>set (artifacts s). art_TaskID x = t \<and> art_Name x = n
                  \<longrightarrow> art_Version x < art_Version a)
           \<and> ((\<forall>x\<in>set (artifacts s). \<not> (art_TaskID x = t \<and> art_Name x = n))
                  \<longrightarrow> art_Version a = 1)
           \<and> art_Content a = c
           \<and> GetArtifact s' t n 0 = Inr a
           \<and> GetArtifact s' t n (art_Version a) = Inr a
           \<and> (\<forall>v. v \<noteq> 0 \<and> v \<noteq> art_Version a \<longrightarrow> GetArtifact s' t n v = GetArtifact s t n v)
           \<and> (versions_contiguous s \<longrightarrow>
                 versions_contiguous s'
                 \<and> art_Version a
                     = int (length (filter (\<lambda>x. art_TaskID x = t \<and> art_Name x = n)
                                       (artifacts s))) + 1)"
proof -
  define a where "a = a0\<lparr>art_ID := uuid, art_CreatedAt := now,
                     art_Version := max_version (artifact_rows s t n) + 1\<rparr>"
  define s' where "s' = s\<lparr>artifacts := artifacts s @ [a]\<rparr>"
  have a0': "art_ID a0 = [] \<and> art_TaskID a0 = t \<and> art_Name a0 = n" using a0 by simp
  have up: "UpsertArtifact s now uuid a0 = (s', Inr a)"
    unfolding s'_def a_def by (rule upsert_inserts [OF ex fresh a0'])
  have ver: "art_Version a = max_version (artifact_rows s t n) + 1" by (simp add: a_def)
  have tn: "art_TaskID a = t \<and> art_Name a = n \<and> art_Content a = c"
    using a0 by (simp add: a_def)
  have readable: "scan_artifact a = Inr a"
    using meta by (simp add: scan_artifact_def a_def)
  have rows: "artifact_rows s' t n = artifact_rows s t n @ [a]"
    using tn by (simp add: s'_def artifact_rows_snoc)
  have below: "\<forall>r\<in>set (artifact_rows s t n). art_Version r < art_Version a"
    using max_version_upper [of _ "artifact_rows s t n"] ver by fastforce
  then have below': "\<forall>x\<in>set (artifacts s). art_TaskID x = t \<and> art_Name x = n
                  \<longrightarrow> art_Version x < art_Version a"
    by (simp add: artifact_rows_def)
  have first: "(\<forall>x\<in>set (artifacts s). \<not> (art_TaskID x = t \<and> art_Name x = n))
                  \<longrightarrow> art_Version a = 1"
  proof
    assume "\<forall>x\<in>set (artifacts s). \<not> (art_TaskID x = t \<and> art_Name x = n)"
    then have "artifact_rows s t n = []" by (auto simp: artifact_rows_def filter_empty_conv)
    then show "art_Version a = 1" by (simp add: ver max_version_def)
  qed
  have latest: "GetArtifact s' t n 0 = Inr a"
    by (simp add: GetArtifact_def rows latest_row_snoc [OF below] readable)
  have nofind: "find (\<lambda>r. art_Version r = art_Version a) (artifact_rows s t n) = None"
    using below by (auto simp: find_None_iff)
  have own: "GetArtifact s' t n (art_Version a) = Inr a"
    using nofind readable
    by (simp add: GetArtifact_def rows find_snoc latest_row_snoc [OF below])
  have old: "\<forall>v. v \<noteq> 0 \<and> v \<noteq> art_Version a \<longrightarrow> GetArtifact s' t n v = GetArtifact s t n v"
    by (auto simp: GetArtifact_def rows find_snoc split: option.splits)
  have cont: "versions_contiguous s \<longrightarrow>
                 versions_contiguous s'
                 \<and> art_Version a = int (length (artifact_rows s t n)) + 1"
  proof
    assume c: "versions_contiguous s"
    then have here: "map art_Version (artifact_rows s t n)
                       = map int [1 ..< Suc (length (artifact_rows s t n))]"
      by (simp add: versions_contiguous_rows)
    have v: "art_Version a = int (length (artifact_rows s t n)) + 1"
      using max_version_contiguous [OF here] ver by simp
    have there: "map art_Version (artifact_rows s' t n)
                   = map int [1 ..< Suc (length (artifact_rows s' t n))]"
      using here v by (simp add: rows)
    have all: "map art_Version (artifact_rows s' t' n')
            = map int [1 ..< Suc (length (artifact_rows s' t' n'))]" for t' n'
    proof (cases "t' = t \<and> n' = n")
      case True
      then show ?thesis using there by simp
    next
      case False
      then have "artifact_rows s' t' n' = artifact_rows s t' n'"
        using tn by (auto simp: s'_def artifact_rows_snoc)
      then show ?thesis using c by (simp add: versions_contiguous_rows)
    qed
    show "versions_contiguous s'
            \<and> art_Version a = int (length (artifact_rows s t n)) + 1"
      using all v by (simp add: versions_contiguous_rows)
  qed
  from up ver first tn latest own old cont below' show ?thesis
    unfolding artifact_rows_def by blast
qed

text \<open>
  Claim C4 fails on the code. On a Store that holds task \<^verbatim>\<open>T1\<close> and no artifact,
  \<^verbatim>\<open>artifacts.upsert\<close> of content \<^verbatim>\<open>v1\<close> under the name \<^verbatim>\<open>change_summary\<close>, with no
  \<^verbatim>\<open>meta\<close> parameter, succeeds and stores version 1; \<^verbatim>\<open>artifacts.get\<close> of the same
  task and name then answers \<^verbatim>\<open>Artifact not found\<close>, with the version absent and with
  version 1, where the claim has it return \<^verbatim>\<open>v1\<close> at version 1: the row's \<^verbatim>\<open>meta\<close>
  is \<^verbatim>\<open>NULL\<close> and the read fails on it.
\<close>

theorem upsert_then_get_not_found:
  "handleRequest surface0 store_T1 (call_at 20 upsert_v1)
     = (store_v1, NewJSONRPCResponse ''1'' (ArtifactUpserted ''u1'' ''T1'' ''change_summary'' 1))
   \<and> artifacts store_v1
       = [\<lparr>art_ID = ''u1'', art_TaskID = ''T1'', art_Name = ''change_summary'', art_Version = 1,
           art_Content = ''v1'', art_Meta = None, art_CreatedAt = 20\<rparr>]
   \<and> handleRequest surface0 store_v1
        (call_at 21 (rpc ''baton.artifacts.get''
           [(''task_id'', JString ''T1''), (''name'', JString ''change_summary'')]))
     = (store_v1, NewJSONRPCError ''1'' (- 32002) ''Artifact not found''
                    (ArtifactRef ''T1'' ''change_summary'' 0))
   \<and> handleRequest surface0 store_v1
        (call_at 21 (rpc ''baton.artifacts.get''
           [(''task_id'', JString ''T1''), (''name'', JString ''change_summary''),
            (''version'', JNumber 1)]))
     = (store_v1, NewJSONRPCError ''1'' (- 32002) ''Artifact not found''
                    (ArtifactRef ''T1'' ''change_summary'' 1))
   \<and> GetArtifact store_v1 ''T1'' ''change_summary'' 0 = Inl (ScanNull ''meta'')"
proof -
  have up: "handleRequest surface0 store_T1 (call_at 20 upsert_v1)
     = (store_v1, NewJSONRPCResponse ''1'' (ArtifactUpserted ''u1'' ''T1'' ''change_summary'' 1))"
    by (simp add: handleRequest_def call_at_def upsert_v1_def rpc_def ArtifactHandler_Upsert_def
        GetStringParam_def GetParams_def UpsertArtifact_def Let_def artifact_rows_def
        max_version_def GetTask_def store_T1_def store_v1_def empty_store_def task_T1_def
        NewJSONRPCResponse_def)
  have rows: "artifacts store_v1
       = [\<lparr>art_ID = ''u1'', art_TaskID = ''T1'', art_Name = ''change_summary'', art_Version = 1,
           art_Content = ''v1'', art_Meta = None, art_CreatedAt = 20\<rparr>]"
    by (simp add: store_v1_def store_T1_def empty_store_def)
  have get0: "GetArtifact store_v1 ''T1'' ''change_summary'' 0 = Inl (ScanNull ''meta'')"
    by (simp add: GetArtifact_def artifact_rows_def rows latest_row_def scan_artifact_def)
  have get1: "GetArtifact store_v1 ''T1'' ''change_summary'' 1 = Inl (ScanNull ''meta'')"
    by (simp add: GetArtifact_def artifact_rows_def rows scan_artifact_def)
  have r0: "handleRequest surface0 store_v1
        (call_at 21 (rpc ''baton.artifacts.get''
           [(''task_id'', JString ''T1''), (''name'', JString ''change_summary'')]))
     = (store_v1, NewJSONRPCError ''1'' (- 32002) ''Artifact not found''
                    (ArtifactRef ''T1'' ''change_summary'' 0))"
    by (simp add: handleRequest_def call_at_def rpc_def ArtifactHandler_Get_def
        GetStringParam_def GetIntParam_def get0 ResourceNotFound_def)
  have r1: "handleRequest surface0 store_v1
        (call_at 21 (rpc ''baton.artifacts.get''
           [(''task_id'', JString ''T1''), (''name'', JString ''change_summary''),
            (''version'', JNumber 1)]))
     = (store_v1, NewJSONRPCError ''1'' (- 32002) ''Artifact not found''
                    (ArtifactRef ''T1'' ''change_summary'' 1))"
    by (simp add: handleRequest_def call_at_def rpc_def ArtifactHandler_Get_def
        GetStringParam_def GetIntParam_def get1 ResourceNotFound_def)
  from up rows r0 r1 get0 show ?thesis by simp
qed

section \<open>Handover artifacts required by the validator\<close>

lemma normalize_canonical:
  "NormalizeState ReadyForPlan = ReadyForPlan"
  "NormalizeState Planning = Planning"
  "NormalizeState ReadyForImplementation = ReadyForImplementation"
  "NormalizeState Implementing = Implementing"
  "NormalizeState ReadyForCodeReview = ReadyForCodeReview"
  "NormalizeState Reviewing = Reviewing"
  "NormalizeState ReadyForCommit = ReadyForCommit"
  "NormalizeState NeedsFixes = NeedsFixes"
  "NormalizeState Committing = Committing"
  "NormalizeState Fixing = Fixing"
  "NormalizeState Done = Done"
  by (simp_all add: NormalizeState_def StateAliases_def state_names)

lemma legal_pairs_mem:
  assumes "ValidateTransition from to = None"
    and "NormalizeState from = from" "NormalizeState to = to"
  shows "(from, to) \<in> set legal_pairs"
proof -
  from assms obtain allowed where a: "map_of ValidTransitions from = Some allowed"
    and t: "to \<in> set allowed"
    by (auto simp: ValidateTransition_def Let_def list_ex_iff split: option.splits if_splits)
  from a have "(from, allowed) \<in> set ValidTransitions" by (rule map_of_SomeD)
  with t show ?thesis unfolding legal_pairs_def by force
qed

lemma table_on_legal_pairs:
  "list_all (\<lambda>(f, t). getRequiredHandovers f t = required_by_table f t) legal_pairs"
  unfolding legal_pairs_def ValidTransitions_def
  by (simp add: getRequiredHandovers_def requiredHandovers_def
        required_by_table_def spec_handover_table_def state_names)

lemma required_handovers_table:
  assumes "ValidateTransition from to = None"
    and "NormalizeState from = from" "NormalizeState to = to"
  shows "getRequiredHandovers from to = required_by_table from to"
  using legal_pairs_mem [OF assms] table_on_legal_pairs
  by (auto simp: list_all_iff)

lemma fold_best_ge:
  "art_Version r
     \<le> art_Version (fold (\<lambda>a best. if art_Version best < art_Version a then a else best) rs r)"
proof (induction rs arbitrary: r)
  case Nil
  show ?case by simp
next
  case (Cons x xs)
  show ?case
  proof (cases "art_Version r < art_Version x")
    case True
    then have "art_Version r \<le> art_Version x" by simp
    also have "\<dots> \<le> art_Version
        (fold (\<lambda>a best. if art_Version best < art_Version a then a else best) xs x)"
      by (rule Cons)
    finally show ?thesis using True by simp
  next
    case False
    then show ?thesis using Cons [of r] by simp
  qed
qed

lemma fold_best_upper:
  "b \<in> set rs \<Longrightarrow>
     art_Version b
       \<le> art_Version (fold (\<lambda>a best. if art_Version best < art_Version a then a else best) rs r)"
proof (induction rs arbitrary: r)
  case Nil
  then show ?case by simp
next
  case (Cons x xs)
  show ?case
  proof (cases "b = x")
    case True
    show ?thesis
    proof (cases "art_Version r < art_Version x")
      case lt: True
      then show ?thesis using True fold_best_ge [of x xs] by simp
    next
      case False
      then have "art_Version b \<le> art_Version r" using True by simp
      also have "\<dots> \<le> art_Version
          (fold (\<lambda>a best. if art_Version best < art_Version a then a else best) xs r)"
        by (rule fold_best_ge)
      finally show ?thesis using False by simp
    qed
  next
    case False
    with Cons.prems have "b \<in> set xs" by simp
    then show ?thesis using Cons.IH by simp
  qed
qed

lemma latest_row_highest:
  assumes "latest_row rows = Some a"
  shows "a \<in> set rows" and "\<forall>b\<in>set rows. art_Version b \<le> art_Version a"
proof -
  from assms obtain r rs where rows: "rows = r # rs"
    and a: "a = fold (\<lambda>a best. if art_Version best < art_Version a then a else best) rs r"
    by (cases rows) (auto simp: latest_row_def)
  show "a \<in> set rows" unfolding rows a by (rule fold_best_mem)
  show "\<forall>b\<in>set rows. art_Version b \<le> art_Version a"
    unfolding rows a using fold_best_ge [of r rs] fold_best_upper [of _ rs r] by auto
qed

lemma handover_unmet_iff:
  assumes readable: "artifacts_readable s t"
    and unique: "versions_unique s"
  shows "(case GetArtifact s t n 0 of Inl err \<Rightarrow> True | Inr a \<Rightarrow> art_Content a = [])
           \<longleftrightarrow> \<not> nonempty_latest s t n"
proof (cases "latest_row (artifact_rows s t n)")
  case None
  then have "artifact_rows s t n = []" by (simp add: latest_row_def split: list.splits)
  then have "\<forall>a\<in>set (artifacts s). \<not> (art_TaskID a = t \<and> art_Name a = n)"
    by (simp add: artifact_rows_def filter_empty_conv)
  then have "\<not> nonempty_latest s t n" by (auto simp: nonempty_latest_def)
  then show ?thesis using None by (simp add: GetArtifact_def)
next
  case (Some a)
  note hi = latest_row_highest [OF Some]
  from hi(1) have mem: "a \<in> set (artifacts s)" and tn: "art_TaskID a = t \<and> art_Name a = n"
    by (simp_all add: artifact_rows_def)
  from hi(2) have top: "\<forall>b\<in>set (artifacts s).
       art_TaskID b = t \<and> art_Name b = n \<longrightarrow> art_Version b \<le> art_Version a"
    by (simp add: artifact_rows_def)
  from readable mem tn have "art_Meta a \<noteq> None" by (simp add: artifacts_readable_def)
  then have got: "GetArtifact s t n 0 = Inr a"
    using Some by (simp add: GetArtifact_def scan_artifact_def)
  show ?thesis
  proof (cases "art_Content a = []")
    case False
    have "nonempty_latest s t n"
      unfolding nonempty_latest_def
    proof (rule bexI [of _ a])
      show "art_TaskID a = t \<and> art_Name a = n \<and> art_Content a \<noteq> []
            \<and> (\<forall>b\<in>set (artifacts s).
                  art_TaskID b = t \<and> art_Name b = n \<longrightarrow> art_Version b \<le> art_Version a)"
        using tn top False by simp
      show "a \<in> set (artifacts s)" by (rule mem)
    qed
    then show ?thesis using got False by simp
  next
    case True
    have "\<not> nonempty_latest s t n"
    proof
      assume "nonempty_latest s t n"
      then obtain a' where a': "a' \<in> set (artifacts s)"
        and tn': "art_TaskID a' = t \<and> art_Name a' = n \<and> art_Content a' \<noteq> []"
        and top': "\<forall>b\<in>set (artifacts s).
            art_TaskID b = t \<and> art_Name b = n \<longrightarrow> art_Version b \<le> art_Version a'"
        unfolding nonempty_latest_def by (elim bexE conjE) simp
      from bspec [OF top a'] tn' have "art_Version a' \<le> art_Version a" by simp
      moreover from bspec [OF top' mem] tn have "art_Version a \<le> art_Version a'" by simp
      ultimately have v: "art_Version a = art_Version a'" by simp
      from unique have "\<forall>b\<in>set (artifacts s).
          art_TaskID a = art_TaskID b \<and> art_Name a = art_Name b \<and> art_Version a = art_Version b
          \<longrightarrow> a = b"
        unfolding versions_unique_def using mem by (rule bspec)
      from bspec [OF this a'] tn tn' v have "a = a'" by simp
      with True tn' show False by simp
    qed
    then show ?thesis using got True by simp
  qed
qed

lemma GetTask_id: "GetTask s taskID = Some task \<Longrightarrow> task_ID task = taskID"
  by (auto simp: GetTask_def find_Some_iff)

lemma check_handovers_iff:
  assumes "artifacts_readable s (task_ID task)" and "versions_unique s"
  shows "check_handovers s task newState names \<noteq> None
     \<longleftrightarrow> list_ex (\<lambda>name. \<not> nonempty_latest s (task_ID task) name) names"
proof (induction names)
  case Nil
  show ?case by simp
next
  case (Cons name names)
  show ?case
    using handover_unmet_iff [OF assms, of name] Cons
    by (auto split: sum.splits)
qed

text \<open>
  Claim C3, as the specification states it: \<^verbatim>\<open>ValidateAndTransition\<close> rejects a
  transition exactly when it is one of the six of the handover table and the artifact is
  absent or empty. It fails on the code: for a task in \<^verbatim>\<open>ready_for_plan\<close> the
  transition to \<^verbatim>\<open>DONE\<close> is rejected, and it is in no row of the table.
\<close>

theorem handover_rejection_counterexample:
  "snd (ValidateAndTransition store_T1 20 ''T1'' Done []) \<noteq> None
   \<and> required_by_table ReadyForPlan Done = []
   \<and> getRequiredHandovers ReadyForPlan Done = []"
  by (simp add: ValidateAndTransition_def store_T1_def empty_store_def task_T1_def GetTask_def
      ValidateTransition_def NormalizeState_def StateAliases_def ValidTransitions_def
      required_by_table_def spec_handover_table_def getRequiredHandovers_def
      requiredHandovers_def state_names)

text \<open>
  Claim C3, amended: for every task of the Store whose artifacts can be read back and
  every proposed state, both states given by their canonical names,
  \<^verbatim>\<open>ValidateAndTransition\<close> rejects the transition exactly when it is illegal in the
  state machine, or the dependency check of a work state fails, or it is one of the six of
  the handover table and the named artifact has no nonempty latest version for the task:
  no version of it is stored, or the one of highest version has empty content. A rejection
  leaves the Store as it was; otherwise the Store is the one \<^verbatim>\<open>UpdateTaskState\<close>
  writes. Transitions outside the table require no handover artifact.
\<close>

theorem handover_rejection:
  assumes task: "GetTask s taskID = Some task"
    and nf: "NormalizeState (task_State task) = task_State task"
    and nt: "NormalizeState newState = newState"
    and readable: "artifacts_readable s taskID"
    and unique: "versions_unique s"
  shows "(snd (ValidateAndTransition s now taskID newState msg) \<noteq> None \<longleftrightarrow>
            ValidateTransition (task_State task) newState \<noteq> None
            \<or> validateDependencies s task newState \<noteq> None
            \<or> list_ex (\<lambda>name. \<not> nonempty_latest s taskID name)
                 (required_by_table (task_State task) newState))
         \<and> (snd (ValidateAndTransition s now taskID newState msg) \<noteq> None \<longrightarrow>
               fst (ValidateAndTransition s now taskID newState msg) = s)
         \<and> (snd (ValidateAndTransition s now taskID newState msg) = None \<longrightarrow>
               fst (ValidateAndTransition s now taskID newState msg)
                 = UpdateTaskState s now taskID newState msg)"
proof (cases "ValidateTransition (task_State task) newState")
  case (Some e)
  then show ?thesis using task by (simp add: ValidateAndTransition_def)
next
  case None
  note tbl = required_handovers_table [OF None nf nt]
  note ident = GetTask_id [OF task]
  show ?thesis
  proof (cases "validateDependencies s task newState")
    case (Some e)
    then show ?thesis using task None by (simp add: ValidateAndTransition_def)
  next
    case dn: None
    from readable have r: "artifacts_readable s (task_ID task)" by (simp add: ident)
    have "validateRequiredHandovers s task newState \<noteq> None
            \<longleftrightarrow> list_ex (\<lambda>name. \<not> nonempty_latest s taskID name)
                  (required_by_table (task_State task) newState)"
      unfolding validateRequiredHandovers_def tbl check_handovers_iff [OF r unique] ident ..
    then show ?thesis using task None dn
      by (auto simp: ValidateAndTransition_def split: option.splits)
  qed
qed

lemma planning_fixture:
  "GetTask store_planning ''T1'' = Some task_planning"
  "GetTask store_planned ''T1'' = Some task_planning"
  "GetTask store_replanned ''T1'' = Some task_planning"
  "NormalizeState (task_State task_planning) = task_State task_planning"
  "required_by_table (task_State task_planning) ReadyForImplementation
     = [''implementation_plan'']"
  "ValidateTransition (task_State task_planning) ReadyForImplementation = None"
  "validateDependencies s task_planning ReadyForImplementation = None"
  by (simp_all add: store_planning_def store_planned_def store_replanned_def task_planning_def
      task_T1_def empty_store_def GetTask_def normalize_canonical required_by_table_def
      spec_handover_table_def state_names ValidateTransition_def NormalizeState_def
      StateAliases_def ValidTransitions_def validateDependencies_def workStates_def)

theorem handover_rejection_witness:
  "artifacts store_planning = []
   \<and> snd (ValidateAndTransition store_planning 20 ''T1'' ReadyForImplementation []) \<noteq> None
   \<and> fst (ValidateAndTransition store_planning 20 ''T1'' ReadyForImplementation [])
       = store_planning
   \<and> artifacts store_planned = [plan_v1]
   \<and> art_Content plan_v1 \<noteq> []
   \<and> ValidateAndTransition store_planned 20 ''T1'' ReadyForImplementation []
       = (UpdateTaskState store_planned 20 ''T1'' ReadyForImplementation [], None)
   \<and> map art_Version (artifacts store_replanned) = [1, 2]
   \<and> map art_Content (artifacts store_replanned) = [''1. add the login form'', []]
   \<and> snd (ValidateAndTransition store_replanned 20 ''T1'' ReadyForImplementation []) \<noteq> None
   \<and> required_by_table ReadyForPlan Planning = []
   \<and> ValidateAndTransition store_T1 20 ''T1'' Planning []
       = (UpdateTaskState store_T1 20 ''T1'' Planning [], None)"
proof -
  have r1: "artifacts_readable store_planning ''T1'' \<and> versions_unique store_planning
            \<and> \<not> nonempty_latest store_planning ''T1'' ''implementation_plan''"
    by (simp add: artifacts_readable_def versions_unique_def nonempty_latest_def
        store_planning_def empty_store_def)
  have r2: "artifacts_readable store_planned ''T1'' \<and> versions_unique store_planned
            \<and> nonempty_latest store_planned ''T1'' ''implementation_plan''"
    by (simp add: artifacts_readable_def versions_unique_def nonempty_latest_def
        store_planned_def store_planning_def empty_store_def plan_v1_def)
  have r3: "artifacts_readable store_replanned ''T1'' \<and> versions_unique store_replanned
            \<and> \<not> nonempty_latest store_replanned ''T1'' ''implementation_plan''"
    by (simp add: artifacts_readable_def versions_unique_def nonempty_latest_def
        store_replanned_def store_planning_def empty_store_def plan_v1_def)
  have r4: "artifacts_readable store_T1 ''T1'' \<and> versions_unique store_T1"
    by (simp add: artifacts_readable_def versions_unique_def store_T1_def empty_store_def)
  have t4: "GetTask store_T1 ''T1'' = Some task_T1"
    "NormalizeState (task_State task_T1) = task_State task_T1"
    "required_by_table (task_State task_T1) Planning = []"
    "required_by_table ReadyForPlan Planning = []"
    "ValidateTransition (task_State task_T1) Planning = None"
    "validateDependencies store_T1 task_T1 Planning = None"
    by (simp_all add: store_T1_def task_T1_def empty_store_def GetTask_def normalize_canonical
        required_by_table_def spec_handover_table_def state_names ValidateTransition_def
        NormalizeState_def StateAliases_def ValidTransitions_def validateDependencies_def
        workStates_def)
  note w1 = handover_rejection [OF planning_fixture(1) planning_fixture(4)
      normalize_canonical(3) conjunct1 [OF r1] conjunct1 [OF conjunct2 [OF r1]], of 20 "[]"]
  note w2 = handover_rejection [OF planning_fixture(2) planning_fixture(4)
      normalize_canonical(3) conjunct1 [OF r2] conjunct1 [OF conjunct2 [OF r2]], of 20 "[]"]
  note w3 = handover_rejection [OF planning_fixture(3) planning_fixture(4)
      normalize_canonical(3) conjunct1 [OF r3] conjunct1 [OF conjunct2 [OF r3]], of 20 "[]"]
  note w4 = handover_rejection [OF t4(1) t4(2) normalize_canonical(2) conjunct1 [OF r4]
      conjunct2 [OF r4], of 20 "[]"]
  have a1: "snd (ValidateAndTransition store_planning 20 ''T1'' ReadyForImplementation [])
              \<noteq> None
            \<and> fst (ValidateAndTransition store_planning 20 ''T1'' ReadyForImplementation [])
                = store_planning"
    using w1 r1 by (simp add: planning_fixture)
  have a2: "ValidateAndTransition store_planned 20 ''T1'' ReadyForImplementation []
       = (UpdateTaskState store_planned 20 ''T1'' ReadyForImplementation [], None)"
    using w2 r2 by (simp add: planning_fixture prod_eq_iff)
  have a3: "snd (ValidateAndTransition store_replanned 20 ''T1'' ReadyForImplementation [])
              \<noteq> None"
    using w3 r3 by (simp add: planning_fixture)
  have a4: "ValidateAndTransition store_T1 20 ''T1'' Planning []
       = (UpdateTaskState store_T1 20 ''T1'' Planning [], None)"
    using w4 by (simp add: t4 prod_eq_iff)
  have stored: "artifacts store_planning = []" "artifacts store_planned = [plan_v1]"
    "art_Content plan_v1 \<noteq> []"
    "map art_Version (artifacts store_replanned) = [1, 2]"
    "map art_Content (artifacts store_replanned) = [''1. add the login form'', []]"
    by (simp_all add: store_planning_def store_planned_def store_replanned_def empty_store_def
        plan_v1_def)
  from stored a1 a2 a3 a4 t4(4) show ?thesis by simp
qed

text \<open>
  The two hypotheses on names are needed: \<^verbatim>\<open>getRequiredHandovers\<close> builds its key from
  the names as they are passed, while \<^verbatim>\<open>ValidateTransition\<close> normalizes them first. A
  proposed state given by an alias is accepted without the artifact, and the alias is what
  is written. Both callers in the repository normalize the proposed state beforehand.
\<close>

lemma alias_skips_handover:
  "ValidateAndTransition store_planning 20 ''T1'' ''ready_for_implmentation'' []
     = (UpdateTaskState store_planning 20 ''T1'' ''ready_for_implmentation'' [], None)"
  by (simp add: ValidateAndTransition_def store_planning_def task_planning_def task_T1_def
      empty_store_def GetTask_def ValidateTransition_def NormalizeState_def StateAliases_def
      ValidTransitions_def validateDependencies_def workStates_def validateRequiredHandovers_def
      getRequiredHandovers_def requiredHandovers_def state_names)

text \<open>
  So is the hypothesis that the artifacts can be read back: an implementation plan stored
  without \<^verbatim>\<open>meta\<close> has a nonempty latest version, and the transition that requires it
  is rejected as if the plan were absent.
\<close>

lemma unreadable_handover_rejected:
  "nonempty_latest store_plan_without_meta ''T1'' ''implementation_plan''
   \<and> ValidateAndTransition store_plan_without_meta 20 ''T1'' ReadyForImplementation []
       = (store_plan_without_meta,
          Some (Wrap ''handover validation failed''
                  (HandoverNotFound ''implementation_plan'' Planning ReadyForImplementation)))"
  by (simp add: nonempty_latest_def ValidateAndTransition_def store_plan_without_meta_def
      store_planning_def task_planning_def task_T1_def plan_v1_def
      empty_store_def GetTask_def ValidateTransition_def NormalizeState_def StateAliases_def
      ValidTransitions_def validateDependencies_def workStates_def validateRequiredHandovers_def
      getRequiredHandovers_def requiredHandovers_def check_handovers.simps GetArtifact_def
      artifact_rows_def latest_row_def scan_artifact_def state_names)

section \<open>The tie-breaker of the selector\<close>

lemma set_move_left: "set (move_left lt x acc) = insert x (set acc)"
  by (induction acc) auto

lemma mset_move_left: "mset (move_left lt x acc) = add_mset x (mset acc)"
  by (induction acc) auto

lemma mset_insertionSort: "mset (insertionSort lt xs) = mset xs"
proof -
  have "mset (fold (move_left lt) xs acc) = mset xs + mset acc" for acc
    by (induction xs arbitrary: acc) (simp_all add: mset_move_left)
  then show ?thesis by (simp add: insertionSort_def)
qed

lemma move_left_sorted:
  assumes asym: "\<And>x y. lt x y \<Longrightarrow> \<not> lt y x"
    and ntrans: "\<And>x y z. \<not> lt x y \<Longrightarrow> \<not> lt y z \<Longrightarrow> \<not> lt x z"
  shows "sorted_wrt (\<lambda>a b. \<not> lt a b) acc \<Longrightarrow> sorted_wrt (\<lambda>a b. \<not> lt a b) (move_left lt x acc)"
proof (induction acc)
  case Nil
  then show ?case by simp
next
  case (Cons y ys)
  show ?case
  proof (cases "lt x y")
    case True
    then have "\<not> lt y x" by (rule asym)
    with Cons True show ?thesis by (auto simp: set_move_left)
  next
    case False
    then have "\<forall>z\<in>set ys. \<not> lt x z" using Cons.prems ntrans by auto
    with Cons.prems False show ?thesis by simp
  qed
qed

lemma fold_move_left_sorted:
  assumes asym: "\<And>x y. lt x y \<Longrightarrow> \<not> lt y x"
    and ntrans: "\<And>x y z. \<not> lt x y \<Longrightarrow> \<not> lt y z \<Longrightarrow> \<not> lt x z"
  shows "sorted_wrt (\<lambda>a b. \<not> lt a b) acc
           \<Longrightarrow> sorted_wrt (\<lambda>a b. \<not> lt a b) (fold (move_left lt) xs acc)"
proof (induction xs arbitrary: acc)
  case Nil
  then show ?case by simp
next
  case (Cons x xs)
  have "sorted_wrt (\<lambda>a b. \<not> lt a b) (move_left lt x acc)"
    using asym ntrans Cons.prems by (rule move_left_sorted)
  then have "sorted_wrt (\<lambda>a b. \<not> lt a b) (fold (move_left lt) xs (move_left lt x acc))"
    by (rule Cons.IH)
  then show ?case by simp
qed

lemma insertionSort_sorted:
  assumes asym: "\<And>x y. lt x y \<Longrightarrow> \<not> lt y x"
    and ntrans: "\<And>x y z. \<not> lt x y \<Longrightarrow> \<not> lt y z \<Longrightarrow> \<not> lt x z"
  shows "sorted_wrt (\<lambda>a b. \<not> lt b a) (insertionSort lt xs)"
proof -
  have "sorted_wrt (\<lambda>a b. \<not> lt a b) (fold (move_left lt) xs [])"
    by (rule fold_move_left_sorted [OF asym ntrans]) simp_all
  then show ?thesis by (simp add: insertionSort_def sorted_wrt_rev)
qed

lemma set_insertionSort: "set (insertionSort lt xs) = set xs"
proof -
  have "set (fold (move_left lt) xs acc) = set xs \<union> set acc" for acc
    by (induction xs arbitrary: acc) (auto simp: set_move_left)
  then show ?thesis by (simp add: insertionSort_def)
qed

lemma candidate_less_lex:
  "candidate_less cfg a b =
     (if c_Priority a \<noteq> c_Priority b then c_Priority a > c_Priority b
      else if sc_PreferLeafTasks cfg \<and> c_IsLeaf a \<noteq> c_IsLeaf b then c_IsLeaf a
      else tie_less cfg a b)"
  unfolding candidate_less_def tie_less_def ..

lemma tie_less_asym: "tie_less cfg x y \<Longrightarrow> \<not> tie_less cfg y x"
  unfolding tie_less_def by (simp split: if_splits)

lemma tie_less_ntrans: "\<not> tie_less cfg x y \<Longrightarrow> \<not> tie_less cfg y z \<Longrightarrow> \<not> tie_less cfg x z"
  unfolding tie_less_def by (simp split: if_splits)

lemma candidate_less_asym: "candidate_less cfg x y \<Longrightarrow> \<not> candidate_less cfg y x"
  unfolding candidate_less_lex using tie_less_asym [of cfg x y]
  by (cases "c_Priority x = c_Priority y"; cases "c_IsLeaf x"; cases "c_IsLeaf y"; simp split: if_splits)

lemma candidate_less_ntrans:
  assumes "\<not> candidate_less cfg x y" "\<not> candidate_less cfg y z"
  shows "\<not> candidate_less cfg x z"
proof (cases "c_Priority x = c_Priority y \<and> c_Priority y = c_Priority z")
  case False
  with assms show ?thesis unfolding candidate_less_lex by (auto split: if_splits)
next
  case pr: True
  show ?thesis
  proof (cases "sc_PreferLeafTasks cfg \<and> \<not> (c_IsLeaf x = c_IsLeaf y \<and> c_IsLeaf y = c_IsLeaf z)")
    case True
    with assms pr show ?thesis unfolding candidate_less_lex by (auto split: if_splits)
  next
    case False
    with assms pr tie_less_ntrans [of cfg x y z] show ?thesis
      unfolding candidate_less_lex by (auto split: if_splits)
  qed
qed

lemma sorted_candidates:
  "sorted_wrt (\<lambda>x y. \<not> candidate_less cfg y x) (sortCandidates insertionSort cfg candidates)"
  unfolding sortCandidates_def
  by (rule insertionSort_sorted) (fact candidate_less_asym candidate_less_ntrans)+

lemma sorted_head_least:
  assumes "sortCandidates insertionSort cfg candidates = selected # rest"
  shows "selected \<in> set candidates"
    and "\<forall>d\<in>set candidates. \<not> candidate_less cfg d selected"
proof -
  have s: "set candidates = insert selected (set rest)"
    using set_insertionSort [of "candidate_less cfg" candidates] assms
    by (simp add: sortCandidates_def)
  then show "selected \<in> set candidates" by simp
  have "\<forall>d\<in>set rest. \<not> candidate_less cfg d selected"
    using sorted_candidates [of cfg candidates] by (simp add: assms)
  moreover have "\<not> candidate_less cfg selected selected"
    using candidate_less_asym [of cfg selected selected] by blast
  ultimately show "\<forall>d\<in>set candidates. \<not> candidate_less cfg d selected"
    by (simp add: s)
qed

lemma SelectNext_errors:
  assumes "SelectNext insertionSort cfg now s = Inl e"
  shows "e = NoSelectableTasks \<or> e = NoUnblockedTasks \<or> e = UnknownAlgorithm (sc_Algorithm cfg)"
proof -
  have nonempty: "sortCandidates insertionSort cfg xs \<noteq> []" if "xs \<noteq> []" for xs
    using set_insertionSort [of "candidate_less cfg" xs] that
    by (auto simp: sortCandidates_def)
  show ?thesis
    using assms nonempty [of "available_candidates cfg s"]
    by (auto simp: SelectNext_def selectByPriorityAndDependency_def Let_def
        available_candidates_def split: if_splits list.splits)
qed

lemma SelectNext_least:
  assumes "SelectNext insertionSort cfg now s = Inr sel"
  shows "\<exists>c\<in>set (available_candidates cfg s).
           sel_Task sel = c_Task c
           \<and> (\<forall>d\<in>set (available_candidates cfg s). \<not> candidate_less cfg d c)"
proof -
  from assms obtain selected rest where
    srt: "sortCandidates insertionSort cfg (available_candidates cfg s) = selected # rest"
    and sel: "sel_Task sel = c_Task selected"
    by (auto simp: SelectNext_def selectByPriorityAndDependency_def Let_def
        available_candidates_def split: if_splits list.splits)
  from sorted_head_least [OF srt] sel show ?thesis by blast
qed

text \<open>
  Claim C10: under a configuration whose \<^verbatim>\<open>tie_breaker\<close> is none of
  \<^verbatim>\<open>oldest_updated\<close>, \<^verbatim>\<open>newest_created\<close> and \<^verbatim>\<open>alphabetical\<close>, the selector
  compares, sorts and selects as it does under \<^verbatim>\<open>oldest_updated\<close>: it returns the same
  task or the same error, and the only errors are those of a Store with no selectable
  task, of candidates that are all blocked and of an unknown algorithm, so the unknown
  value causes no failure. Between candidates tied on priority (and on leaf status when
  \<^verbatim>\<open>prefer_leaf_tasks\<close> is set) the one of earlier \<^verbatim>\<open>updated_at\<close> is the lesser. The
  sorted slice holds the candidates it was given, each as often; no candidate in it is
  less than one before it, so no tied candidate comes after one of later
  \<^verbatim>\<open>updated_at\<close>; and the task selected is that of an available candidate than which
  no available candidate is less.
\<close>

theorem unknown_tie_breaker:
  assumes "sc_TieBreaker cfg \<noteq> ''oldest_updated''"
    and "sc_TieBreaker cfg \<noteq> ''newest_created''"
    and "sc_TieBreaker cfg \<noteq> ''alphabetical''"
  shows "candidate_less cfg = candidate_less (cfg\<lparr>sc_TieBreaker := ''oldest_updated''\<rparr>)
   \<and> sortCandidates sortSlice cfg candidates
       = sortCandidates sortSlice (cfg\<lparr>sc_TieBreaker := ''oldest_updated''\<rparr>) candidates
   \<and> map_sum id sel_Task (SelectNext sortSlice cfg now s)
       = map_sum id sel_Task
           (SelectNext sortSlice (cfg\<lparr>sc_TieBreaker := ''oldest_updated''\<rparr>) now s)
   \<and> (c_Priority a = c_Priority b \<and> (sc_PreferLeafTasks cfg \<longrightarrow> c_IsLeaf a = c_IsLeaf b)
        \<longrightarrow> candidate_less cfg a b = (task_UpdatedAt (c_Task a) < task_UpdatedAt (c_Task b)))
   \<and> mset (sortCandidates insertionSort cfg candidates) = mset candidates
   \<and> sorted_wrt (\<lambda>x y. \<not> candidate_less cfg y x) (sortCandidates insertionSort cfg candidates)
   \<and> sorted_wrt (\<lambda>x y. c_Priority x = c_Priority y
                        \<and> (sc_PreferLeafTasks cfg \<longrightarrow> c_IsLeaf x = c_IsLeaf y)
                        \<longrightarrow> task_UpdatedAt (c_Task x) \<le> task_UpdatedAt (c_Task y))
        (sortCandidates insertionSort cfg candidates)
   \<and> (\<forall>e. SelectNext insertionSort cfg now s = Inl e \<longrightarrow>
          e = NoSelectableTasks \<or> e = NoUnblockedTasks
          \<or> e = UnknownAlgorithm (sc_Algorithm cfg))
   \<and> (\<forall>sel. SelectNext insertionSort cfg now s = Inr sel \<longrightarrow>
          (\<exists>c\<in>set (available_candidates cfg s).
             sel_Task sel = c_Task c
             \<and> (\<forall>d\<in>set (available_candidates cfg s). \<not> candidate_less cfg d c)))"
proof -
  let ?cfg' = "cfg\<lparr>sc_TieBreaker := ''oldest_updated''\<rparr>"
  have lt: "candidate_less cfg = candidate_less ?cfg'"
    using assms by (intro ext) (simp add: candidate_less_def)
  have cand: "make_candidate cfg s = make_candidate ?cfg' s"
    by (intro ext) (simp add: make_candidate_def isBlockedByDependencies_def)
  have srt: "sortCandidates sortSlice cfg = sortCandidates sortSlice ?cfg'"
    by (intro ext) (simp add: sortCandidates_def lt)
  have sel: "map_sum id sel_Task (SelectNext sortSlice cfg now s)
       = map_sum id sel_Task (SelectNext sortSlice ?cfg' now s)"
    by (simp add: SelectNext_def selectByPriorityAndDependency_def Let_def cand srt
        split: list.splits)
  have tie: "candidate_less cfg x y = (task_UpdatedAt (c_Task x) < task_UpdatedAt (c_Task y))"
    if "c_Priority x = c_Priority y \<and> (sc_PreferLeafTasks cfg \<longrightarrow> c_IsLeaf x = c_IsLeaf y)"
    for x y
    using assms that by (auto simp: candidate_less_def)
  have perm: "mset (sortCandidates insertionSort cfg candidates) = mset candidates"
    by (simp add: sortCandidates_def mset_insertionSort)
  note full = sorted_candidates [of cfg candidates]
  then have ord: "sorted_wrt (\<lambda>x y. c_Priority x = c_Priority y
                        \<and> (sc_PreferLeafTasks cfg \<longrightarrow> c_IsLeaf x = c_IsLeaf y)
                        \<longrightarrow> task_UpdatedAt (c_Task x) \<le> task_UpdatedAt (c_Task y))
        (sortCandidates insertionSort cfg candidates)"
  proof (rule sorted_wrt_mono_rel [rotated])
    fix x y assume "\<not> candidate_less cfg y x"
    then show "c_Priority x = c_Priority y
                        \<and> (sc_PreferLeafTasks cfg \<longrightarrow> c_IsLeaf x = c_IsLeaf y)
                        \<longrightarrow> task_UpdatedAt (c_Task x) \<le> task_UpdatedAt (c_Task y)"
      using tie [of y x] by auto
  qed
  have errs: "\<forall>e. SelectNext insertionSort cfg now s = Inl e \<longrightarrow>
          e = NoSelectableTasks \<or> e = NoUnblockedTasks
          \<or> e = UnknownAlgorithm (sc_Algorithm cfg)"
    using SelectNext_errors by blast
  have least: "\<forall>sel. SelectNext insertionSort cfg now s = Inr sel \<longrightarrow>
          (\<exists>c\<in>set (available_candidates cfg s).
             sel_Task sel = c_Task c
             \<and> (\<forall>d\<in>set (available_candidates cfg s). \<not> candidate_less cfg d c))"
    using SelectNext_least by blast
  from lt srt sel tie [of a b] perm full ord errs least show ?thesis by simp
qed

lemma sort_BA_oldest:
  "sortCandidates insertionSort (cfg_unknown\<lparr>sc_TieBreaker := ''oldest_updated''\<rparr>)
     [candidate_of task_B, candidate_of task_A]
   = [candidate_of task_A, candidate_of task_B]"
  by (simp add: sortCandidates_def insertionSort_def candidate_less_def candidate_of_def
      task_A_def task_B_def task_T1_def cfg_unknown_def strict_def lenient_def)

lemma listed_PAQ: "map task_ID (ListTasks store_PAQ no_filters) = [''P'', ''A'', ''Q'']"
  by (simp add: ListTasks_def no_filters_def store_PAQ_def empty_store_def task_P_def
      task_A_def task_Q_def task_T1_def)

lemma select_PAQ_oldest:
  "map_sum id sel_Task
     (SelectNext insertionSort (cfg_unknown\<lparr>sc_TieBreaker := ''oldest_updated''\<rparr>) 30 store_PAQ)
   = Inr task_A"
  by (simp add: SelectNext_def getSelectableTasks_def ListTasks_def no_filters_def store_PAQ_def
      empty_store_def task_A_def task_P_def task_Q_def task_T1_def IsTerminalState_def
      NormalizeState_def StateAliases_def ValidTransitions_def state_names cfg_unknown_def
      strict_def lenient_def selectByPriorityAndDependency_def make_candidate_def
      isBlockedByDependencies_def GetTask_def hasUnfinishedDependents_def sortCandidates_def
      insertionSort_def candidate_less_def Let_def)

theorem unknown_tie_breaker_witness:
  "sc_TieBreaker cfg_unknown \<noteq> ''oldest_updated''
   \<and> sc_TieBreaker cfg_unknown \<noteq> ''newest_created''
   \<and> sc_TieBreaker cfg_unknown \<noteq> ''alphabetical''
   \<and> sortCandidates insertionSort cfg_unknown [candidate_of task_B, candidate_of task_A]
       = [candidate_of task_A, candidate_of task_B]
   \<and> task_UpdatedAt task_A < task_UpdatedAt task_B
   \<and> candidate_less cfg_unknown (candidate_of task_A) (candidate_of task_B)
   \<and> map task_ID (ListTasks store_PAQ no_filters) = [''P'', ''A'', ''Q'']
   \<and> map_sum id sel_Task (SelectNext insertionSort cfg_unknown 30 store_PAQ) = Inr task_A"
proof -
  have h: "sc_TieBreaker cfg_unknown \<noteq> ''oldest_updated''"
    "sc_TieBreaker cfg_unknown \<noteq> ''newest_created''"
    "sc_TieBreaker cfg_unknown \<noteq> ''alphabetical''"
    by (simp_all add: cfg_unknown_def)
  have tied: "c_Priority (candidate_of task_A) = c_Priority (candidate_of task_B)"
    "c_IsLeaf (candidate_of task_A) = c_IsLeaf (candidate_of task_B)"
    "c_Task (candidate_of task_A) = task_A" "c_Task (candidate_of task_B) = task_B"
    "task_UpdatedAt task_A < task_UpdatedAt task_B"
    by (simp_all add: candidate_of_def task_A_def task_B_def)
  note w = unknown_tie_breaker [OF h, of insertionSort
      "[candidate_of task_B, candidate_of task_A]" 30 store_PAQ
      "candidate_of task_A" "candidate_of task_B"]
  have 1: "sortCandidates insertionSort cfg_unknown [candidate_of task_B, candidate_of task_A]
       = [candidate_of task_A, candidate_of task_B]"
    using w sort_BA_oldest by simp
  have 2: "candidate_less cfg_unknown (candidate_of task_A) (candidate_of task_B)"
    using conjunct1 [OF conjunct2 [OF conjunct2 [OF conjunct2 [OF w]]]] tied by simp
  have 3: "map_sum id sel_Task (SelectNext insertionSort cfg_unknown 30 store_PAQ) = Inr task_A"
    using w select_PAQ_oldest by simp
  from h 1 2 3 tied(5) listed_PAQ show ?thesis by simp
qed

section \<open>Dry run of the cycle engine\<close>

lemma first_successor:
  assumes "NormalizeState st \<in> set GetAllStates" "\<not> IsTerminalState st"
  shows "\<exists>x xs. GetAllowedTransitions st = Inr (x # xs)"
proof -
  from assms(1) have "map_of ValidTransitions (NormalizeState st) \<noteq> None"
    by (simp add: GetAllStates_def map_of_eq_None_iff)
  then obtain l where l: "map_of ValidTransitions (NormalizeState st) = Some l" by auto
  with assms(2) have "l \<noteq> []" by (simp add: IsTerminalState_def)
  then obtain x xs where "l = x # xs" by (cases l) auto
  with l show ?thesis by (simp add: GetAllowedTransitions_def Let_def)
qed

lemma targets_normalized:
  "list_all (\<lambda>(f, ts). list_all (\<lambda>t. NormalizeState t = t) ts) ValidTransitions"
  by (simp add: ValidTransitions_def normalize_canonical)

lemma first_successor_legal:
  assumes "GetAllowedTransitions st = Inr (x # xs)"
  shows "ValidateTransition st x = None"
proof -
  from assms have l: "map_of ValidTransitions (NormalizeState st) = Some (x # xs)"
    by (auto simp: GetAllowedTransitions_def Let_def split: option.splits)
  then have "(NormalizeState st, x # xs) \<in> set ValidTransitions" by (rule map_of_SomeD)
  with targets_normalized have "NormalizeState x = x" by (auto simp: list_all_iff)
  with l show ?thesis by (simp add: ValidateTransition_def Let_def)
qed

text \<open>
  Claim C5: a cycle run with \<^verbatim>\<open>dry_run=true\<close> returns the Store it was given, whatever
  it returns besides; when it returns a \<^verbatim>\<open>CycleResult\<close>, the result reports success,
  names the task the selector chose and its current state as previous state, and its next
  state is the first state of the successor list of that state, which exists and is a
  legal successor whenever the state is one of the state machine's and is not terminal.
\<close>

theorem dry_run_leaves_store:
  assumes "ExecuteCycle sortSlice cfg env True s = (s', out)"
  shows "s' = s
    \<and> (\<forall>res. out = Inr res \<longrightarrow>
          cr_Success res
          \<and> (\<exists>sel. SelectNext sortSlice (cfg_Selection cfg) (env_selectTime env) s = Inr sel
                 \<and> cr_TaskID res = task_ID (sel_Task sel)
                 \<and> cr_PrevState res = task_State (sel_Task sel))
          \<and> (\<forall>x xs. GetAllowedTransitions (cr_PrevState res) = Inr (x # xs)
                 \<longrightarrow> cr_NextState res = x)
          \<and> (NormalizeState (cr_PrevState res) \<in> set GetAllStates
               \<and> \<not> IsTerminalState (cr_PrevState res)
               \<longrightarrow> (\<exists>x xs. GetAllowedTransitions (cr_PrevState res) = Inr (x # xs)
                       \<and> cr_NextState res = x
                       \<and> ValidateTransition (cr_PrevState res) (cr_NextState res) = None)))"
proof -
  have frame: "s' = s"
    using assms
    by (auto simp: ExecuteCycle_def Let_def split: sum.splits option.splits list.splits)
  have res: "cr_Success res
          \<and> (\<exists>sel. SelectNext sortSlice (cfg_Selection cfg) (env_selectTime env) s = Inr sel
                 \<and> cr_TaskID res = task_ID (sel_Task sel)
                 \<and> cr_PrevState res = task_State (sel_Task sel))
          \<and> (\<forall>x xs. GetAllowedTransitions (cr_PrevState res) = Inr (x # xs)
                 \<longrightarrow> cr_NextState res = x)"
    if "out = Inr res" for res
    using assms that
    by (auto simp: ExecuteCycle_def Let_def split: sum.splits option.splits list.splits)
  have "\<exists>x xs. GetAllowedTransitions (cr_PrevState res) = Inr (x # xs)
                       \<and> cr_NextState res = x
                       \<and> ValidateTransition (cr_PrevState res) (cr_NextState res) = None"
    if "out = Inr res" "NormalizeState (cr_PrevState res) \<in> set GetAllStates"
       "\<not> IsTerminalState (cr_PrevState res)" for res
  proof -
    from first_successor [OF that(2,3)] obtain x xs
      where g: "GetAllowedTransitions (cr_PrevState res) = Inr (x # xs)" by blast
    with res [OF that(1)] have "cr_NextState res = x" by blast
    with g first_successor_legal [OF g] show ?thesis by simp
  qed
  with frame res show ?thesis by blast
qed

lemma preview_T1:
  "ExecuteCycle insertionSort default_config env_idle True store_T1
     = (store_T1, Inr \<lparr>cr_Success = True, cr_TaskID = ''T1'', cr_PrevState = ReadyForPlan,
                       cr_NextState = Planning, cr_ArtifactsCreated = [], cr_Duration = 11\<rparr>)"
  by (simp add: ExecuteCycle_def default_config_def env_idle_def
      SelectNext_def getSelectableTasks_def ListTasks_def no_filters_def store_T1_def
      empty_store_def task_T1_def IsTerminalState_def NormalizeState_def
      StateAliases_def ValidTransitions_def state_names strict_def lenient_def
      selectByPriorityAndDependency_def make_candidate_def isBlockedByDependencies_def
      hasUnfinishedDependents_def sortCandidates_def insertionSort_def candidate_less_def
      getAgentForTask_def GetAllowedTransitions_def Let_def)

theorem dry_run_leaves_store_witness:
  "ExecuteCycle insertionSort default_config env_idle True store_T1
     = (store_T1, Inr \<lparr>cr_Success = True, cr_TaskID = ''T1'', cr_PrevState = ReadyForPlan,
                       cr_NextState = Planning, cr_ArtifactsCreated = [], cr_Duration = 11\<rparr>)
   \<and> NormalizeState ReadyForPlan \<in> set GetAllStates \<and> \<not> IsTerminalState ReadyForPlan
   \<and> GetAllowedTransitions ReadyForPlan = Inr [Planning]
   \<and> ValidateTransition ReadyForPlan Planning = None"
proof -
  have mem: "NormalizeState ReadyForPlan \<in> set GetAllStates \<and> \<not> IsTerminalState ReadyForPlan"
    by (simp add: GetAllStates_def ValidTransitions_def IsTerminalState_def normalize_canonical)
  have g: "GetAllowedTransitions ReadyForPlan = Inr [Planning]"
    by (simp add: GetAllowedTransitions_def ValidTransitions_def normalize_canonical)
  from dry_run_leaves_store [OF preview_T1] mem g preview_T1 show ?thesis by simp
qed

section \<open>Notes appended to a task\<close>

lemma append_note_ignores_note:
  "fst (TaskHandler_AppendNote s now (note_request taskID note))
     = fst (TaskHandler_AppendNote s now (note_request taskID note'))"
  by (simp add: TaskHandler_AppendNote_def note_request_def rpc_def GetStringParam_def
      UpdateTaskState_def split: option.splits)

lemma find_updated_same:
  "find (\<lambda>t. task_ID t = ident)
     (map (\<lambda>t. if task_ID t = ident then t\<lparr>task_State := st, task_UpdatedAt := now\<rparr> else t) ts)
   = map_option (\<lambda>t. t\<lparr>task_State := st, task_UpdatedAt := now\<rparr>)
       (find (\<lambda>t. task_ID t = ident) ts)"
  by (induction ts) auto

lemma find_updated_other:
  "ident' \<noteq> ident \<Longrightarrow>
   find (\<lambda>t. task_ID t = ident')
     (map (\<lambda>t. if task_ID t = ident then t\<lparr>task_State := st, task_UpdatedAt := now\<rparr> else t) ts)
   = find (\<lambda>t. task_ID t = ident') ts"
  by (induction ts) auto

lemma GetTask_UpdateTaskState:
  "GetTask (UpdateTaskState s now ident st note) ident'
     = (if ident' = ident
        then map_option (\<lambda>t. t\<lparr>task_State := st, task_UpdatedAt := now\<rparr>) (GetTask s ident)
        else GetTask s ident')"
  by (simp add: GetTask_def UpdateTaskState_def find_updated_same find_updated_other)

lemma append_note_keeps_state:
  "map_option task_State (GetTask (fst (TaskHandler_AppendNote s now req)) ident)
     = map_option task_State (GetTask s ident)"
  by (auto simp: TaskHandler_AppendNote_def GetTask_UpdateTaskState option.map_comp comp_def
      split: option.splits)

lemma append_note_missing_task:
  "GetTask s taskID = None \<Longrightarrow>
     TaskHandler_AppendNote s now (note_request taskID note)
       = (s, NewJSONRPCError ''1'' ResourceNotFound ''Task not found'' (TaskRef taskID))"
  by (simp add: TaskHandler_AppendNote_def note_request_def rpc_def GetStringParam_def)

text \<open>
  Claim C8: \<^verbatim>\<open>tasks.append_note\<close> on an existing task succeeds, persists the note and
  keeps the state. The code succeeds and keeps the state (\<open>append_note_keeps_state\<close>),
  and answers a missing task with a not-found error and no write
  (\<open>append_note_missing_task\<close>), but it persists no note: the handler passes the note
  to \<^verbatim>\<open>UpdateTaskState\<close>, which writes the state and \<^verbatim>\<open>updated_at\<close> only. On the Store
  holding \<^verbatim>\<open>T1\<close>, appending the note "remember this" answers success and leaves a Store
  that differs from the first in the time of update alone, the same Store as after
  appending any other note.
\<close>

theorem append_note_drops_note:
  "handleRequest surface0 store_T1 (call_at 20 (note_request ''T1'' ''remember this''))
     = (store_T1\<lparr>tasks := [task_T1\<lparr>task_UpdatedAt := 20\<rparr>]\<rparr>,
        NewJSONRPCResponse ''1'' (NoteAppended ''T1''))
   \<and> handleRequest surface0 store_T1 (call_at 20 (note_request ''T1'' ''something else''))
     = (store_T1\<lparr>tasks := [task_T1\<lparr>task_UpdatedAt := 20\<rparr>]\<rparr>,
        NewJSONRPCResponse ''1'' (NoteAppended ''T1''))"
  by (simp add: handleRequest_def call_at_def note_request_def rpc_def TaskHandler_AppendNote_def
      GetStringParam_def GetTask_def store_T1_def empty_store_def task_T1_def
      UpdateTaskState_def)

section \<open>The completion handshake after the LLM has terminated\<close>

text \<open>
  \<^verbatim>\<open>Enforce\<close> takes its snapshot \<^verbatim>\<open>initialState\<close> when it is called, which is after the
  LLM has terminated, and compares it with a second read of the same task: the two are
  equal, the follow-up loop never sees a change either, and no handshake reports success.
\<close>

lemma retry_loop_same_state:
  assumes "GetTask s taskID = Some task" "task_State task = initialState"
  shows "retry_loop s cfg cancelled taskID initialState retry result = Returned (Inl ContextDone)
         \<or> (\<exists>r. retry_loop s cfg cancelled taskID initialState retry result = Exhausted r
                \<and> hr_Success r = hr_Success result
                \<and> hr_FinalState r = hr_FinalState result)"
  using assms
proof (induction s cfg cancelled taskID initialState retry result rule: retry_loop.induct)
  case (1 s cfg cancelled taskID initialState retry result)
  note unfold = retry_loop.simps [of s cfg cancelled taskID initialState retry result]
  show ?case
  proof (cases "retry < cc_MaxRetries cfg")
    case False
    then show ?thesis by (simp add: unfold)
  next
    case True
    show ?thesis
    proof (cases "retry > 0 \<and> cancelled retry")
      case c: True
      with True show ?thesis by (simp add: unfold)
    next
      case c: False
      have step: "retry_loop s cfg cancelled taskID initialState retry result
                    = retry_loop s cfg cancelled taskID initialState (retry + 1)
                        (result\<lparr>hr_FollowUps := hr_FollowUps result @ [cc_FollowUpTemplate cfg]\<rparr>)"
        using True c "1.prems" by (auto simp: unfold)
      from "1.IH" [OF True c "1.prems"(1) _ "1.prems"(1) "1.prems"(2)] "1.prems"(2)
      show ?thesis unfolding step by simp
    qed
  qed
qed

lemma Enforce_outcome:
  assumes "Enforce s cfg cancelled now taskID llmResponse = (s', Inr hr)"
  shows "\<not> hr_Success hr
         \<and> (\<exists>task. GetTask s taskID = Some task
               \<and> (if cc_RequireExplicitStateUpdate cfg
                   then hr_FinalState hr = NeedsFixes
                        \<and> s' = UpdateTaskState s now taskID NeedsFixes (hr_Note hr)
                   else hr_FinalState hr = task_State task \<and> s' = s))"
proof -
  from assms obtain task where task: "GetTask s taskID = Some task"
    by (auto simp: Enforce_def split: option.splits)
  with assms have eh: "enforceHandshake s cfg cancelled now taskID (task_State task) llmResponse
                         = (s', Inr hr)"
    by (simp add: Enforce_def Let_def)
  let ?r0 = "\<lparr>hr_Success = False, hr_FinalState = task_State task, hr_ArtifactsCreated = [],
              hr_FollowUps = [], hr_Note = []\<rparr>"
  from retry_loop_same_state [OF task refl, of cfg cancelled 0 ?r0]
  consider "retry_loop s cfg cancelled taskID (task_State task) 0 ?r0 = Returned (Inl ContextDone)"
    | r where "retry_loop s cfg cancelled taskID (task_State task) 0 ?r0 = Exhausted r"
        "\<not> hr_Success r" "hr_FinalState r = task_State task"
    by auto
  then show ?thesis
  proof cases
    case 1
    with eh show ?thesis by (simp add: enforceHandshake_def)
  next
    case 2
    with eh task show ?thesis
      by (auto simp: enforceHandshake_def Let_def split: if_splits)
  qed
qed

text \<open>Evaluation of concrete cycles on the Store holding \<^verbatim>\<open>T1\<close>.\<close>

lemmas selection_defs = SelectNext_def getSelectableTasks_def ListTasks_def no_filters_def
  IsTerminalState_def NormalizeState_def StateAliases_def ValidTransitions_def
  selectByPriorityAndDependency_def make_candidate_def isBlockedByDependencies_def
  hasUnfinishedDependents_def sortCandidates_def insertionSort_def candidate_less_def

lemmas fixture_defs = default_config_def env_idle_def env_update_def store_T1_def
  empty_store_def task_T1_def strict_def lenient_def call_at_def update_request_def rpc_def

lemma serve_update:
  "serve (surface_of insertionSort default_config) store_T1 (env_served env_update)
     = store_after_update"
  by (simp add: store_after_update_def surface_of_def handleRequest_def TaskHandler_UpdateState_def
      GetStringParam_def GetOptionalStringParam_def ValidateAndTransition_def GetTask_def
      ValidateTransition_def validateDependencies_def workStates_def check_dependencies.simps
      validateRequiredHandovers_def getRequiredHandovers_def requiredHandovers_def
      UpdateTaskState_def NormalizeState_def StateAliases_def ValidTransitions_def
      fixture_defs state_names Let_def)

lemma string_of_int_2: "string_of_int 2 = ''2''"
  by (simp add: string_of_int_def string_of_nat.simps)

lemma enforce_after_update:
  "Enforce store_after_update (cfg_Completion default_config) (\<lambda>retry. False) 40 ''T1'' resp
     = (store_dropped 40,
        Inr \<lparr>hr_Success = False, hr_FinalState = NeedsFixes, hr_ArtifactsCreated = [],
             hr_FollowUps = [follow_up_template, follow_up_template],
             hr_Note = handshake_note\<rparr>)"
  by (simp add: Enforce_def enforceHandshake_def retry_loop.simps store_after_update_def
      store_dropped_def GetTask_def UpdateTaskState_def handshake_note_def string_of_int_2
      fixture_defs state_names Let_def)

lemma select_T1:
  "\<exists>reason. SelectNext insertionSort (cfg_Selection default_config) 30 store_T1
              = Inr \<lparr>sel_Task = task_T1, sel_Reason = reason\<rparr>"
  by (simp add: selection_defs default_config_def store_T1_def empty_store_def task_T1_def
      strict_def lenient_def state_names Let_def)

lemma agent_T1: "getAgentForTask default_config task_T1 = Inr architect"
  by (simp add: getAgentForTask_def default_config_def task_T1_def architect_def state_names)

lemma enforce_idle:
  "Enforce store_T1 (cfg_Completion default_config) (\<lambda>retry. False) 40 ''T1'' resp
     = (store_dropped 40,
        Inr \<lparr>hr_Success = False, hr_FinalState = NeedsFixes, hr_ArtifactsCreated = [],
             hr_FollowUps = [follow_up_template, follow_up_template],
             hr_Note = handshake_note\<rparr>)"
  by (simp add: Enforce_def enforceHandshake_def retry_loop.simps
      store_dropped_def GetTask_def UpdateTaskState_def handshake_note_def string_of_int_2
      fixture_defs state_names Let_def)

lemma log_dropped:
  "log_ID entry = [] \<Longrightarrow> log_TaskID entry = ''T1'' \<Longrightarrow>
   LogCycle (store_dropped 40) 41 ''audit-1'' entry
     = ((store_dropped 40)\<lparr>audit_logs :=
           [entry\<lparr>log_ID := ''audit-1'', log_CreatedAt := 41\<rparr>]\<rparr>, None)"
  by (simp add: LogCycle_def CreateAuditLog_def store_dropped_def store_T1_def empty_store_def
      GetTask_def task_T1_def Let_def)

lemma cycle_update_eval:
  "\<exists>reason. ExecuteCycle insertionSort default_config env_update False store_T1
             = ((store_dropped 40)\<lparr>audit_logs := [audit_dropped reason]\<rparr>, Inr result_dropped)"
proof -
  from select_T1 obtain reason
    where sel: "SelectNext insertionSort (cfg_Selection default_config) 30 store_T1
              = Inr \<lparr>sel_Task = task_T1, sel_Reason = reason\<rparr>" ..
  have env: "env_selectTime env_update = 30" "env_mcpStart env_update = None"
    "env_llm env_update = Inr \<lparr>rs_Success = True, rs_Content = ''done''\<rparr>"
    "env_cancelled env_update = (\<lambda>retry. False)" "env_handshakeTime env_update = 40"
    "env_auditTime env_update = 41" "env_auditID env_update = ''audit-1''"
    "env_cycleID env_update = ''cycle-1''" "env_duration env_update = 11"
    by (simp_all add: env_update_def env_idle_def)
  have id: "task_ID task_T1 = ''T1''" "task_State task_T1 = ReadyForPlan"
    by (simp_all add: task_T1_def)
  have "ExecuteCycle insertionSort default_config env_update False store_T1
             = ((store_dropped 40)\<lparr>audit_logs := [audit_dropped reason]\<rparr>, Inr result_dropped)"
    by (simp add: ExecuteCycle_def sel env agent_T1 serve_update enforce_after_update id
        log_dropped
        audit_dropped_def result_dropped_def architect_def buildOutputsSummary_def Let_def)
  then show ?thesis ..
qed

lemma cycle_idle_eval:
  "\<exists>reason. ExecuteCycle insertionSort default_config env_idle False store_T1
             = ((store_dropped 40)\<lparr>audit_logs := [audit_dropped reason]\<rparr>, Inr result_dropped)"
proof -
  from select_T1 obtain reason
    where sel: "SelectNext insertionSort (cfg_Selection default_config) 30 store_T1
              = Inr \<lparr>sel_Task = task_T1, sel_Reason = reason\<rparr>" ..
  have env: "env_selectTime env_idle = 30" "env_mcpStart env_idle = None"
    "env_llm env_idle = Inr \<lparr>rs_Success = True, rs_Content = ''done''\<rparr>"
    "env_cancelled env_idle = (\<lambda>retry. False)" "env_handshakeTime env_idle = 40"
    "env_auditTime env_idle = 41" "env_auditID env_idle = ''audit-1''"
    "env_cycleID env_idle = ''cycle-1''" "env_duration env_idle = 11"
    "env_served env_idle = []"
    by (simp_all add: env_idle_def)
  have id: "task_ID task_T1 = ''T1''" "task_State task_T1 = ReadyForPlan"
    by (simp_all add: task_T1_def)
  have "ExecuteCycle insertionSort default_config env_idle False store_T1
             = ((store_dropped 40)\<lparr>audit_logs := [audit_dropped reason]\<rparr>, Inr result_dropped)"
    by (simp add: ExecuteCycle_def sel env agent_T1 enforce_idle id log_dropped
        audit_dropped_def result_dropped_def architect_def buildOutputsSummary_def Let_def)
  then show ?thesis ..
qed

text \<open>
  Claim C1: the enforcer compares the task's state with a snapshot taken before the LLM
  ran, and reports success with the new state whenever the agent performed a legal
  \<^verbatim>\<open>tasks.update_state\<close>. The code does not: on the Store holding \<^verbatim>\<open>T1\<close> in
  \<^verbatim>\<open>ready_for_plan\<close>, the agent's call \<^verbatim>\<open>update_state(T1, planning)\<close> is legal and is
  served, the task is in \<^verbatim>\<open>planning\<close> when the enforcer runs, and the enforcer enters
  the follow-up loop, records two follow-ups, reports \<^verbatim>\<open>success=false\<close> with final state
  \<^verbatim>\<open>needs_fixes\<close> and overwrites the task's state with \<^verbatim>\<open>needs_fixes\<close>, which is what
  the cycle returns as next state.
\<close>

theorem handshake_after_legal_update:
  "serve (surface_of insertionSort default_config) store_T1 (env_served env_update)
     = store_after_update
   \<and> map_option task_State (GetTask store_after_update ''T1'') = Some Planning
   \<and> ValidateTransition ReadyForPlan Planning = None
   \<and> Enforce store_after_update (cfg_Completion default_config) (env_cancelled env_update)
        (env_handshakeTime env_update) ''T1'' \<lparr>rs_Success = True, rs_Content = ''done''\<rparr>
       = (store_dropped 40,
          Inr \<lparr>hr_Success = False, hr_FinalState = NeedsFixes, hr_ArtifactsCreated = [],
               hr_FollowUps = [follow_up_template, follow_up_template],
               hr_Note = handshake_note\<rparr>)
   \<and> map_option task_State (GetTask (store_dropped 40) ''T1'') = Some NeedsFixes
   \<and> snd (ExecuteCycle insertionSort default_config env_update False store_T1)
       = Inr result_dropped
   \<and> tasks (fst (ExecuteCycle insertionSort default_config env_update False store_T1))
       = tasks (store_dropped 40)"
proof -
  have env: "env_cancelled env_update = (\<lambda>retry. False)" "env_handshakeTime env_update = 40"
    by (simp_all add: env_update_def env_idle_def)
  have st: "map_option task_State (GetTask store_after_update ''T1'') = Some Planning"
    "map_option task_State (GetTask (store_dropped 40) ''T1'') = Some NeedsFixes"
    by (simp_all add: store_after_update_def store_dropped_def store_T1_def empty_store_def
        task_T1_def GetTask_def)
  have legal: "ValidateTransition ReadyForPlan Planning = None"
    by (simp add: ValidateTransition_def ValidTransitions_def normalize_canonical)
  from cycle_update_eval obtain reason
    where "ExecuteCycle insertionSort default_config env_update False store_T1
             = ((store_dropped 40)\<lparr>audit_logs := [audit_dropped reason]\<rparr>, Inr result_dropped)" ..
  then show ?thesis
    using serve_update enforce_after_update st legal by (simp add: env)
qed

section \<open>States reported by a cycle\<close>

lemma moved_legally_refl: "moved_legally s s"
  by (simp add: moved_legally_def)

lemma moved_legally_same_tasks: "tasks s' = tasks s \<Longrightarrow> moved_legally s s'"
  by (simp add: moved_legally_def GetTask_def)

lemma moved_legally_trans:
  assumes "moved_legally s s'" "moved_legally s' s''"
  shows "moved_legally s s''"
  unfolding moved_legally_def
proof (intro allI impI)
  fix ident t'' assume "GetTask s'' ident = Some t''"
  with assms(2) obtain t' where t': "GetTask s' ident = Some t'"
    "rtranclp legal (task_State t') (task_State t'')"
    by (auto simp: moved_legally_def)
  with assms(1) obtain t where "GetTask s ident = Some t"
    "rtranclp legal (task_State t) (task_State t')"
    by (auto simp: moved_legally_def)
  with t' show "\<exists>t. GetTask s ident = Some t \<and> rtranclp legal (task_State t) (task_State t'')"
    by auto
qed

lemma moved_legally_update:
  assumes "GetTask s ident = Some task"
    and "st = task_State task \<or> legal (task_State task) st"
  shows "moved_legally s (UpdateTaskState s now ident st note)"
  using assms by (auto simp: moved_legally_def GetTask_UpdateTaskState split: if_splits)

lemma moved_legally_validate:
  "moved_legally s (fst (ValidateAndTransition s now taskID newState note))"
  by (auto simp: ValidateAndTransition_def moved_legally_refl legal_def
      intro: moved_legally_update split: option.splits)

lemma moved_legally_UpdateState:
  "moved_legally s (fst (TaskHandler_UpdateState s now req))"
proof -
  have "moved_legally s x1"
    if "ValidateAndTransition s now taskID newState msg = (x1, e)" for taskID newState msg x1 e
    using moved_legally_validate [of s now taskID newState msg] that by simp
  then show ?thesis
    by (auto simp: TaskHandler_UpdateState_def moved_legally_refl Let_def
        split: option.splits prod.splits)
qed

lemma moved_legally_AppendNote:
  "moved_legally s (fst (TaskHandler_AppendNote s now req))"
  by (auto simp: TaskHandler_AppendNote_def moved_legally_refl
      intro: moved_legally_update split: option.splits)

lemma moved_legally_Upsert:
  "moved_legally s (fst (ArtifactHandler_Upsert s now uuid req))"
  by (auto simp: ArtifactHandler_Upsert_def UpsertArtifact_def moved_legally_refl Let_def
      intro: moved_legally_same_tasks split: option.splits prod.splits if_splits)

lemma read_only_handlers:
  "fst (TaskHandler_GetNext sortSlice cfg now s req) = s"
  "fst (TaskHandler_Get s req) = s"
  "fst (TaskHandler_List s req) = s"
  "fst (ArtifactHandler_Get s req) = s"
  "fst (ArtifactHandler_List s req) = s"
  "fst (RequirementHandler_List s req) = s"
  "fst (PlanHandler_Read planFile disk s req) = s"
  "fst (handleInitialize s req) = s"
  "fst (handlePing s req) = s"
  by (simp_all add: TaskHandler_GetNext_def TaskHandler_Get_def TaskHandler_List_def
      ArtifactHandler_Get_def ArtifactHandler_List_def RequirementHandler_List_def
      PlanHandler_Read_def handleInitialize_def handlePing_def Let_def
      split: option.splits sum.splits PlanFile.splits)

lemma moved_legally_handleRequest: "moved_legally s (fst (handleRequest srv s call))"
  by (simp add: handleRequest_def Let_def read_only_handlers moved_legally_refl
      moved_legally_UpdateState moved_legally_AppendNote moved_legally_Upsert)

lemma moved_legally_serve: "moved_legally s (serve srv s calls)"
proof (induction calls arbitrary: s)
  case Nil
  show ?case by (simp add: moved_legally_refl)
next
  case (Cons call calls)
  have "moved_legally s (fst (handleRequest srv s call))"
    by (rule moved_legally_handleRequest)
  moreover have "moved_legally (fst (handleRequest srv s call))
                   (serve srv (fst (handleRequest srv s call)) calls)"
    by (rule Cons.IH)
  ultimately show ?case by (simp add: moved_legally_trans)
qed

lemma c_Task_make_candidate: "c_Task (make_candidate cfg s task) = task"
  by (simp add: make_candidate_def split: prod.splits)

lemma SelectNext_task:
  assumes sorter: "\<And>lt xs. set (sortSlice lt xs) \<subseteq> set xs"
    and sel: "SelectNext sortSlice cfg now s = Inr sel"
  shows "sel_Task sel \<in> set (tasks s)"
proof -
  let ?cands = "map (make_candidate cfg s) (getSelectableTasks s)"
  let ?avail = "filter (\<lambda>candidate. \<not> c_Blocked candidate) ?cands"
  from sel obtain selected rest
    where sorted: "sortCandidates sortSlice cfg ?avail = selected # rest"
      and task: "sel_Task sel = c_Task selected"
    by (auto simp: SelectNext_def selectByPriorityAndDependency_def Let_def
        split: if_splits list.splits)
  have "selected \<in> set (sortCandidates sortSlice cfg ?avail)" using sorted by simp
  then have "selected \<in> set ?avail"
    using sorter [of "candidate_less cfg" ?avail] unfolding sortCandidates_def by blast
  then obtain tk where "tk \<in> set (getSelectableTasks s)" "selected = make_candidate cfg s tk"
    by auto
  then show ?thesis
    using task by (auto simp: c_Task_make_candidate getSelectableTasks_def ListTasks_def)
qed

lemma find_distinct:
  "distinct (map task_ID ts) \<Longrightarrow> t \<in> set ts \<Longrightarrow> find (\<lambda>x. task_ID x = task_ID t) ts = Some t"
  by (induction ts) (auto simp: image_iff)

lemma stored_state_same_tasks: "tasks s' = tasks s \<Longrightarrow> stored_state s' = stored_state s"
  by (intro ext) (simp add: stored_state_def GetTask_def)

lemma stored_state_UpdateTaskState:
  "stored_state (UpdateTaskState s now ident st msg) ident'
     = (if ident' = ident then map_option (\<lambda>t. st) (GetTask s ident)
        else stored_state s ident')"
  by (simp add: stored_state_def GetTask_UpdateTaskState option.map_comp comp_def)

lemma validate_outcome:
  "fst (ValidateAndTransition s now taskID newState msg) = s
   \<or> (\<exists>task. GetTask s taskID = Some task
          \<and> ValidateTransition (task_State task) newState = None
          \<and> fst (ValidateAndTransition s now taskID newState msg)
              = UpdateTaskState s now taskID newState msg)"
  by (auto simp: ValidateAndTransition_def split: option.splits)

lemma validate_step:
  assumes a: "stored_state s ident = Some a"
    and b: "stored_state (fst (ValidateAndTransition s now taskID newState msg)) ident = Some b"
    and ne: "a \<noteq> b"
  shows "taskID = ident \<and> legal a b"
proof -
  from validate_outcome [of s now taskID newState msg] a b ne
  obtain task where task: "GetTask s taskID = Some task"
    and ok: "ValidateTransition (task_State task) newState = None"
    and upd: "fst (ValidateAndTransition s now taskID newState msg)
                = UpdateTaskState s now taskID newState msg"
    by auto
  have same: "taskID = ident"
  proof (rule ccontr)
    assume "taskID \<noteq> ident"
    then have "stored_state (UpdateTaskState s now taskID newState msg) ident
                 = stored_state s ident"
      by (simp add: stored_state_UpdateTaskState)
    with a b ne upd show False by simp
  qed
  from b have "b = newState"
    unfolding upd same [symmetric] by (simp add: stored_state_UpdateTaskState task)
  moreover from a task have "a = task_State task"
    unfolding same [symmetric] by (simp add: stored_state_def)
  ultimately show ?thesis using ok same by (simp add: legal_def)
qed

lemma update_state_step:
  assumes "stored_state s ident = Some a"
    and "stored_state (fst (TaskHandler_UpdateState s now req)) ident = Some b"
    and "a \<noteq> b"
  shows "GetStringParam req ''task_id'' = Some ident \<and> legal a b"
proof (cases "GetStringParam req ''task_id''")
  case None
  with assms show ?thesis by (simp add: TaskHandler_UpdateState_def)
next
  case t: (Some taskID)
  show ?thesis
  proof (cases "GetStringParam req ''state''")
    case None
    with assms t show ?thesis by (simp add: TaskHandler_UpdateState_def)
  next
    case (Some stateStr)
    have "fst (TaskHandler_UpdateState s now req)
            = fst (ValidateAndTransition s now taskID (NormalizeState stateStr)
                     (fst (GetOptionalStringParam req ''note'')))"
      using t Some by (simp add: TaskHandler_UpdateState_def Let_def split: prod.splits option.splits)
    with assms validate_step [of s ident a now taskID "NormalizeState stateStr"
        "fst (GetOptionalStringParam req ''note'')" b] t
    show ?thesis by simp
  qed
qed

lemma surface_step:
  assumes "stored_state x ident = Some a"
    and "stored_state (fst (handleRequest srv x call)) ident = Some b"
    and "a \<noteq> b"
  shows "rq_Method (sv_request call) = ''baton.tasks.update_state''
         \<and> GetStringParam (sv_request call) ''task_id'' = Some ident \<and> legal a b"
proof (cases "rq_Method (sv_request call) = ''baton.tasks.update_state''")
  case True
  then have "fst (handleRequest srv x call)
               = fst (TaskHandler_UpdateState x (sv_now call) (sv_request call))"
    by (simp add: handleRequest_def)
  with assms update_state_step [of x ident a "sv_now call" "sv_request call" b] True
  show ?thesis by simp
next
  case False
  have keep: "stored_state (fst (TaskHandler_AppendNote x now req)) ident = stored_state x ident"
    for now req
    by (simp add: stored_state_def append_note_keeps_state)
  have upsert: "stored_state (fst (ArtifactHandler_Upsert x now uuid req)) = stored_state x"
    for now uuid req
    by (rule stored_state_same_tasks)
      (auto simp: ArtifactHandler_Upsert_def UpsertArtifact_def Let_def
        split: option.splits prod.splits if_splits)
  have "stored_state (fst (handleRequest srv x call)) ident = stored_state x ident"
    using False by (simp add: handleRequest_def Let_def read_only_handlers keep upsert)
  with assms show ?thesis by simp
qed

lemma LogCycle_tasks: "tasks (fst (LogCycle s now uuid entry)) = tasks s"
  by (simp add: LogCycle_def CreateAuditLog_def Let_def)

text \<open>
  Claim C2, amended: for every cycle whose \<^verbatim>\<open>CycleResult\<close> reports success, the
  previous state is the state the Store held for the task when the cycle began. In a dry
  run the Store is left as it was and the next state is a legal successor of the previous
  state, when that is a state of the state machine. Otherwise the next state is the state
  the Store holds for the task when the cycle ends, and it is either the state the task
  had when the agent's calls had been served, which is reached from the previous state by
  zero or more transitions that are each legal according to the transition table, or,
  with \<^verbatim>\<open>require_explicit_state_update\<close> set, \<^verbatim>\<open>needs_fixes\<close>, which the handshake's
  recovery drop writes through the Store without the Validator's transition check. Every
  change that a call of the method surface makes to the state of a task is made by
  \<^verbatim>\<open>tasks.update_state\<close> for that task and is a legal transition. The sort is any
  function that returns elements of its input, and task ids are unique, as the primary
  key makes them.
\<close>

theorem cycle_next_state:
  assumes sorter: "\<And>lt xs. set (sortSlice lt xs) \<subseteq> set xs"
    and dist: "distinct (map task_ID (tasks s))"
    and run: "ExecuteCycle sortSlice cfg env dryRun s = (s', Inr res)"
    and success: "cr_Success res"
  shows "stored_state s (cr_TaskID res) = Some (cr_PrevState res)
     \<and> (dryRun \<longrightarrow>
          s' = s
          \<and> (NormalizeState (cr_PrevState res) \<in> set GetAllStates
               \<longrightarrow> legal (cr_PrevState res) (cr_NextState res)))
     \<and> (\<not> dryRun \<longrightarrow>
          stored_state s' (cr_TaskID res) = Some (cr_NextState res)
          \<and> (\<exists>mid. stored_state (serve (surface_of sortSlice cfg) s (env_served env))
                      (cr_TaskID res) = Some mid
                 \<and> rtranclp legal (cr_PrevState res) mid
                 \<and> (cr_NextState res = mid
                      \<or> cc_RequireExplicitStateUpdate (cfg_Completion cfg)
                        \<and> cr_NextState res = NeedsFixes)))
     \<and> (\<forall>ident a b.
          stored_state x ident = Some a
          \<and> stored_state (fst (handleRequest srv x call)) ident = Some b \<and> a \<noteq> b
          \<longrightarrow> rq_Method (sv_request call) = ''baton.tasks.update_state''
              \<and> GetStringParam (sv_request call) ''task_id'' = Some ident \<and> legal a b)"
proof -
  from run obtain sel where sel:
    "SelectNext sortSlice (cfg_Selection cfg) (env_selectTime env) s = Inr sel"
    by (auto simp: ExecuteCycle_def split: sum.splits)
  let ?task = "sel_Task sel"
  have stored: "GetTask s (task_ID ?task) = Some ?task"
    using find_distinct [OF dist SelectNext_task [OF sorter sel]] by (simp add: GetTask_def)
  have selectable: "\<not> IsTerminalState (task_State ?task)"
  proof -
    let ?cands = "map (make_candidate (cfg_Selection cfg) s) (getSelectableTasks s)"
    let ?avail = "filter (\<lambda>candidate. \<not> c_Blocked candidate) ?cands"
    from sel obtain selected rest
      where sorted: "sortCandidates sortSlice (cfg_Selection cfg) ?avail = selected # rest"
        and task: "sel_Task sel = c_Task selected"
      by (auto simp: SelectNext_def selectByPriorityAndDependency_def Let_def
          split: if_splits list.splits)
    have "selected \<in> set (sortCandidates sortSlice (cfg_Selection cfg) ?avail)"
      using sorted by simp
    then have "selected \<in> set ?avail"
      using sorter [of "candidate_less (cfg_Selection cfg)" ?avail]
      unfolding sortCandidates_def by blast
    then obtain tk where "tk \<in> set (getSelectableTasks s)"
      "selected = make_candidate (cfg_Selection cfg) s tk"
      by auto
    then show ?thesis
      using task by (auto simp: c_Task_make_candidate getSelectableTasks_def)
  qed
  have step: "\<forall>ident a b.
          stored_state x ident = Some a
          \<and> stored_state (fst (handleRequest srv x call)) ident = Some b \<and> a \<noteq> b
          \<longrightarrow> rq_Method (sv_request call) = ''baton.tasks.update_state''
              \<and> GetStringParam (sv_request call) ''task_id'' = Some ident \<and> legal a b"
    using surface_step by blast
  show ?thesis
  proof (cases dryRun)
    case True
    with run sel have res: "cr_TaskID res = task_ID ?task" "cr_PrevState res = task_State ?task"
      "cr_NextState res = (case GetAllowedTransitions (task_State ?task) of
                             Inr (allowedState # _) \<Rightarrow> allowedState
                           | _ \<Rightarrow> task_State ?task)"
      and frame: "s' = s"
      by (auto simp: ExecuteCycle_def Let_def split: sum.splits option.splits list.splits)
    have "legal (task_State ?task) (cr_NextState res)"
      if "NormalizeState (task_State ?task) \<in> set GetAllStates"
    proof -
      from first_successor [OF that selectable] obtain y ys
        where g: "GetAllowedTransitions (task_State ?task) = Inr (y # ys)" by blast
      then have "legal (task_State ?task) y" by (simp add: legal_def first_successor_legal)
      then show ?thesis using g res(3) by simp
    qed
    then have B: "dryRun \<longrightarrow>
          s' = s
          \<and> (NormalizeState (cr_PrevState res) \<in> set GetAllStates
               \<longrightarrow> legal (cr_PrevState res) (cr_NextState res))"
      using res(2) frame by simp
    have A: "stored_state s (cr_TaskID res) = Some (cr_PrevState res)"
      using stored res(1,2) by (simp add: stored_state_def)
    have C: "\<not> dryRun \<longrightarrow>
          stored_state s' (cr_TaskID res) = Some (cr_NextState res)
          \<and> (\<exists>mid. stored_state (serve (surface_of sortSlice cfg) s (env_served env))
                      (cr_TaskID res) = Some mid
                 \<and> rtranclp legal (cr_PrevState res) mid
                 \<and> (cr_NextState res = mid
                      \<or> cc_RequireExplicitStateUpdate (cfg_Completion cfg)
                        \<and> cr_NextState res = NeedsFixes))"
      using True by simp
    show ?thesis by (rule conjI [OF A conjI [OF B conjI [OF C step]]])
  next
    case False
    define s1 where "s1 = serve (surface_of sortSlice cfg) s (env_served env)"
    from run sel False obtain llmResponse s2 hr entry
      where enf: "Enforce s1 (cfg_Completion cfg) (env_cancelled env) (env_handshakeTime env)
                    (task_ID ?task) llmResponse = (s2, Inr hr)"
        and res: "cr_TaskID res = task_ID ?task" "cr_PrevState res = task_State ?task"
          "cr_NextState res = hr_FinalState hr"
        and logged: "LogCycle s2 (env_auditTime env) (env_auditID env) entry = (s', None)"
      by (auto simp: ExecuteCycle_def Let_def s1_def
          split: sum.splits option.splits prod.splits if_splits)
    from Enforce_outcome [OF enf] obtain t1
      where t1: "GetTask s1 (task_ID ?task) = Some t1"
        and fin: "if cc_RequireExplicitStateUpdate (cfg_Completion cfg)
                   then hr_FinalState hr = NeedsFixes
                        \<and> s2 = UpdateTaskState s1 (env_handshakeTime env) (task_ID ?task)
                                 NeedsFixes (hr_Note hr)
                   else hr_FinalState hr = task_State t1 \<and> s2 = s1"
      by blast
    have final2: "stored_state s2 (task_ID ?task) = Some (hr_FinalState hr)"
    proof (cases "cc_RequireExplicitStateUpdate (cfg_Completion cfg)")
      case True
      with fin t1 show ?thesis by (simp add: stored_state_UpdateTaskState)
    next
      case False
      with fin t1 show ?thesis by (simp add: stored_state_def)
    qed
    have "tasks s' = tasks s2"
      using LogCycle_tasks [of s2 "env_auditTime env" "env_auditID env" entry]
      by (simp add: logged)
    then have "stored_state s' = stored_state s2" by (rule stored_state_same_tasks)
    with final2 have final: "stored_state s' (task_ID ?task) = Some (hr_FinalState hr)" by simp
    have "moved_legally s s1" unfolding s1_def by (rule moved_legally_serve)
    then obtain t0 where "GetTask s (task_ID ?task) = Some t0"
      "rtranclp legal (task_State t0) (task_State t1)"
      using t1 unfolding moved_legally_def by blast
    with stored have reach: "rtranclp legal (task_State ?task) (task_State t1)" by simp
    have mid: "\<exists>mid. stored_state s1 (task_ID ?task) = Some mid
                 \<and> rtranclp legal (task_State ?task) mid
                 \<and> (hr_FinalState hr = mid
                      \<or> cc_RequireExplicitStateUpdate (cfg_Completion cfg)
                        \<and> hr_FinalState hr = NeedsFixes)"
    proof (intro exI conjI)
      show "stored_state s1 (task_ID ?task) = Some (task_State t1)"
        using t1 by (simp add: stored_state_def)
      show "rtranclp legal (task_State ?task) (task_State t1)" by (rule reach)
      show "hr_FinalState hr = task_State t1
              \<or> cc_RequireExplicitStateUpdate (cfg_Completion cfg)
                \<and> hr_FinalState hr = NeedsFixes"
        using fin by (auto split: if_splits)
    qed
    have prev: "stored_state s (task_ID ?task) = Some (task_State ?task)"
      using stored by (simp add: stored_state_def)
    have A: "stored_state s (cr_TaskID res) = Some (cr_PrevState res)"
      using prev res(1,2) by simp
    have B: "dryRun \<longrightarrow>
          s' = s
          \<and> (NormalizeState (cr_PrevState res) \<in> set GetAllStates
               \<longrightarrow> legal (cr_PrevState res) (cr_NextState res))"
      using False by simp
    have C: "\<not> dryRun \<longrightarrow>
          stored_state s' (cr_TaskID res) = Some (cr_NextState res)
          \<and> (\<exists>mid. stored_state (serve (surface_of sortSlice cfg) s (env_served env))
                      (cr_TaskID res) = Some mid
                 \<and> rtranclp legal (cr_PrevState res) mid
                 \<and> (cr_NextState res = mid
                      \<or> cc_RequireExplicitStateUpdate (cfg_Completion cfg)
                        \<and> cr_NextState res = NeedsFixes))"
      using final mid unfolding res s1_def by simp
    show ?thesis by (rule conjI [OF A conjI [OF B conjI [OF C step]]])
  qed
qed

lemma lax_config:
  "cfg_Selection config_lax = cfg_Selection default_config"
  "surface_of sortSlice config_lax = surface_of sortSlice default_config"
  "getAgentForTask config_lax task_T1 = Inr architect"
  "\<not> cc_RequireExplicitStateUpdate (cfg_Completion config_lax)"
  "cc_RequireExplicitStateUpdate (cfg_Completion default_config)"
  by (simp_all add: config_lax_def surface_of_def getAgentForTask_def default_config_def
      task_T1_def architect_def state_names)

lemma enforce_lax:
  assumes "GetTask s ''T1'' = Some t"
  shows "Enforce s (cfg_Completion config_lax) (\<lambda>retry. False) 40 ''T1'' resp
     = (s, Inr \<lparr>hr_Success = False, hr_FinalState = task_State t, hr_ArtifactsCreated = [],
                hr_FollowUps = [follow_up_template, follow_up_template], hr_Note = []\<rparr>)"
  using assms
  by (simp add: Enforce_def enforceHandshake_def retry_loop.simps config_lax_def
      default_config_def Let_def)

lemma log_appended:
  assumes "log_ID entry = []" "log_TaskID entry = ''T1''" "GetTask s ''T1'' = Some t"
    "audit_logs s = []"
  shows "LogCycle s 41 ''audit-1'' entry
     = (s\<lparr>audit_logs := [entry\<lparr>log_ID := ''audit-1'', log_CreatedAt := 41\<rparr>]\<rparr>, None)"
  using assms by (simp add: LogCycle_def CreateAuditLog_def Let_def)

lemma serve_two_updates:
  "serve (surface_of insertionSort default_config) store_T1 (env_served env_two_updates)
     = store_dropped 36"
  by (simp add: store_dropped_def env_two_updates_def surface_of_def handleRequest_def
      TaskHandler_UpdateState_def
      GetStringParam_def GetOptionalStringParam_def ValidateAndTransition_def GetTask_def
      ValidateTransition_def validateDependencies_def workStates_def check_dependencies.simps
      validateRequiredHandovers_def getRequiredHandovers_def requiredHandovers_def
      UpdateTaskState_def NormalizeState_def StateAliases_def ValidTransitions_def
      fixture_defs state_names Let_def)

lemma stored_T1:
  "GetTask store_after_update ''T1'' = Some (task_T1\<lparr>task_State := Planning, task_UpdatedAt := 35\<rparr>)"
  "GetTask (store_dropped t) ''T1'' = Some (task_T1\<lparr>task_State := NeedsFixes, task_UpdatedAt := t\<rparr>)"
  "audit_logs store_after_update = []" "audit_logs (store_dropped t) = []"
  by (simp_all add: store_after_update_def store_dropped_def store_T1_def empty_store_def
      task_T1_def GetTask_def)

lemma cycle_lax_update_eval:
  "\<exists>logs. ExecuteCycle insertionSort config_lax env_update False store_T1
             = (store_after_update\<lparr>audit_logs := logs\<rparr>, Inr result_planning)"
proof -
  from select_T1 obtain reason
    where sel: "SelectNext insertionSort (cfg_Selection default_config) 30 store_T1
              = Inr \<lparr>sel_Task = task_T1, sel_Reason = reason\<rparr>" ..
  have env: "env_selectTime env_update = 30" "env_mcpStart env_update = None"
    "env_llm env_update = Inr \<lparr>rs_Success = True, rs_Content = ''done''\<rparr>"
    "env_cancelled env_update = (\<lambda>retry. False)" "env_handshakeTime env_update = 40"
    "env_auditTime env_update = 41" "env_auditID env_update = ''audit-1''"
    "env_cycleID env_update = ''cycle-1''" "env_duration env_update = 11"
    by (simp_all add: env_update_def env_idle_def)
  have id: "task_ID task_T1 = ''T1''" "task_State task_T1 = ReadyForPlan"
    by (simp_all add: task_T1_def)
  show ?thesis
    apply (simp add: ExecuteCycle_def lax_config(1,2,3) sel env serve_update id
        enforce_lax [OF stored_T1(1)] log_appended [OF _ _ stored_T1(1) stored_T1(3)]
        result_planning_def Let_def)
    apply (rule exI, rule refl)
    done
qed

lemma cycle_lax_two_eval:
  "\<exists>logs. ExecuteCycle insertionSort config_lax env_two_updates False store_T1
             = ((store_dropped 36)\<lparr>audit_logs := logs\<rparr>, Inr result_dropped)"
proof -
  from select_T1 obtain reason
    where sel: "SelectNext insertionSort (cfg_Selection default_config) 30 store_T1
              = Inr \<lparr>sel_Task = task_T1, sel_Reason = reason\<rparr>" ..
  have env: "env_selectTime env_two_updates = 30" "env_mcpStart env_two_updates = None"
    "env_llm env_two_updates = Inr \<lparr>rs_Success = True, rs_Content = ''done''\<rparr>"
    "env_cancelled env_two_updates = (\<lambda>retry. False)" "env_handshakeTime env_two_updates = 40"
    "env_auditTime env_two_updates = 41" "env_auditID env_two_updates = ''audit-1''"
    "env_cycleID env_two_updates = ''cycle-1''" "env_duration env_two_updates = 11"
    by (simp_all add: env_two_updates_def env_idle_def)
  have id: "task_ID task_T1 = ''T1''" "task_State task_T1 = ReadyForPlan"
    by (simp_all add: task_T1_def)
  show ?thesis
    apply (simp add: ExecuteCycle_def lax_config(1,2,3) sel env serve_two_updates id
        enforce_lax [OF stored_T1(2)] log_appended [OF _ _ stored_T1(2) stored_T1(4)]
        result_dropped_def Let_def)
    apply (rule exI, rule refl)
    done
qed

text \<open>
  Claim C2, as the specification states it: for every cycle that reports success the next
  state is a legal successor of the previous state, the handshake's drop to
  \<^verbatim>\<open>needs_fixes\<close> included. It fails on the code. When the agent makes no call on the
  task \<^verbatim>\<open>T1\<close> in \<^verbatim>\<open>ready_for_plan\<close>, the cycle reports success with previous state
  \<^verbatim>\<open>ready_for_plan\<close> and next state \<^verbatim>\<open>needs_fixes\<close>, which the task now has, and
  \<^verbatim>\<open>ValidateTransition\<close> rejects that transition. With
  \<^verbatim>\<open>require_explicit_state_update\<close> unset there is no drop, and an agent that declares
  \<^verbatim>\<open>planning\<close> and then \<^verbatim>\<open>needs_fixes\<close>, each a legal transition, ends a successful
  cycle with the same two states.
\<close>

theorem cycle_next_state_counterexample:
  "snd (ExecuteCycle insertionSort default_config env_idle False store_T1) = Inr result_dropped
   \<and> cr_Success result_dropped
   \<and> cr_PrevState result_dropped = ReadyForPlan
   \<and> cr_NextState result_dropped = NeedsFixes
   \<and> ValidateTransition ReadyForPlan NeedsFixes \<noteq> None
   \<and> tasks (fst (ExecuteCycle insertionSort default_config env_idle False store_T1))
       = tasks (store_dropped 40)
   \<and> snd (ExecuteCycle insertionSort config_lax env_two_updates False store_T1)
       = Inr result_dropped"
proof -
  have illegal: "ValidateTransition ReadyForPlan NeedsFixes \<noteq> None"
    by (simp add: ValidateTransition_def ValidTransitions_def normalize_canonical)
      (simp add: state_names)
  from cycle_idle_eval obtain reason
    where "ExecuteCycle insertionSort default_config env_idle False store_T1
             = ((store_dropped 40)\<lparr>audit_logs := [audit_dropped reason]\<rparr>, Inr result_dropped)" ..
  moreover from cycle_lax_two_eval obtain logs
    where "ExecuteCycle insertionSort config_lax env_two_updates False store_T1
             = ((store_dropped 36)\<lparr>audit_logs := logs\<rparr>, Inr result_dropped)" ..
  ultimately show ?thesis using illegal by (simp add: result_dropped_def)
qed

theorem cycle_next_state_witness:
  "distinct (map task_ID (tasks store_T1))
   \<and> snd (ExecuteCycle insertionSort default_config env_idle True store_T1)
       = Inr result_planning
   \<and> NormalizeState ReadyForPlan \<in> set GetAllStates
   \<and> legal ReadyForPlan Planning
   \<and> snd (ExecuteCycle insertionSort default_config env_idle False store_T1)
       = Inr result_dropped
   \<and> stored_state (fst (ExecuteCycle insertionSort default_config env_idle False store_T1))
        ''T1'' = Some NeedsFixes
   \<and> snd (ExecuteCycle insertionSort config_lax env_update False store_T1)
       = Inr result_planning
   \<and> stored_state (fst (ExecuteCycle insertionSort config_lax env_update False store_T1))
        ''T1'' = Some Planning
   \<and> snd (ExecuteCycle insertionSort config_lax env_two_updates False store_T1)
       = Inr result_dropped
   \<and> rtranclp legal ReadyForPlan NeedsFixes
   \<and> stored_state store_T1 ''T1'' = Some ReadyForPlan
   \<and> stored_state
        (fst (handleRequest surface0 store_T1 (call_at 35 (update_request ''T1'' ''planning''))))
        ''T1'' = Some Planning
   \<and> cr_Success result_planning \<and> cr_Success result_dropped"
proof -
  have sorter: "set (insertionSort lt xs) \<subseteq> set xs"
    for lt :: "taskCandidate \<Rightarrow> taskCandidate \<Rightarrow> bool" and xs
    by (simp add: set_insertionSort)
  have dist: "distinct (map task_ID (tasks store_T1))"
    by (simp add: store_T1_def empty_store_def)
  have ok: "cr_Success result_planning" "cr_Success result_dropped"
    by (simp_all add: result_planning_def result_dropped_def)
  have fields: "cr_TaskID result_planning = ''T1''" "cr_PrevState result_planning = ReadyForPlan"
    "cr_NextState result_planning = Planning"
    "cr_TaskID result_dropped = ''T1''" "cr_PrevState result_dropped = ReadyForPlan"
    "cr_NextState result_dropped = NeedsFixes"
    by (simp_all add: result_planning_def result_dropped_def)
  have mem: "NormalizeState ReadyForPlan \<in> set GetAllStates"
    by (simp add: GetAllStates_def ValidTransitions_def normalize_canonical)
  have preview: "ExecuteCycle insertionSort default_config env_idle True store_T1
                   = (store_T1, Inr result_planning)"
    using preview_T1 by (simp add: result_planning_def)
  from cycle_idle_eval obtain reason
    where idle: "ExecuteCycle insertionSort default_config env_idle False store_T1
             = ((store_dropped 40)\<lparr>audit_logs := [audit_dropped reason]\<rparr>, Inr result_dropped)" ..
  from cycle_lax_update_eval obtain logs
    where upd: "ExecuteCycle insertionSort config_lax env_update False store_T1
             = (store_after_update\<lparr>audit_logs := logs\<rparr>, Inr result_planning)" ..
  from cycle_lax_two_eval obtain logs'
    where two: "ExecuteCycle insertionSort config_lax env_two_updates False store_T1
             = ((store_dropped 36)\<lparr>audit_logs := logs'\<rparr>, Inr result_dropped)" ..
  have before: "stored_state store_T1 ''T1'' = Some ReadyForPlan"
    by (simp add: stored_state_def GetTask_def store_T1_def empty_store_def task_T1_def)
  have after: "stored_state
        (fst (handleRequest surface0 store_T1 (call_at 35 (update_request ''T1'' ''planning''))))
        ''T1'' = Some Planning"
    using serve_update
    by (simp add: env_update_def env_idle_def surface_of_def surface0_def handleRequest_def
        call_at_def update_request_def rpc_def stored_state_def stored_T1(1))
  have ne: "ReadyForPlan \<noteq> Planning" by (simp add: state_names)
  note w1 = cycle_next_state [OF sorter dist preview ok(1),
      of store_T1 surface0 "call_at 35 (update_request ''T1'' ''planning'')"]
  note w2 = cycle_next_state [OF sorter dist idle ok(2),
      of store_T1 surface0 "call_at 35 (update_request ''T1'' ''planning'')"]
  note w3 = cycle_next_state [OF sorter dist upd ok(1),
      of store_T1 surface0 "call_at 35 (update_request ''T1'' ''planning'')"]
  note w4 = cycle_next_state [OF sorter dist two ok(2),
      of store_T1 surface0 "call_at 35 (update_request ''T1'' ''planning'')"]
  have 1: "legal ReadyForPlan Planning"
    using w1 mem by (simp add: fields)
  have 2: "stored_state (fst (ExecuteCycle insertionSort default_config env_idle False store_T1))
        ''T1'' = Some NeedsFixes"
    using w2 by (simp add: fields idle)
  have 3: "stored_state (fst (ExecuteCycle insertionSort config_lax env_update False store_T1))
        ''T1'' = Some Planning"
    using w3 by (simp add: fields upd)
  have 4: "rtranclp legal ReadyForPlan NeedsFixes"
    using w4 by (auto simp: fields lax_config(4))
  from dist preview mem 1 idle 2 upd 3 two 4 before after ok show ?thesis by simp
qed

end
